theory Spec2Isabelle
  imports Complex_Main "HOL-Library.Word" "HOL-Library.Log_Nat"
begin

section \<open>Byte slices, machine integers, time and floats\<close>

text \<open>
  A Go byte slice is a list of characters (bytes); \<open>int64\<close> is a 64-bit word, whose
  arithmetic wraps as Go's does.  A \<open>time.Time\<close> is the number of nanoseconds since the
  Unix epoch, a \<open>time.Duration\<close> a number of nanoseconds.  The zero \<open>time.Time\<close> of Go is
  January 1 of year 1, which lies 62135596800 seconds before the Unix epoch.
\<close>

type_synonym bytes = string
type_synonym int64 = "64 word"
type_synonym gotime = int
type_synonym Duration = int

definition newLineSep :: char where
  "newLineSep = CHR 0x0A"

definition transactionKey :: bytes where
  "transactionKey = ''transaction''"

definition zeroTime :: gotime where
  "zeroTime = - 62135596800 * 1000000000"

definition time_IsZero :: "gotime \<Rightarrow> bool" where
  "time_IsZero t = (t = zeroTime)"

definition maxDuration :: Duration where
  "maxDuration = 2 ^ 63 - 1"

definition minDuration :: Duration where
  "minDuration = - (2 ^ 63)"

text \<open>\<open>t.Sub(u)\<close> saturates at the largest and the smallest duration.\<close>

definition time_Sub :: "gotime \<Rightarrow> gotime \<Rightarrow> Duration" where
  "time_Sub t u =
     (let d = t - u
      in if d > maxDuration then maxDuration
         else if d < minDuration then minDuration
         else d)"

text \<open>\<open>time.Since(t)\<close> is \<open>time.Now().Sub(t)\<close>; the clock reading is an argument.\<close>

definition time_Since :: "gotime \<Rightarrow> gotime \<Rightarrow> Duration" where
  "time_Since tnow t = time_Sub tnow t"

text \<open>\<open>time.Unix(0, nsec)\<close> and \<open>time.UnixMicro(usec)\<close>.\<close>

definition time_Unix0 :: "int64 \<Rightarrow> gotime" where
  "time_Unix0 nsec = sint nsec"

definition time_UnixMicro :: "int64 \<Rightarrow> gotime" where
  "time_UnixMicro usec = sint usec * 1000"

text \<open>\<open>int64(time.Millisecond)\<close>.\<close>

definition Millisecond :: int64 where
  "Millisecond = 1000000"

text \<open>
  \<open>d.Milliseconds()\<close> is \<open>int64(d) / 1e6\<close>, a division that truncates towards zero.
\<close>

definition Duration_Milliseconds :: "Duration \<Rightarrow> int64" where
  "Duration_Milliseconds d =
     (if 0 \<le> d then word_of_int (d div 1000000) else word_of_int (- ((- d) div 1000000)))"

text \<open>
  A floating-point value (\<open>float32\<close> or \<open>float64\<close>) is a finite rational, a NaN or an
  infinity; the two zeros are one value.  Comparison with zero is exact.
\<close>

datatype gofloat = Finite rat | NaN | PosInf | NegInf

fun f_ge_zero :: "gofloat \<Rightarrow> bool" where
  "f_ge_zero (Finite q) = (0 \<le> q)"
| "f_ge_zero NaN = False"
| "f_ge_zero PosInf = True"
| "f_ge_zero NegInf = False"

text \<open>
  The arithmetic of \<open>float32\<close>.  A result is rounded to the nearest value with a
  significand of 24 bits, to the even significand on a tie; the least exponent is
  \<open>-126\<close> (below it the spacing stays \<open>2 ^ -149\<close>), and a result that rounds to
  \<open>2 ^ 128\<close> or beyond is an infinity.  \<open>pow2 k\<close> is \<open>2 ^ k\<close>, \<open>floor_log2 a\<close> the
  exponent of a positive \<open>a\<close>, \<open>round_even\<close> the nearest integer.
\<close>

definition pow2 :: "int \<Rightarrow> rat" where
  "pow2 k = (if 0 \<le> k then 2 ^ nat k else 1 / 2 ^ nat (- k))"

definition floor_log2 :: "rat \<Rightarrow> int" where
  "floor_log2 a =
     (case quotient_of a of (p, q) \<Rightarrow>
        (let k = bitlen p - bitlen q in if pow2 k \<le> a then k else k - 1))"

definition round_even :: "rat \<Rightarrow> int" where
  "round_even y =
     (let n = \<lfloor>y\<rfloor>; f = y - of_int n
      in if f < 1 / 2 then n else if 1 / 2 < f then n + 1 else if even n then n else n + 1)"

definition f32_round :: "rat \<Rightarrow> gofloat" where
  "f32_round x =
     (if x = 0 then Finite 0
      else
        (let e = max (floor_log2 \<bar>x\<bar>) (- 126);
             ulp = pow2 (e - 23);
             r = of_int (round_even (\<bar>x\<bar> / ulp)) * ulp
         in if pow2 128 \<le> r then (if 0 < x then PosInf else NegInf)
            else Finite (sgn x * r)))"

text \<open>\<open>float32(x)\<close> of a \<open>float64\<close>.\<close>

definition float32_of :: "gofloat \<Rightarrow> gofloat" where
  "float32_of x = (case x of Finite q \<Rightarrow> f32_round q | _ \<Rightarrow> x)"

definition f_sign :: "gofloat \<Rightarrow> int" where
  "f_sign x =
     (case x of
        Finite q \<Rightarrow> (if 0 < q then 1 else if q < 0 then - 1 else 0)
      | NaN \<Rightarrow> 0
      | PosInf \<Rightarrow> 1
      | NegInf \<Rightarrow> - 1)"

text \<open>The product \<open>x * y\<close> and the sum \<open>x + y\<close> of two \<open>float32\<close> values.\<close>

fun f32_mul :: "gofloat \<Rightarrow> gofloat \<Rightarrow> gofloat" where
  "f32_mul (Finite p) (Finite q) = f32_round (p * q)"
| "f32_mul NaN y = NaN"
| "f32_mul x NaN = NaN"
| "f32_mul x y =
     (let s = f_sign x * f_sign y
      in if s = 0 then NaN else if 0 < s then PosInf else NegInf)"

fun f32_add :: "gofloat \<Rightarrow> gofloat \<Rightarrow> gofloat" where
  "f32_add (Finite p) (Finite q) = f32_round (p + q)"
| "f32_add NaN y = NaN"
| "f32_add x NaN = NaN"
| "f32_add PosInf NegInf = NaN"
| "f32_add NegInf PosInf = NaN"
| "f32_add PosInf y = PosInf"
| "f32_add x PosInf = PosInf"
| "f32_add NegInf y = NegInf"
| "f32_add x NegInf = NegInf"

text \<open>
  \<open>int64(x)\<close> of a float discards the fraction, towards zero.  When \<open>int64\<close> cannot
  hold the value (a NaN, an infinity, a value of 64 bits or more) the language leaves the
  result to the implementation: it is \<open>ovf x\<close>.
\<close>

definition int64_of_float :: "(gofloat \<Rightarrow> int64) \<Rightarrow> gofloat \<Rightarrow> int64" where
  "int64_of_float ovf x =
     (case x of
        Finite q \<Rightarrow>
          (let t = (if 0 \<le> q then \<lfloor>q\<rfloor> else - \<lfloor>- q\<rfloor>)
           in if - (2 ^ 63) \<le> t \<and> t < 2 ^ 63 then word_of_int t else ovf x)
      | _ \<Rightarrow> ovf x)"

section \<open>Errors\<close>

datatype error =
    ErrMetadataUnavailable
  | ErrBatchFull
  | ErrInvalidEncoding
  | ErrInvalidPayload
  | ErrLifecycle
  | ErrCurrentInvocationMissing string
  | ErrInvocationMissing string
  | ErrSpanID
  | ErrLibrary
  | Panic

text \<open>
  \<open>ErrInvalidPayload\<close> is \<open>errors.New("invalid payload")\<close>, \<open>ErrLifecycle\<close> the
  "currently executing requestID is not set" error, \<open>ErrCurrentInvocationMissing\<close> and
  \<open>ErrInvocationMissing\<close> the two "does not exist" errors with the request ID they
  print, \<open>ErrSpanID\<close> the failure of \<open>cryptorand.Read\<close>, and \<open>ErrLibrary\<close> any
  error returned by sjson, fastjson or a decompressor.  \<open>Panic\<close> is no error value of
  the code: it marks a call that ends in a run-time panic.  A panic leaves through every
  caller at once, as an error that each of them hands on; the batch that comes with it
  is the batch as the panic left it.
\<close>

section \<open>Data model\<close>

text \<open>
  Modelled from the spec: the \<open>Invocation\<close> struct, whose declaration is not among the
  sources.  The fields are those of the spec's data model, under the names
  \<open>batch.go\<close> uses for them.  \<open>empty_Invocation\<close> is Go's zero value \<open>Invocation{}\<close>.
\<close>

record Invocation =
  RequestID :: string
  FunctionARN :: string
  DeadlineMs :: int64
  Timestamp :: gotime
  TransactionID :: string
  AgentPayload :: bytes
  TransactionObserved :: bool
  Finalized :: bool

definition empty_Invocation :: Invocation where
  "empty_Invocation =
     \<lparr>RequestID = [], FunctionARN = [], DeadlineMs = 0, Timestamp = zeroTime,
      TransactionID = [], AgentPayload = [], TransactionObserved = False,
      Finalized = False\<rparr>"

text \<open>
  Modelled from the spec: the \<open>APMData\<close> struct (a payload and its
  \<open>Content-Encoding\<close>), whose declaration is not among the sources.
\<close>

record APMData =
  Data :: bytes
  ContentEncoding :: string

text \<open>The fields of \<open>model.Span\<close> that \<open>NewLambdaSpan\<close> sets.\<close>

record Span =
  SpanName :: string
  SpanTimestamp :: gotime
  SpanDuration :: gofloat
  SpanType :: string
  SpanSubtype :: string
  SpanID :: "64 word"
  SpanTransactionID :: "64 word"
  SpanTraceID :: "128 word"
  SpanParentID :: "64 word"
  SpanSampleRate :: gofloat

text \<open>
  The batch.  The mutex is left out: every operation below is one critical section.
  \<open>count\<close> is only ever reset to zero or incremented, so it is a natural number;
  \<open>metadataBytes\<close> is a length.
\<close>

record Batch =
  metadataBytes :: nat
  buf :: bytes
  invocations :: "string \<rightharpoonup> Invocation"
  count :: nat
  age :: gotime
  maxSize :: int
  maxAge :: Duration
  currentlyExecutingRequestID :: string
  coldstartDurationMs :: gofloat

section \<open>The environment: libraries, clock and entropy\<close>

text \<open>
  The code calls gjson, sjson, fastjson and two decompressors.  None of them is part of
  the repository, so each is an argument of the model:
  \<^item> \<open>gjson_Str d p\<close> is \<open>gjson.GetBytes(d, p).Str\<close>, \<open>gjson_String\<close> its \<open>.String()\<close>,
    \<open>gjson_Int\<close> its \<open>.Int()\<close>, \<open>gjson_Float\<close> its \<open>.Float()\<close>, a \<open>float64\<close>;
  \<^item> \<open>sjson_SetInt\<close>, \<open>sjson_SetFloat\<close>, \<open>sjson_SetStr\<close> are \<open>sjson.SetBytes\<close> at an
    \<open>int64\<close>, a \<open>float32\<close> and a string (\<open>None\<close> when it returns an error);
  \<^item> \<open>Span_Marshal\<close> is what \<open>MarshalFastJSON\<close> writes (\<open>None\<close> when it fails);
  \<^item> \<open>zlib_decode\<close> and \<open>gzip_decode\<close> decompress a payload;
  \<^item> \<open>int64_unrepresentable x\<close> is what the platform gives for \<open>int64(x)\<close> when
    \<open>int64\<close> cannot hold \<open>x\<close>.
\<close>

record extlib =
  gjson_Str :: "bytes \<Rightarrow> string \<Rightarrow> string"
  gjson_String :: "bytes \<Rightarrow> string \<Rightarrow> string"
  gjson_Int :: "bytes \<Rightarrow> string \<Rightarrow> int64"
  gjson_Float :: "bytes \<Rightarrow> string \<Rightarrow> gofloat"
  sjson_SetInt :: "bytes \<Rightarrow> string \<Rightarrow> int64 \<Rightarrow> bytes option"
  sjson_SetFloat :: "bytes \<Rightarrow> string \<Rightarrow> gofloat \<Rightarrow> bytes option"
  sjson_SetStr :: "bytes \<Rightarrow> string \<Rightarrow> string \<Rightarrow> bytes option"
  Span_Marshal :: "Span \<Rightarrow> bytes option"
  zlib_decode :: "bytes \<Rightarrow> bytes option"
  gzip_decode :: "bytes \<Rightarrow> bytes option"
  int64_unrepresentable :: "gofloat \<Rightarrow> int64"

text \<open>
  What one call of an operation sees of the world: the reading of \<open>time.Now()\<close>, and the
  outcome of the \<open>k\<close>-th \<open>cryptorand.Read\<close> of the call (\<open>None\<close> when it fails).
\<close>

record env =
  now :: gotime
  cryptorand_Read :: "nat \<Rightarrow> 64 word option"

section \<open>Helpers of the accumulator\<close>

text \<open>
  \<open>bytes.Cut(s, newLineSep)\<close>: the text before the first newline and the text after
  it; the whole of \<open>s\<close> and nothing when there is no newline.  The code discards the
  third result.
\<close>

definition bytes_Cut :: "bytes \<Rightarrow> bytes \<times> bytes" where
  "bytes_Cut s =
     (if newLineSep \<in> set s
      then (takeWhile (\<lambda>c. c \<noteq> newLineSep) s, tl (dropWhile (\<lambda>c. c \<noteq> newLineSep) s))
      else (s, []))"

text \<open>The first loop of \<open>isTransactionEvent\<close>: the bytes after the first quote.\<close>

fun key_after_quote :: "bytes \<Rightarrow> bytes" where
  "key_after_quote [] = []"
| "key_after_quote (r # body) =
     (if r = CHR 0x22 \<or> r = CHR 0x27 then body else key_after_quote body)"

text \<open>The second loop: compare \<open>transactionKey[i]\<close> with \<open>key[i]\<close> from \<open>i\<close> on.\<close>

function compare_from :: "nat \<Rightarrow> bytes \<Rightarrow> bool" where
  "compare_from i key =
     (if i < length transactionKey
      then (if transactionKey ! i \<noteq> key ! i then False else compare_from (i + 1) key)
      else True)"
  by pat_completeness auto
termination
  by (relation "measure (\<lambda>(i, key). length transactionKey - i)") auto

declare compare_from.simps [simp del]

definition isTransactionEvent :: "bytes \<Rightarrow> bool" where
  "isTransactionEvent body =
     (let key = key_after_quote body
      in if length key < length transactionKey then False else compare_from 0 key)"

text \<open>
  Modelled from the spec: \<open>NeedProxyTransaction\<close>, which is not among the sources.  The
  invocation expects a proxy when its transaction id is set and no transaction was
  observed.
\<close>

definition NeedProxyTransaction :: "Invocation \<Rightarrow> bool" where
  "NeedProxyTransaction inc = (TransactionID inc \<noteq> [] \<and> \<not> TransactionObserved inc)"

text \<open>
  Modelled from the spec: the status mapping of the proxy transaction's outcome.
\<close>

definition status_outcome :: "string \<Rightarrow> string" where
  "status_outcome status = (if status = ''success'' then ''success'' else ''failure'')"

text \<open>
  Modelled from the spec: \<open>CreateProxyTxn\<close>, which is not among the sources.  When no
  transaction was observed and the agent payload is not empty, the payload is taken and
  \<open>transaction.result\<close>, \<open>transaction.duration\<close> (the time since the invocation's
  timestamp, in milliseconds) and \<open>transaction.outcome\<close> are overwritten; otherwise
  there is nothing to append.
\<close>

definition CreateProxyTxn :: "extlib \<Rightarrow> Invocation \<Rightarrow> string \<Rightarrow> gotime \<Rightarrow> error + bytes" where
  "CreateProxyTxn L inc status time =
     (if \<not> TransactionObserved inc \<and> AgentPayload inc \<noteq> []
      then
        (case sjson_SetStr L (AgentPayload inc) ''transaction.result'' status of
           None \<Rightarrow> Inl ErrLibrary
         | Some t1 \<Rightarrow>
             (case sjson_SetInt L t1 ''transaction.duration''
                     (Duration_Milliseconds (time_Sub time (Timestamp inc))) of
                None \<Rightarrow> Inl ErrLibrary
              | Some t2 \<Rightarrow>
                  (case sjson_SetStr L t2 ''transaction.outcome'' (status_outcome status) of
                     None \<Rightarrow> Inl ErrLibrary
                   | Some t3 \<Rightarrow> Inr t3)))
      else Inr [])"

text \<open>
  Modelled from the spec: \<open>GetUncompressedBytes\<close>, which is not among the sources.
  Accepted encodings are \<open>deflate\<close>, \<open>gzip\<close> and the empty or identity encoding; any
  other value is an invalid encoding.
\<close>

definition GetUncompressedBytes :: "extlib \<Rightarrow> bytes \<Rightarrow> string \<Rightarrow> error + bytes" where
  "GetUncompressedBytes L rawBytes encodingType =
     (if encodingType = ''deflate''
      then (case zlib_decode L rawBytes of None \<Rightarrow> Inl ErrLibrary | Some r \<Rightarrow> Inr r)
      else if encodingType = ''gzip''
      then (case gzip_decode L rawBytes of None \<Rightarrow> Inl ErrLibrary | Some r \<Rightarrow> Inr r)
      else if encodingType = [] \<or> encodingType = ''identity''
      then Inr rawBytes
      else Inl ErrInvalidEncoding)"

section \<open>Parsing an ID\<close>

text \<open>
  \<open>UnmarshalJSON\<close> of the APM model's \<open>SpanID\<close> (8 bytes) and \<open>TraceID\<close> (16 bytes) is
  \<open>hex.Decode(id[:], data[1:len(data)-1])\<close>.  \<open>hex.Decode\<close> takes the source two
  characters at a time; it returns at the first character that is no hexadecimal digit,
  and writes the byte of a good pair to \<open>dst[i]\<close>, which panics when \<open>i\<close> is beyond the
  array.  A source of odd length ends with an error after its pairs.  The array of \<open>n\<close>
  bytes is a word of \<open>8 * n\<close> bits, the first byte the most significant; it starts as zero.
  \<open>None\<close> is the panic; an error leaves what was written, and the code ignores it.
\<close>

definition fromHexChar :: "char \<Rightarrow> nat option" where
  "fromHexChar c =
     (let n = (of_char c :: nat)
      in if 48 \<le> n \<and> n \<le> 57 then Some (n - 48)
         else if 97 \<le> n \<and> n \<le> 102 then Some (n - 87)
         else if 65 \<le> n \<and> n \<le> 70 then Some (n - 55)
         else None)"

fun hex_Decode :: "nat \<Rightarrow> nat \<Rightarrow> 'a::len word \<Rightarrow> bytes \<Rightarrow> 'a word option" where
  "hex_Decode n i dst (p # q # src) =
     (case fromHexChar p of
        None \<Rightarrow> Some dst
      | Some a \<Rightarrow>
          (case fromHexChar q of
             None \<Rightarrow> Some dst
           | Some b \<Rightarrow>
               if i < n
               then hex_Decode n (i + 1)
                      (or dst (push_bit (8 * (n - 1 - i)) (word_of_nat (16 * a + b)))) src
               else None))"
| "hex_Decode n i dst [p] = Some dst"
| "hex_Decode n i dst [] = Some dst"

definition UnmarshalJSON :: "nat \<Rightarrow> bytes \<Rightarrow> 'a::len word option" where
  "UnmarshalJSON n data =
     (if length data < 2 then None else hex_Decode n 0 0 (butlast (tl data)))"

definition SpanID_UnmarshalJSON :: "bytes \<Rightarrow> 64 word option" where
  "SpanID_UnmarshalJSON data = UnmarshalJSON 8 data"

definition TraceID_UnmarshalJSON :: "bytes \<Rightarrow> 128 word option" where
  "TraceID_UnmarshalJSON data = UnmarshalJSON 16 data"

section \<open>Lambda spans\<close>

definition Init :: string where
  "Init = ''init''"

definition Handle :: string where
  "Handle = ''handle''"

text \<open>
  \<open>NewLambdaSpan\<close>; its first argument is the outcome of \<open>cryptorand.Read(spanID[:])\<close>.
\<close>

definition NewLambdaSpan ::
  "64 word option \<Rightarrow> string \<Rightarrow> 64 word \<Rightarrow> 128 word \<Rightarrow> int64 \<Rightarrow> gofloat \<Rightarrow> error + Span" where
  "NewLambdaSpan rnd spanType parentTxID traceID timestamp duration =
     (case rnd of
        None \<Rightarrow> Inl ErrSpanID
      | Some spanID \<Rightarrow>
          (let baseName = ''AWS Lambda '';
               subType = (if spanType = Handle then Handle else Init);
               name = (if spanType = Handle then baseName @ ''Handle''
                       else baseName @ ''Initialize'')
           in Inr \<lparr>SpanName = name,
                   SpanTimestamp = time_UnixMicro timestamp,
                   SpanDuration = duration,
                   SpanType = ''awslambda'',
                   SpanSubtype = subType,
                   SpanID = spanID,
                   SpanTransactionID = parentTxID,
                   SpanTraceID = traceID,
                   SpanParentID = parentTxID,
                   SpanSampleRate = Finite 1\<rparr>))"

definition GetBytes :: "extlib \<Rightarrow> Span \<Rightarrow> error + bytes" where
  \<open>GetBytes L s =
     (case Span_Marshal L s of
        None \<Rightarrow> Inl ErrLibrary
      | Some m \<Rightarrow> Inr (''{"span":'' @ m @ ''}''))\<close>

section \<open>Appending to the batch\<close>

definition adjustTimestamp ::
  "extlib \<Rightarrow> bytes \<Rightarrow> gofloat \<Rightarrow> error + (bytes \<times> int64 \<times> int64 \<times> gofloat)" where
  "adjustTimestamp L txData initDurationMs =
     (let oldTimestamp = gjson_Int L txData ''transaction.timestamp'';
          newTimestamp = oldTimestamp -
            int64_of_float (int64_unrepresentable L) (f32_mul initDurationMs (Finite 1000));
          oldDuration = float32_of (gjson_Float L txData ''transaction.duration'');
          newDuration = f32_add oldDuration initDurationMs
      in case sjson_SetInt L txData ''transaction.timestamp'' newTimestamp of
           None \<Rightarrow> Inl ErrLibrary
         | Some txn1 \<Rightarrow>
             (case sjson_SetFloat L txn1 ''transaction.duration'' newDuration of
                None \<Rightarrow> Inl ErrLibrary
              | Some txn2 \<Rightarrow>
                  (case sjson_SetFloat L txn2
                          ''transaction.context.tags.aws_lambda_init_duration'' initDurationMs of
                     None \<Rightarrow> Inl ErrLibrary
                   | Some txn3 \<Rightarrow> Inr (txn3, newTimestamp, oldTimestamp, oldDuration))))"

text \<open>\<open>fmt.Sprintf(`"%s"`, s)\<close>.\<close>

definition quoted :: "string \<Rightarrow> bytes" where
  "quoted s = [CHR 0x22] @ s @ [CHR 0x22]"

text \<open>
  \<open>addData\<close> and \<open>modelInitPhase\<close> call each other, as in the source: \<open>addData\<close> enters
  \<open>modelInitPhase\<close> for a transaction while a cold start is pending, and
  \<open>modelInitPhase\<close> appends its two spans through \<open>addData\<close>, ignoring what it returns.
  Both return the batch as they leave it, also with an error.  The two calls of
  \<open>UnmarshalJSON\<close> may panic, after the cold-start duration was reset.
\<close>

function addData :: "extlib \<Rightarrow> env \<Rightarrow> Batch \<Rightarrow> bytes \<Rightarrow> bool \<Rightarrow> error option \<times> Batch"
  and modelInitPhase :: "extlib \<Rightarrow> env \<Rightarrow> Batch \<Rightarrow> bytes \<Rightarrow> (error + bytes) \<times> Batch"
where
  "addData L E b data isTx =
     (if data = [] then (None, b)
      else if metadataBytes b = 0 then (Some ErrMetadataUnavailable, b)
      else
        (case (if isTx \<and> f_ge_zero (coldstartDurationMs b)
               then modelInitPhase L E b data
               else (Inr data, b)) of
           (Inl err, b1) \<Rightarrow> (Some err, b1)
         | (Inr data1, b1) \<Rightarrow>
             (None, b1\<lparr>buf := buf b1 @ [newLineSep] @ data1,
                       age := (if count b1 = 0 then now E else age b1),
                       count := count b1 + 1\<rparr>)))"
| "modelInitPhase L E b txData =
     (let initDurationMs = coldstartDurationMs b
      in case adjustTimestamp L txData initDurationMs of
           Inl err \<Rightarrow> (Inl err, b)
         | Inr (tx, startTime, handleStart, handleDuration) \<Rightarrow>
             (let b1 = b\<lparr>coldstartDurationMs := Finite (- 1)\<rparr>
              in case SpanID_UnmarshalJSON
                        (quoted (gjson_String L txData ''transaction.id'')) of
                   None \<Rightarrow> (Inl Panic, b1)
                 | Some txID \<Rightarrow>
              (case TraceID_UnmarshalJSON
                        (quoted (gjson_String L txData ''transaction.trace_id'')) of
                   None \<Rightarrow> (Inl Panic, b1)
                 | Some traceId \<Rightarrow>
              (case NewLambdaSpan (cryptorand_Read E 0) Init txID traceId startTime
                        initDurationMs of
                   Inl err \<Rightarrow> (Inl err, b1)
                 | Inr initSpan \<Rightarrow>
                     (case GetBytes L initSpan of
                        Inl err \<Rightarrow> (Inl err, b1)
                      | Inr initSpanData \<Rightarrow>
                          (let b2 = snd (addData L E b1 initSpanData False)
                           in case NewLambdaSpan (cryptorand_Read E 1) Handle txID traceId
                                     handleStart handleDuration of
                                Inl err \<Rightarrow> (Inl err, b2)
                              | Inr handleSpan \<Rightarrow>
                                  (case GetBytes L handleSpan of
                                     Inl err \<Rightarrow> (Inl err, b2)
                                   | Inr handleSpanData \<Rightarrow>
                                       (let b3 = snd (addData L E b2 handleSpanData False)
                                        in (Inr tx, b3)))))))))"
  by pat_completeness auto
termination
  by (relation "measure (\<lambda>x. case x of
                    Inl (L, E, b, data, isTx) \<Rightarrow> (if isTx then 2 else 0)
                  | Inr (L, E, b, txData) \<Rightarrow> 1)") auto

declare addData.simps [simp del] modelInitPhase.simps [simp del]

section \<open>The float64 arithmetic of the ship threshold\<close>

text \<open>
  \<open>ShouldShip\<close> computes \<open>int(float64(b.maxSize)*maxSizeThreshold)\<close>.  A finite
  \<open>float64\<close> is a pair \<open>(m, e)\<close> of an integer significand and an exponent, of value
  \<open>m * 2 ^ e\<close>.  Every operation rounds its exact result to 53 significant bits, to the
  nearest value and to the even significand on a tie, as IEEE 754 arithmetic does.  The
  exponent range is not bounded: the values that occur here (a 64-bit integer, and its
  product with 0.9) are far from overflow and underflow.
\<close>

type_synonym float64 = "int \<times> int"

text \<open>The integer nearest to \<open>m / 2 ^ s\<close> for \<open>m \<ge> 0\<close>, the even one on a tie.\<close>

definition round_shift :: "int \<Rightarrow> nat \<Rightarrow> int" where
  "round_shift m s =
     (let q = m div 2 ^ s; r = 2 * (m mod 2 ^ s)
      in if r < 2 ^ s then q
         else if r > 2 ^ s then q + 1
         else if even q then q else q + 1)"

definition f64_round :: "float64 \<Rightarrow> float64" where
  "f64_round x =
     (case x of (m, e) \<Rightarrow>
        (let s = bitlen \<bar>m\<bar> - 53
         in if s \<le> 0 then (m, e)
            else (sgn m * round_shift \<bar>m\<bar> (nat s), e + s)))"

definition float64_of_int :: "int \<Rightarrow> float64" where
  "float64_of_int n = f64_round (n, 0)"

definition f64_mul :: "float64 \<Rightarrow> float64 \<Rightarrow> float64" where
  "f64_mul x y = (case x of (m1, e1) \<Rightarrow> case y of (m2, e2) \<Rightarrow> f64_round (m1 * m2, e1 + e2))"

text \<open>
  \<open>int(x)\<close> of a float discards the fraction, towards zero.
\<close>

definition int_of_float64 :: "float64 \<Rightarrow> int" where
  "int_of_float64 x =
     (case x of (m, e) \<Rightarrow>
        if 0 \<le> e then m * 2 ^ nat e else sgn m * (\<bar>m\<bar> div 2 ^ nat (- e)))"

text \<open>
  \<open>maxSizeThreshold = 0.9\<close>: the \<open>float64\<close> nearest to nine tenths, which is
  \<open>0x3FECCCCCCCCCCCCD\<close>, that is \<open>8106479329266893 / 2 ^ 53\<close>.
\<close>

definition maxSizeThreshold :: float64 where
  "maxSizeThreshold = (8106479329266893, - 53)"

section \<open>The operations of the batch\<close>

definition NewBatch :: "int \<Rightarrow> Duration \<Rightarrow> Batch" where
  "NewBatch maxSize0 maxAge0 =
     \<lparr>metadataBytes = 0, buf = [], invocations = Map.empty, count = 0, age = zeroTime,
      maxSize = maxSize0, maxAge = maxAge0, currentlyExecutingRequestID = [],
      coldstartDurationMs = Finite (- 1)\<rparr>"

definition Size :: "Batch \<Rightarrow> nat" where
  "Size b = card (dom (invocations b))"

definition RegisterInvocation ::
  "Batch \<Rightarrow> string \<Rightarrow> string \<Rightarrow> int64 \<Rightarrow> gotime \<Rightarrow> Batch" where
  "RegisterInvocation b reqID functionARN deadlineMs timestamp =
     (let i = (case invocations b reqID of None \<Rightarrow> empty_Invocation | Some i0 \<Rightarrow> i0)
      in b\<lparr>invocations := (invocations b)(reqID \<mapsto>
               i\<lparr>RequestID := reqID, FunctionARN := functionARN,
                 DeadlineMs := deadlineMs, Timestamp := timestamp\<rparr>),
           currentlyExecutingRequestID := reqID\<rparr>)"

definition OnAgentInit :: "Batch \<Rightarrow> string \<Rightarrow> string \<Rightarrow> bytes \<Rightarrow> error option \<times> Batch" where
  "OnAgentInit b reqID txnID payload =
     (if \<not> isTransactionEvent payload then (Some ErrInvalidPayload, b)
      else
        (let i = (case invocations b reqID of None \<Rightarrow> empty_Invocation | Some i0 \<Rightarrow> i0)
         in (None,
             b\<lparr>invocations := (invocations b)(reqID \<mapsto>
                  i\<lparr>TransactionID := txnID, AgentPayload := payload\<rparr>),
               currentlyExecutingRequestID := reqID\<rparr>)))"

text \<open>
  The loop of \<open>AddAgentData\<close>.  \<open>inc\<close> is the invocation the pointer of the source
  refers to, registered under \<open>rid\<close>; a change of it is written to the registry at once.
\<close>

function drain ::
  "extlib \<Rightarrow> env \<Rightarrow> Batch \<Rightarrow> string \<Rightarrow> Invocation \<Rightarrow> bytes \<Rightarrow> error option \<times> Batch" where
  "drain L E b rid inc rest =
     (case bytes_Cut rest of (data, after) \<Rightarrow>
        (let isTx = isTransactionEvent data;
             observed = (NeedProxyTransaction inc \<and> isTx \<and>
                         gjson_Str L data ''transaction.id'' \<noteq> [] \<and>
                         TransactionID inc = gjson_Str L data ''transaction.id'');
             inc1 = (if observed then inc\<lparr>TransactionObserved := True\<rparr> else inc);
             b1 = (if observed then b\<lparr>invocations := (invocations b)(rid \<mapsto> inc1)\<rparr> else b)
         in case addData L E b1 data isTx of
              (Some err, b2) \<Rightarrow> (Some err, b2)
            | (None, b2) \<Rightarrow> if after = [] then (None, b2) else drain L E b2 rid inc1 after))"
  by pat_completeness auto
termination
proof (relation "measure (\<lambda>(L, E, b, rid, inc, rest). length rest)")
  show "wf (measure (\<lambda>(L, E, b, rid, inc, rest). length rest))"
    by simp
next
  fix L :: extlib and E :: env and b :: Batch and rid :: string and inc :: Invocation
    and rest :: bytes and x :: "bytes \<times> bytes" and data after :: bytes
  assume cut: "(data, after) = bytes_Cut rest" and ne: "after \<noteq> []"
  have "length after < length rest"
  proof (cases "newLineSep \<in> set rest")
    case True
    then have "0 < length rest"
      by (cases rest) auto
    moreover have "length (dropWhile (\<lambda>c. c \<noteq> newLineSep) rest) \<le> length rest"
      by (rule length_dropWhile_le)
    ultimately have "length (tl (dropWhile (\<lambda>c. c \<noteq> newLineSep) rest)) < length rest"
      unfolding length_tl by linarith
    with cut True show ?thesis
      by (simp add: bytes_Cut_def)
  next
    case False
    with cut ne show ?thesis
      by (simp add: bytes_Cut_def)
  qed
  then show "\<And>xa xb xc xd xe x2 x2a.
       ((L, E, x2a, rid, xc, after), L, E, b, rid, inc, rest)
       \<in> measure (\<lambda>(L, E, b, rid, inc, rest). length rest)"
    by simp
qed

declare drain.simps [simp del]

definition AddAgentData :: "extlib \<Rightarrow> env \<Rightarrow> Batch \<Rightarrow> APMData \<Rightarrow> error option \<times> Batch" where
  "AddAgentData L E b apmData =
     (if length (Data apmData) = 0 then (None, b)
      else
        (case GetUncompressedBytes L (Data apmData) (ContentEncoding apmData) of
           Inl err \<Rightarrow> (Some err, b)
         | Inr raw \<Rightarrow>
             if int (count b) \<ge> maxSize b then (Some ErrBatchFull, b)
             else if currentlyExecutingRequestID b = [] then (Some ErrLifecycle, b)
             else
               (case invocations b (currentlyExecutingRequestID b) of
                  None \<Rightarrow> (Some (ErrCurrentInvocationMissing (currentlyExecutingRequestID b)), b)
                | Some inc \<Rightarrow>
                    (case bytes_Cut raw of (data, after) \<Rightarrow>
                       (let b1 = (if metadataBytes b = 0
                                  then b\<lparr>metadataBytes := length data, buf := buf b @ data\<rparr>
                                  else b)
                        in drain L E b1 (currentlyExecutingRequestID b) inc after)))))"

definition finalizeInvocation ::
  "extlib \<Rightarrow> env \<Rightarrow> Batch \<Rightarrow> string \<Rightarrow> string \<Rightarrow> gotime \<Rightarrow> error option \<times> Batch" where
  "finalizeInvocation L E b reqID status time =
     (case invocations b reqID of
        None \<Rightarrow> (Some (ErrInvocationMissing reqID), b)
      | Some inc \<Rightarrow>
          (case CreateProxyTxn L inc status time of
             Inl err \<Rightarrow> (Some err, b)
           | Inr proxyTxn \<Rightarrow>
               (case addData L E b proxyTxn True of
                  (Some err, b1) \<Rightarrow> (Some err, b1)
                | (None, b1) \<Rightarrow>
                    (None, b1\<lparr>invocations := (invocations b1)(reqID \<mapsto>
                                 inc\<lparr>Finalized := True\<rparr>)\<rparr>))))"

definition OnLambdaLogRuntimeDone ::
  "extlib \<Rightarrow> env \<Rightarrow> Batch \<Rightarrow> string \<Rightarrow> string \<Rightarrow> gotime \<Rightarrow> error option \<times> Batch" where
  "OnLambdaLogRuntimeDone L E b reqID status time = finalizeInvocation L E b reqID status time"

definition OnPlatformReport ::
  "Batch \<Rightarrow> string \<Rightarrow> (error + string \<times> int64 \<times> gotime) \<times> Batch" where
  "OnPlatformReport b reqID =
     (case invocations b reqID of
        None \<Rightarrow> (Inl (ErrInvocationMissing reqID), b)
      | Some inc \<Rightarrow>
          (Inr (FunctionARN inc, DeadlineMs inc, Timestamp inc),
           b\<lparr>invocations := (invocations b)(reqID := None)\<rparr>))"

definition OnPlatformInitReport :: "Batch \<Rightarrow> string \<Rightarrow> gofloat \<Rightarrow> Batch" where
  "OnPlatformInitReport b reqID initDurationMs = b\<lparr>coldstartDurationMs := initDurationMs\<rparr>"

text \<open>
  \<open>OnShutdown\<close> ranges over the map, in an order Go does not fix, and deletes while it
  ranges.  The order is the argument \<open>order\<close>, a list of the keys; an entry that was
  deleted before the loop reached it is not produced.  The loop finalizes and deletes
  under the \<open>RequestID\<close> field of the record, not under the key.
\<close>

fun shutdown_loop ::
  "extlib \<Rightarrow> env \<Rightarrow> string \<Rightarrow> string list \<Rightarrow> Batch \<Rightarrow> error option \<times> Batch" where
  "shutdown_loop L E status [] b = (None, b)"
| "shutdown_loop L E status (k # ks) b =
     (case invocations b k of
        None \<Rightarrow> shutdown_loop L E status ks b
      | Some inc \<Rightarrow>
          (let time = time_Unix0 (DeadlineMs inc * Millisecond)
           in case finalizeInvocation L E b (RequestID inc) status time of
                (Some err, b1) \<Rightarrow> (Some err, b1)
              | (None, b1) \<Rightarrow>
                  shutdown_loop L E status ks
                    (b1\<lparr>invocations := (invocations b1)(RequestID inc := None)\<rparr>)))"

definition OnShutdown ::
  "extlib \<Rightarrow> env \<Rightarrow> string list \<Rightarrow> Batch \<Rightarrow> string \<Rightarrow> error option \<times> Batch" where
  "OnShutdown L E order b status = shutdown_loop L E status order b"

definition AddLambdaData :: "extlib \<Rightarrow> env \<Rightarrow> Batch \<Rightarrow> bytes \<Rightarrow> error option \<times> Batch" where
  "AddLambdaData L E b d =
     (if int (count b) \<ge> maxSize b then (Some ErrBatchFull, b)
      else addData L E b d False)"

definition Count :: "Batch \<Rightarrow> nat" where
  "Count b = count b"

definition ShouldShip :: "gotime \<Rightarrow> Batch \<Rightarrow> bool" where
  "ShouldShip tnow b =
     (int (count b) \<ge> int_of_float64 (f64_mul (float64_of_int (maxSize b)) maxSizeThreshold)
      \<or> (\<not> time_IsZero (age b) \<and> time_Since tnow (age b) > maxAge b))"

text \<open>
  \<open>Reset\<close>.  \<open>buf.Truncate(n)\<close> empties the buffer for \<open>n = 0\<close>, panics when \<open>n\<close>
  exceeds the length of the buffer (\<open>None\<close>), and keeps the first \<open>n\<close> bytes otherwise.
\<close>

definition Buffer_Truncate :: "bytes \<Rightarrow> nat \<Rightarrow> bytes option" where
  "Buffer_Truncate bs n =
     (if n = 0 then Some []
      else if n > length bs then None
      else Some (take n bs))"

definition Reset :: "Batch \<Rightarrow> Batch option" where
  "Reset b =
     (case Buffer_Truncate (buf b) (metadataBytes b) of
        None \<Rightarrow> None
      | Some bs \<Rightarrow> Some (b\<lparr>count := 0, age := zeroTime, buf := bs\<rparr>))"

definition ToAPMData :: "Batch \<Rightarrow> APMData" where
  "ToAPMData b = \<lparr>Data = buf b, ContentEncoding = []\<rparr>"

section \<open>What the claims describe\<close>

text \<open>
  The two spans and the rewritten transaction of the cold-start adjustment, as the spec
  words them, for a transaction \<open>txData\<close> appended to the batch \<open>b\<close>: the init span
  starts \<open>init_duration_ms * 1000\<close> microseconds before the transaction's old
  timestamp and lasts \<open>init_duration_ms\<close>; the handle span has the old timestamp and
  the old duration; the transaction gets the new timestamp, the sum of the durations and
  the tag.  The product and the sum are those of \<open>float32\<close>, the product cut to an
  \<open>int64\<close> and taken off the timestamp in 64 bits; the old duration is the
  \<open>float32\<close> of the number in the document.  \<open>txID\<close> and \<open>traceId\<close> are the parsed
  \<open>transaction.id\<close> and \<open>transaction.trace_id\<close>.
\<close>

definition spec_new_timestamp :: "extlib \<Rightarrow> int64 \<Rightarrow> gofloat \<Rightarrow> int64" where
  "spec_new_timestamp L old_timestamp init_ms =
     old_timestamp - int64_of_float (int64_unrepresentable L) (f32_mul init_ms (Finite 1000))"

definition spec_new_duration :: "gofloat \<Rightarrow> gofloat \<Rightarrow> gofloat" where
  "spec_new_duration old_duration init_ms = f32_add (float32_of old_duration) init_ms"

text \<open>
  The same two values in exact arithmetic, on the rationals: the claim read to the letter.
\<close>

definition exact_new_timestamp :: "int \<Rightarrow> rat \<Rightarrow> rat" where
  "exact_new_timestamp old_timestamp init_ms = of_int old_timestamp - init_ms * 1000"

definition exact_new_duration :: "rat \<Rightarrow> rat \<Rightarrow> rat" where
  "exact_new_duration old_duration init_ms = old_duration + init_ms"

definition spec_init_span ::
  "extlib \<Rightarrow> Batch \<Rightarrow> bytes \<Rightarrow> 64 word \<Rightarrow> 64 word \<Rightarrow> 128 word \<Rightarrow> Span" where
  "spec_init_span L b txData spanID txID traceId =
     \<lparr>SpanName = ''AWS Lambda Initialize'',
      SpanTimestamp = time_UnixMicro
        (spec_new_timestamp L (gjson_Int L txData ''transaction.timestamp'')
           (coldstartDurationMs b)),
      SpanDuration = coldstartDurationMs b,
      SpanType = ''awslambda'',
      SpanSubtype = ''init'',
      SpanID = spanID,
      SpanTransactionID = txID,
      SpanTraceID = traceId,
      SpanParentID = txID,
      SpanSampleRate = Finite 1\<rparr>"

definition spec_handle_span ::
  "extlib \<Rightarrow> bytes \<Rightarrow> 64 word \<Rightarrow> 64 word \<Rightarrow> 128 word \<Rightarrow> Span" where
  "spec_handle_span L txData spanID txID traceId =
     \<lparr>SpanName = ''AWS Lambda Handle'',
      SpanTimestamp = time_UnixMicro (gjson_Int L txData ''transaction.timestamp''),
      SpanDuration = float32_of (gjson_Float L txData ''transaction.duration''),
      SpanType = ''awslambda'',
      SpanSubtype = ''handle'',
      SpanID = spanID,
      SpanTransactionID = txID,
      SpanTraceID = traceId,
      SpanParentID = txID,
      SpanSampleRate = Finite 1\<rparr>"

definition spec_adjusted_transaction :: "extlib \<Rightarrow> Batch \<Rightarrow> bytes \<Rightarrow> bytes option" where
  "spec_adjusted_transaction L b txData =
     Option.bind
       (sjson_SetInt L txData ''transaction.timestamp''
          (spec_new_timestamp L (gjson_Int L txData ''transaction.timestamp'')
             (coldstartDurationMs b)))
       (\<lambda>t1. Option.bind
          (sjson_SetFloat L t1 ''transaction.duration''
             (spec_new_duration (gjson_Float L txData ''transaction.duration'')
                (coldstartDurationMs b)))
          (\<lambda>t2. sjson_SetFloat L t2 ''transaction.context.tags.aws_lambda_init_duration''
                    (coldstartDurationMs b)))"

definition span_line :: "bytes \<Rightarrow> bytes" where
  \<open>span_line m = ''{"span":'' @ m @ ''}''\<close>


text \<open>
  The proxy transaction as the spec words it: the agent payload with the result, the
  duration in milliseconds between the invocation's timestamp and the end time, and the
  outcome overwritten, in this order.
\<close>

definition spec_proxy_transaction ::
  "extlib \<Rightarrow> Invocation \<Rightarrow> string \<Rightarrow> gotime \<Rightarrow> bytes option" where
  "spec_proxy_transaction L inc status time =
     Option.bind (sjson_SetStr L (AgentPayload inc) ''transaction.result'' status)
       (\<lambda>t1. Option.bind
          (sjson_SetInt L t1 ''transaction.duration''
             (Duration_Milliseconds (time_Sub time (Timestamp inc))))
          (\<lambda>t2. sjson_SetStr L t2 ''transaction.outcome'' (status_outcome status)))"

text \<open>
  Sequences of operations.  An operation carries its arguments, and what it sees of the
  world where it looks at it; \<open>Op_OnShutdown\<close> carries the order in which the map is
  ranged over.  \<open>run\<close> executes a sequence and keeps the state, whatever each operation
  returns.  A panic of \<open>Reset\<close> ends a Go process; here the state stays as it is.
\<close>

datatype batch_op =
    Op_RegisterInvocation string string int64 gotime
  | Op_OnAgentInit string string bytes
  | Op_AddAgentData env APMData
  | Op_OnLambdaLogRuntimeDone env string string gotime
  | Op_OnPlatformReport string
  | Op_OnPlatformInitReport string gofloat
  | Op_OnShutdown env "string list" string
  | Op_AddLambdaData env bytes
  | Op_Reset

fun apply_op :: "extlib \<Rightarrow> batch_op \<Rightarrow> Batch \<Rightarrow> Batch" where
  "apply_op L (Op_RegisterInvocation reqID functionARN deadlineMs timestamp) b =
     RegisterInvocation b reqID functionARN deadlineMs timestamp"
| "apply_op L (Op_OnAgentInit reqID txnID payload) b = snd (OnAgentInit b reqID txnID payload)"
| "apply_op L (Op_AddAgentData E apmData) b = snd (AddAgentData L E b apmData)"
| "apply_op L (Op_OnLambdaLogRuntimeDone E reqID status time) b =
     snd (OnLambdaLogRuntimeDone L E b reqID status time)"
| "apply_op L (Op_OnPlatformReport reqID) b = snd (OnPlatformReport b reqID)"
| "apply_op L (Op_OnPlatformInitReport reqID initDurationMs) b =
     OnPlatformInitReport b reqID initDurationMs"
| "apply_op L (Op_OnShutdown E order status) b = snd (OnShutdown L E order b status)"
| "apply_op L (Op_AddLambdaData E d) b = snd (AddLambdaData L E b d)"
| "apply_op L Op_Reset b = (case Reset b of None \<Rightarrow> b | Some b1 \<Rightarrow> b1)"

fun run :: "extlib \<Rightarrow> batch_op list \<Rightarrow> Batch \<Rightarrow> Batch" where
  "run L [] b = b"
| "run L (x # xs) b = run L xs (apply_op L x b)"

text \<open>What an append leaves alone: the registry, the limits, the metadata length; the buffer and the count only grow.\<close>

definition frame_ok :: "Batch \<Rightarrow> Batch \<Rightarrow> bool" where
  "frame_ok b b' =
     (metadataBytes b' = metadataBytes b \<and> invocations b' = invocations b \<and>
      maxSize b' = maxSize b \<and> maxAge b' = maxAge b \<and>
      currentlyExecutingRequestID b' = currentlyExecutingRequestID b \<and>
      count b \<le> count b' \<and> (\<exists>ext. buf b' = buf b @ ext))"

section \<open>Sample inputs\<close>

text \<open>
  The events of the spec's scenarios, with the answers the libraries give on them: a
  transaction with timestamp 5000 and duration 2.0 that meets a cold start of 100 ms, and
  an agent payload from which a proxy transaction of 10 ms with status \<open>failure\<close> is
  made.  On every other input the getters of \<open>sample_lib\<close> return zero values and its
  setters fail.
\<close>

definition sample_tx :: bytes where
  \<open>sample_tx = ''{"transaction":{"id":"t1","timestamp":5000,"duration":2.0}}''\<close>

definition sample_tx1 :: bytes where
  \<open>sample_tx1 = ''{"transaction":{"id":"t1","timestamp":-95000,"duration":2.0}}''\<close>

definition sample_tx2 :: bytes where
  \<open>sample_tx2 = ''{"transaction":{"id":"t1","timestamp":-95000,"duration":102}}''\<close>

definition sample_tx3 :: bytes where
  \<open>sample_tx3 = ''{"transaction":{"id":"t1","timestamp":-95000,"duration":102,"context":{"tags":{"aws_lambda_init_duration":100}}}}''\<close>

definition sample_payload :: bytes where
  \<open>sample_payload = ''{"transaction":{"id":"t1"}}''\<close>

definition sample_proxy1 :: bytes where
  \<open>sample_proxy1 = ''{"transaction":{"id":"t1","result":"failure"}}''\<close>

definition sample_proxy2 :: bytes where
  \<open>sample_proxy2 = ''{"transaction":{"id":"t1","result":"failure","duration":10}}''\<close>

definition sample_proxy3 :: bytes where
  \<open>sample_proxy3 = ''{"transaction":{"id":"t1","result":"failure","duration":10,"outcome":"failure"}}''\<close>

definition sample_lib :: extlib where
  \<open>sample_lib =
     \<lparr>gjson_Str = (\<lambda>d p. if p = ''transaction.id'' \<and> (d = sample_tx \<or> d = sample_payload)
                          then ''t1'' else []),
      gjson_String = (\<lambda>d p. if p = ''transaction.id'' \<and> (d = sample_tx \<or> d = sample_payload)
                          then ''t1'' else []),
      gjson_Int = (\<lambda>d p. if p = ''transaction.timestamp'' \<and> d = sample_tx then 5000 else 0),
      gjson_Float = (\<lambda>d p. if p = ''transaction.duration'' \<and> d = sample_tx
                          then Finite 2 else Finite 0),
      sjson_SetInt = (\<lambda>d p v.
         if d = sample_tx \<and> p = ''transaction.timestamp'' \<and> v = - 95000 then Some sample_tx1
         else if d = sample_proxy1 \<and> p = ''transaction.duration'' \<and> v = 10 then Some sample_proxy2
         else None),
      sjson_SetFloat = (\<lambda>d p v.
         if d = sample_tx1 \<and> p = ''transaction.duration'' \<and> v = Finite 102 then Some sample_tx2
         else if d = sample_tx2 \<and> p = ''transaction.context.tags.aws_lambda_init_duration'' \<and>
                 v = Finite 100 then Some sample_tx3
         else None),
      sjson_SetStr = (\<lambda>d p v.
         if d = sample_payload \<and> p = ''transaction.result'' \<and> v = ''failure''
         then Some sample_proxy1
         else if d = sample_proxy2 \<and> p = ''transaction.outcome'' \<and> v = ''failure''
         then Some sample_proxy3
         else None),
      Span_Marshal = (\<lambda>s. Some (''{"name":"'' @
                             (if SpanSubtype s = ''handle'' then ''AWS Lambda Handle''
                              else ''AWS Lambda Initialize'') @ ''","type":"awslambda"}'')),
      zlib_decode = (\<lambda>d. None),
      gzip_decode = (\<lambda>d. None),
      int64_unrepresentable = (\<lambda>x. - (2 ^ 63))\<rparr>\<close>

definition sample_env :: env where
  "sample_env = \<lparr>now = 1700000000000000000, cryptorand_Read = (\<lambda>k. Some (word_of_nat (k + 1)))\<rparr>"

definition sample_metadata :: bytes where
  \<open>sample_metadata = ''{"metadata":{}}''\<close>

definition sample_batch :: Batch where
  "sample_batch =
     \<lparr>metadataBytes = length sample_metadata, buf = sample_metadata,
      invocations = [''A'' \<mapsto> empty_Invocation\<lparr>RequestID := ''A'', DeadlineMs := 10000, Timestamp := 0\<rparr>],
      count = 0, age = zeroTime, maxSize = 10, maxAge = 2000000000,
      currentlyExecutingRequestID = ''A'', coldstartDurationMs = Finite (- 1)\<rparr>"

text \<open>
  A transaction of 8388608 ms that meets a cold start of 8388609 ms: the sum of the two
  and the thousandfold of the second are no \<open>float32\<close> values.  \<open>round_lib\<close> answers
  on this transaction, and its setters accept the values that \<open>float32\<close> arithmetic
  gives and no other.
\<close>

definition round_tx :: bytes where
  \<open>round_tx = ''{"transaction":{"id":"00f067aa0ba902b7","trace_id":"4bf92f3577b34da6a3ce929d0e0e4736","timestamp":5000,"duration":8388608}}''\<close>

definition round_tx1 :: bytes where
  \<open>round_tx1 = ''{"transaction":{"id":"00f067aa0ba902b7","trace_id":"4bf92f3577b34da6a3ce929d0e0e4736","timestamp":-8388604024,"duration":8388608}}''\<close>

definition round_tx2 :: bytes where
  \<open>round_tx2 = ''{"transaction":{"id":"00f067aa0ba902b7","trace_id":"4bf92f3577b34da6a3ce929d0e0e4736","timestamp":-8388604024,"duration":16777216}}''\<close>

definition round_tx3 :: bytes where
  \<open>round_tx3 = ''{"transaction":{"id":"00f067aa0ba902b7","trace_id":"4bf92f3577b34da6a3ce929d0e0e4736","timestamp":-8388604024,"duration":16777216,"context":{"tags":{"aws_lambda_init_duration":8388609}}}}''\<close>

definition round_lib :: extlib where
  "round_lib =
     sample_lib
       \<lparr>gjson_String := (\<lambda>d p.
          if d = round_tx \<and> p = ''transaction.id'' then ''00f067aa0ba902b7''
          else if d = round_tx \<and> p = ''transaction.trace_id''
          then ''4bf92f3577b34da6a3ce929d0e0e4736'' else []),
        gjson_Int := (\<lambda>d p. if d = round_tx \<and> p = ''transaction.timestamp'' then 5000 else 0),
        gjson_Float := (\<lambda>d p. if d = round_tx \<and> p = ''transaction.duration''
                              then Finite 8388608 else Finite 0),
        sjson_SetInt := (\<lambda>d p v.
          if d = round_tx \<and> p = ''transaction.timestamp'' \<and> v = - 8388604024
          then Some round_tx1 else None),
        sjson_SetFloat := (\<lambda>d p v.
          if d = round_tx1 \<and> p = ''transaction.duration'' \<and> v = Finite 16777216
          then Some round_tx2
          else if d = round_tx2 \<and> p = ''transaction.context.tags.aws_lambda_init_duration'' \<and>
                  v = Finite 8388609
          then Some round_tx3 else None)\<rparr>"

definition round_batch :: Batch where
  "round_batch = sample_batch\<lparr>coldstartDurationMs := Finite 8388609\<rparr>"

text \<open>A transaction whose id has eighteen hexadecimal digits.\<close>

definition long_id_tx :: bytes where
  \<open>long_id_tx = ''{"transaction":{"id":"00f067aa0ba902b7aa","timestamp":5000,"duration":2.0}}''\<close>

definition long_id_lib :: extlib where
  "long_id_lib =
     sample_lib
       \<lparr>gjson_String := (\<lambda>d p.
          if d = long_id_tx \<and> p = ''transaction.id'' then ''00f067aa0ba902b7aa'' else []),
        gjson_Int := (\<lambda>d p. if d = long_id_tx \<and> p = ''transaction.timestamp'' then 5000 else 0),
        gjson_Float := (\<lambda>d p. if d = long_id_tx \<and> p = ''transaction.duration''
                              then Finite 2 else Finite 0),
        sjson_SetInt := (\<lambda>d p v. Some sample_tx1),
        sjson_SetFloat := (\<lambda>d p v. Some sample_tx3)\<rparr>"

text \<open>
  Shutdown, as the spec words it.  A record is consistent when its \<open>RequestID\<close> field is
  the key it is registered under (every record that \<open>RegisterInvocation\<close> touched is).
  An invocation needs a proxy when no transaction was observed and there is an agent
  payload.  The end time of a shutdown is the deadline, converted from milliseconds.
  \<open>shutdown_proxies\<close> lists the proxy transactions of the invocations that need one,
  in the order of the range; \<open>needy_keys\<close> lists those invocations.
\<close>

definition keys_consistent :: "Batch \<Rightarrow> bool" where
  "keys_consistent b = (\<forall>k inc. invocations b k = Some inc \<longrightarrow> RequestID inc = k)"

definition needs_proxy :: "Invocation \<Rightarrow> bool" where
  "needs_proxy inc = (\<not> TransactionObserved inc \<and> AgentPayload inc \<noteq> [])"

definition shutdown_time :: "Invocation \<Rightarrow> gotime" where
  "shutdown_time inc = time_Unix0 (DeadlineMs inc * Millisecond)"

definition shutdown_proxies :: "extlib \<Rightarrow> string \<Rightarrow> Batch \<Rightarrow> string list \<Rightarrow> bytes list" where
  "shutdown_proxies L status b order =
     concat (map (\<lambda>k. case invocations b k of
                          None \<Rightarrow> []
                        | Some inc \<Rightarrow>
                            if needs_proxy inc
                            then (case spec_proxy_transaction L inc status (shutdown_time inc) of
                                    None \<Rightarrow> [] | Some tx \<Rightarrow> [tx])
                            else []) order)"

definition needy_keys :: "Batch \<Rightarrow> string list \<Rightarrow> string list" where
  "needy_keys b order =
     filter (\<lambda>k. case invocations b k of None \<Rightarrow> False | Some inc \<Rightarrow> needs_proxy inc) order"

definition setstr_nonempty :: "extlib \<Rightarrow> bool" where
  "setstr_nonempty L = (\<forall>d p v r. sjson_SetStr L d p v = Some r \<longrightarrow> r \<noteq> [])"


text \<open>More sample states: an invocation registered and announced by the agent, before
  and after the metadata line has arrived, and one announced by the agent only.\<close>

definition s3_batch :: Batch where
  "s3_batch =
     snd (OnAgentInit (RegisterInvocation (NewBatch 10 2000000000) ''A'' ''arn'' 10000 0)
            ''A'' ''t1'' sample_payload)"

definition s3_invocation :: Invocation where
  "s3_invocation =
     \<lparr>RequestID = ''A'', FunctionARN = ''arn'', DeadlineMs = 10000,
      Timestamp = 0, TransactionID = ''t1'', AgentPayload = sample_payload,
      TransactionObserved = False, Finalized = False\<rparr>"

definition ready_invocation :: Invocation where
  "ready_invocation =
     \<lparr>RequestID = ''A'', FunctionARN = ''arn'', DeadlineMs = 10,
      Timestamp = 0, TransactionID = ''t1'', AgentPayload = sample_payload,
      TransactionObserved = False, Finalized = False\<rparr>"

definition ready_batch :: Batch where
  "ready_batch =
     \<lparr>metadataBytes = length sample_metadata, buf = sample_metadata,
      invocations = [''A'' \<mapsto> ready_invocation],
      count = 0, age = zeroTime, maxSize = 10, maxAge = 2000000000,
      currentlyExecutingRequestID = ''A'', coldstartDurationMs = Finite (- 1)\<rparr>"

definition early_init_batch :: Batch where
  "early_init_batch = snd (OnAgentInit (NewBatch 10 2000000000) ''A'' ''t1'' sample_payload)"

text \<open>
  One iteration of the loop of \<open>AddAgentData\<close>, up to the test that ends it: what
  \<open>addData\<close> returned, the batch, the invocation, and the rest of the payload.
\<close>

definition drain_step ::
  "extlib \<Rightarrow> env \<Rightarrow> Batch \<Rightarrow> string \<Rightarrow> Invocation \<Rightarrow> bytes \<Rightarrow>
     error option \<times> Batch \<times> Invocation \<times> bytes" where
  "drain_step L E b rid inc rest =
     (case bytes_Cut rest of (data, after) \<Rightarrow>
        (let isTx = isTransactionEvent data;
             observed = (NeedProxyTransaction inc \<and> isTx \<and>
                         gjson_Str L data ''transaction.id'' \<noteq> [] \<and>
                         TransactionID inc = gjson_Str L data ''transaction.id'');
             inc1 = (if observed then inc\<lparr>TransactionObserved := True\<rparr> else inc);
             b1 = (if observed then b\<lparr>invocations := (invocations b)(rid \<mapsto> inc1)\<rparr> else b)
         in case addData L E b1 data isTx of (e, b2) \<Rightarrow> (e, b2, inc1, after)))"


text \<open>
  The invariant of the registry that the spec states, and the sequences in which every
  \<open>OnAgentInit\<close> carries a transaction id.  \<open>observed_ops\<close> registers an invocation, lets
  the agent announce transaction \<open>t1\<close> and report it; \<open>observed_cex_ops\<close> then lets the agent
  announce an empty transaction id for the same request.
\<close>

definition observed_implies_id :: "Batch \<Rightarrow> bool" where
  "observed_implies_id b =
     (\<forall>k inc. invocations b k = Some inc \<longrightarrow> TransactionObserved inc \<longrightarrow> TransactionID inc \<noteq> [])"

fun op_txn_id_set :: "batch_op \<Rightarrow> bool" where
  "op_txn_id_set (Op_OnAgentInit reqID txnID payload) = (txnID \<noteq> [])"
| "op_txn_id_set x = True"

definition observed_cex_ops :: "batch_op list" where
  "observed_cex_ops =
     [Op_RegisterInvocation ''A'' ''arn'' 10000 0,
      Op_OnAgentInit ''A'' ''t1'' sample_payload,
      Op_AddAgentData sample_env
        \<lparr>Data = sample_metadata @ [newLineSep] @ sample_payload, ContentEncoding = []\<rparr>,
      Op_OnAgentInit ''A'' [] sample_payload]"

definition observed_ops :: "batch_op list" where
  "observed_ops =
     [Op_RegisterInvocation ''A'' ''arn'' 10000 0,
      Op_OnAgentInit ''A'' ''t1'' sample_payload,
      Op_AddAgentData sample_env
        \<lparr>Data = sample_metadata @ [newLineSep] @ sample_payload, ContentEncoding = []\<rparr>]"

definition observed_batch :: Batch where
  "observed_batch =
     s3_batch\<lparr>metadataBytes := length sample_metadata,
              buf := sample_metadata @ [newLineSep] @ sample_payload,
              invocations := [''A'' \<mapsto> s3_invocation\<lparr>TransactionObserved := True\<rparr>],
              age := now sample_env, count := 1\<rparr>"

text \<open>The metadata line lies inside the buffer.\<close>

definition metadata_in_buffer :: "Batch \<Rightarrow> bool" where
  "metadata_in_buffer b = (metadataBytes b \<le> length (buf b))"

text \<open>
  The newline-delimited segments of a payload, the last, unterminated one included, and
  the events among them: the segments that are not empty.
\<close>

fun split_lines :: "bytes \<Rightarrow> bytes list" where
  "split_lines [] = [[]]"
| "split_lines (c # cs) =
     (if c = newLineSep then [] # split_lines cs
      else (case split_lines cs of [] \<Rightarrow> [[c]] | l # ls \<Rightarrow> (c # l) # ls))"

definition events_of :: "bytes \<Rightarrow> bytes list" where
  "events_of s = filter (\<lambda>l. l \<noteq> []) (split_lines s)"


text \<open>A batch that is full after one event, and a payload of a metadata line and three
  events.\<close>

definition small_batch :: Batch where
  "small_batch = ready_batch\<lparr>maxSize := 1\<rparr>"

definition abc_lines :: bytes where
  "abc_lines = ''{a}'' @ [newLineSep] @ ''{b}'' @ [newLineSep] @ ''{c}''"

definition three_events :: bytes where
  "three_events = sample_metadata @ [newLineSep] @ abc_lines"









text \<open>
  The ship threshold.  \<open>ship_threshold n\<close> names the expression
  \<open>int(float64(n)*maxSizeThreshold)\<close> of \<open>ShouldShip\<close>; \<open>spec_threshold\<close> and
  \<open>spec_should_ship\<close> are the spec's reading, with the exact nine tenths, the floor of the
  rationals and the plain difference of the two instants.
\<close>

definition ship_threshold :: "int \<Rightarrow> int" where
  "ship_threshold n = int_of_float64 (f64_mul (float64_of_int n) maxSizeThreshold)"

definition spec_threshold :: "int \<Rightarrow> int" where
  "spec_threshold n = \<lfloor>of_int n * (9 / 10 :: rat)\<rfloor>"

definition spec_should_ship :: "gotime \<Rightarrow> Batch \<Rightarrow> bool" where
  "spec_should_ship tnow b =
     (spec_threshold (maxSize b) \<le> int (count b)
      \<or> (age b \<noteq> zeroTime \<and> tnow - age b > maxAge b))"

text \<open>
  Batches of size 10 and two seconds of age limit: nine events, eight events, and one event
  first added at \<open>1700000000\<close> seconds of the epoch.  Then a batch whose size is beyond
  \<open>2 ^ 51\<close>.
\<close>

definition nine_batch :: Batch where
  "nine_batch = (NewBatch 10 2000000000)\<lparr>count := 9\<rparr>"

definition eight_batch :: Batch where
  "eight_batch = (NewBatch 10 2000000000)\<lparr>count := 8\<rparr>"

definition aged_batch :: Batch where
  "aged_batch = (NewBatch 10 2000000000)\<lparr>count := 1, age := 1700000000000000000\<rparr>"

definition huge_batch :: Batch where
  "huge_batch = (NewBatch 2251799813685251 2000000000)\<lparr>count := 2026619832316725\<rparr>"

text \<open>
  What a payload leaves in the batch.  A call of \<open>AddAgentData\<close> is accepted when the
  payload is not empty, is decoded to \<open>raw\<close>, and the batch is not full and has a current
  invocation.  \<open>adopt_metadata\<close> is the batch once the first line was taken as the
  metadata line, if none was set; \<open>payload_events\<close> are the segments after the first line
  that are not empty; \<open>entry_lines\<close> writes entries, each after a newline.  A pending
  cold start is hit when one of the events is a transaction; \<open>coldstart_entries\<close> are
  the three entries that take the place of that transaction.  \<open>events_appended\<close>: every
  event was written, in order, the first transaction that hit a cold start as its three
  entries, and the count grew by the number of entries.
\<close>

definition entry_lines :: "bytes list \<Rightarrow> bytes" where
  "entry_lines ls = concat (map (\<lambda>l. newLineSep # l) ls)"

definition payload_events :: "bytes \<Rightarrow> bytes list" where
  "payload_events raw = events_of (snd (bytes_Cut raw))"

definition adopt_metadata :: "Batch \<Rightarrow> bytes \<Rightarrow> Batch" where
  "adopt_metadata b raw =
     (if metadataBytes b = 0
      then b\<lparr>metadataBytes := length (fst (bytes_Cut raw)), buf := buf b @ fst (bytes_Cut raw)\<rparr>
      else b)"

definition accepted :: "extlib \<Rightarrow> Batch \<Rightarrow> APMData \<Rightarrow> bytes \<Rightarrow> bool" where
  "accepted L b apmData raw =
     (Data apmData \<noteq> [] \<and>
      GetUncompressedBytes L (Data apmData) (ContentEncoding apmData) = Inr raw \<and>
      int (count b) < maxSize b \<and> currentlyExecutingRequestID b \<noteq> [] \<and>
      invocations b (currentlyExecutingRequestID b) \<noteq> None)"

definition coldstart_hit :: "Batch \<Rightarrow> bytes list \<Rightarrow> bool" where
  "coldstart_hit b evs =
     (f_ge_zero (coldstartDurationMs b) \<and> (\<exists>t\<in>set evs. isTransactionEvent t))"

definition coldstart_entries :: "extlib \<Rightarrow> env \<Rightarrow> Batch \<Rightarrow> bytes \<Rightarrow> bytes list \<Rightarrow> bool" where
  "coldstart_entries L E b t trio =
     (\<exists>id1 id2 m1 m2 tx txID tr.
        SpanID_UnmarshalJSON (quoted (gjson_String L t ''transaction.id'')) = Some txID \<and>
        TraceID_UnmarshalJSON (quoted (gjson_String L t ''transaction.trace_id'')) = Some tr \<and>
        cryptorand_Read E 0 = Some id1 \<and> cryptorand_Read E 1 = Some id2 \<and>
        Span_Marshal L (spec_init_span L b t id1 txID tr) = Some m1 \<and>
        Span_Marshal L (spec_handle_span L t id2 txID tr) = Some m2 \<and>
        spec_adjusted_transaction L b t = Some tx \<and>
        trio = [span_line m1, span_line m2, tx])"

definition events_appended :: "extlib \<Rightarrow> env \<Rightarrow> Batch \<Rightarrow> bytes list \<Rightarrow> Batch \<Rightarrow> bool" where
  "events_appended L E b evs b' =
     (count b' = count b + length evs + (if coldstart_hit b evs then 2 else 0) \<and>
      (\<not> coldstart_hit b evs \<longrightarrow> buf b' = buf b @ entry_lines evs) \<and>
      (coldstart_hit b evs \<longrightarrow>
         (\<exists>pre t post trio.
            evs = pre @ t # post \<and> (\<forall>e\<in>set pre. \<not> isTransactionEvent e) \<and>
            isTransactionEvent t \<and> coldstart_entries L E b t trio \<and>
            buf b' = buf b @ entry_lines (pre @ trio @ post))))"

text \<open>
  A batch of size 1 before its first payload; a batch of size 1 that holds one event; a
  batch of size 1 with a cold start pending, and a payload with a transaction; a batch of
  size 10 before its first payload, and a payload whose first line is empty.
\<close>

definition first_batch :: Batch where
  "first_batch = RegisterInvocation (NewBatch 1 2000000000) ''A'' ''arn'' 10 0"

definition full_batch :: Batch where
  "full_batch = small_batch\<lparr>count := 1\<rparr>"

definition coldstart_small_batch :: Batch where
  "coldstart_small_batch = (OnPlatformInitReport sample_batch ''A'' (Finite 100))\<lparr>maxSize := 1\<rparr>"

definition coldstart_payload :: bytes where
  "coldstart_payload = sample_metadata @ [newLineSep] @ sample_tx"

definition fresh_batch :: Batch where
  "fresh_batch = RegisterInvocation (NewBatch 10 2000000000) ''A'' ''arn'' 10 0"

definition blank_first_line :: bytes where
  "blank_first_line = [newLineSep] @ ''{a}''"

section \<open>The event-kind discriminator\<close>

lemma compare_from_iff:
  "compare_from i key = (\<forall>j. i \<le> j \<and> j < length transactionKey \<longrightarrow> transactionKey ! j = key ! j)"
proof (induction i key rule: compare_from.induct)
  case (1 i key)
  show ?case
  proof (cases "i < length transactionKey")
    case False
    then show ?thesis by (subst compare_from.simps) auto
  next
    case True
    show ?thesis
    proof (cases "transactionKey ! i = key ! i")
      case False
      with True show ?thesis by (subst compare_from.simps) auto
    next
      case eq: True
      have "compare_from i key = compare_from (i + 1) key"
        using True eq by (subst compare_from.simps) simp
      also have "\<dots> = (\<forall>j. i + 1 \<le> j \<and> j < length transactionKey \<longrightarrow> transactionKey ! j = key ! j)"
        using "1.IH" True eq by simp
      also have "\<dots> = (\<forall>j. i \<le> j \<and> j < length transactionKey \<longrightarrow> transactionKey ! j = key ! j)"
      proof
        assume h: "\<forall>j. i + 1 \<le> j \<and> j < length transactionKey \<longrightarrow> transactionKey ! j = key ! j"
        show "\<forall>j. i \<le> j \<and> j < length transactionKey \<longrightarrow> transactionKey ! j = key ! j"
        proof (intro allI impI)
          fix j assume j: "i \<le> j \<and> j < length transactionKey"
          show "transactionKey ! j = key ! j"
          proof (cases "j = i")
            case True
            with eq show ?thesis by simp
          next
            case False
            with j have "i + 1 \<le> j" by simp
            with h j show ?thesis by blast
          qed
        qed
      next
        assume h: "\<forall>j. i \<le> j \<and> j < length transactionKey \<longrightarrow> transactionKey ! j = key ! j"
        show "\<forall>j. i + 1 \<le> j \<and> j < length transactionKey \<longrightarrow> transactionKey ! j = key ! j"
          using h by simp
      qed
      finally show ?thesis .
    qed
  qed
qed

lemma isTransactionEvent_prefix:
  "isTransactionEvent body = (take (length transactionKey) (key_after_quote body) = transactionKey)"
proof -
  let ?key = "key_after_quote body"
  show ?thesis
  proof (cases "length ?key < length transactionKey")
    case True
    have "take (length transactionKey) ?key \<noteq> transactionKey"
    proof
      assume "take (length transactionKey) ?key = transactionKey"
      then have "length (take (length transactionKey) ?key) = length transactionKey"
        by simp
      with True show False by simp
    qed
    with True show ?thesis by (simp add: isTransactionEvent_def)
  next
    case False
    then have "isTransactionEvent body = compare_from 0 ?key"
      by (simp add: isTransactionEvent_def)
    also have "\<dots> = (\<forall>j < length transactionKey. transactionKey ! j = ?key ! j)"
      by (simp add: compare_from_iff)
    also have "\<dots> = (take (length transactionKey) ?key = transactionKey)"
      using False by (auto simp: list_eq_iff_nth_eq)
    finally show ?thesis .
  qed
qed

lemma key_after_quote_cases:
  "(CHR 0x22 \<notin> set body \<and> CHR 0x27 \<notin> set body \<and> key_after_quote body = []) \<or>
   (\<exists>pre q. body = pre @ q # key_after_quote body \<and> (q = CHR 0x22 \<or> q = CHR 0x27) \<and>
      CHR 0x22 \<notin> set pre \<and> CHR 0x27 \<notin> set pre)"
proof (induction body)
  case Nil
  then show ?case by simp
next
  case (Cons r body)
  show ?case
  proof (cases "r = CHR 0x22 \<or> r = CHR 0x27")
    case True
    then have "r # body = [] @ r # key_after_quote (r # body)"
      by auto
    with True show ?thesis
      by (metis empty_iff empty_set)
  next
    case False
    then have k: "key_after_quote (r # body) = key_after_quote body"
      by simp
    from Cons.IH show ?thesis
    proof
      assume "CHR 0x22 \<notin> set body \<and> CHR 0x27 \<notin> set body \<and> key_after_quote body = []"
      with False k show ?thesis by auto
    next
      assume "\<exists>pre q. body = pre @ q # key_after_quote body \<and> (q = CHR 0x22 \<or> q = CHR 0x27) \<and>
                CHR 0x22 \<notin> set pre \<and> CHR 0x27 \<notin> set pre"
      then obtain pre q where "body = pre @ q # key_after_quote body"
        "q = CHR 0x22 \<or> q = CHR 0x27" "CHR 0x22 \<notin> set pre \<and> CHR 0x27 \<notin> set pre"
        by blast
      then have "r # body = (r # pre) @ q # key_after_quote (r # body) \<and>
                 (q = CHR 0x22 \<or> q = CHR 0x27) \<and>
                 CHR 0x22 \<notin> set (r # pre) \<and> CHR 0x27 \<notin> set (r # pre)"
        using False k by auto
      then show ?thesis by blast
    qed
  qed
qed

lemma key_after_quote_append:
  "CHR 0x22 \<notin> set pre \<Longrightarrow> CHR 0x27 \<notin> set pre \<Longrightarrow> q = CHR 0x22 \<or> q = CHR 0x27 \<Longrightarrow>
   key_after_quote (pre @ q # k) = k"
  by (induction pre) auto

lemma key_after_quote_no_quote:
  "CHR 0x22 \<notin> set body \<Longrightarrow> CHR 0x27 \<notin> set body \<Longrightarrow> key_after_quote body = []"
  by (induction body) auto

text \<open>
  C7.  \<open>isTransactionEvent\<close> is a total boolean function.  It returns true exactly when
  the input has a first double or single quote and the bytes right after it spell
  \<open>transaction\<close>.  It returns false on an input without a quote, and on an input with
  fewer bytes after the first quote than \<open>transaction\<close> has.
\<close>

theorem isTransactionEvent_first_quoted_key:
  "(isTransactionEvent body \<longleftrightarrow>
      (\<exists>pre q rest. body = pre @ q # transactionKey @ rest \<and> (q = CHR 0x22 \<or> q = CHR 0x27) \<and>
         CHR 0x22 \<notin> set pre \<and> CHR 0x27 \<notin> set pre)) \<and>
   (CHR 0x22 \<notin> set body \<and> CHR 0x27 \<notin> set body \<longrightarrow> \<not> isTransactionEvent body) \<and>
   (length (key_after_quote body) < length transactionKey \<longrightarrow> \<not> isTransactionEvent body)"
proof (intro conjI)
  show "isTransactionEvent body \<longleftrightarrow>
      (\<exists>pre q rest. body = pre @ q # transactionKey @ rest \<and> (q = CHR 0x22 \<or> q = CHR 0x27) \<and>
         CHR 0x22 \<notin> set pre \<and> CHR 0x27 \<notin> set pre)"
  proof
    assume tx: "isTransactionEvent body"
    then have tk: "take (length transactionKey) (key_after_quote body) = transactionKey"
      by (simp add: isTransactionEvent_prefix)
    then have ne: "key_after_quote body \<noteq> []"
      by (auto simp: transactionKey_def)
    from key_after_quote_cases [of body] ne obtain pre q where
      b: "body = pre @ q # key_after_quote body" and q: "q = CHR 0x22 \<or> q = CHR 0x27"
      and pre: "CHR 0x22 \<notin> set pre \<and> CHR 0x27 \<notin> set pre"
      by blast
    have "key_after_quote body =
            transactionKey @ drop (length transactionKey) (key_after_quote body)"
      using tk by (metis append_take_drop_id)
    with b have "body = pre @ q # transactionKey @ drop (length transactionKey) (key_after_quote body)"
      by simp
    with q pre show "\<exists>pre q rest. body = pre @ q # transactionKey @ rest \<and>
        (q = CHR 0x22 \<or> q = CHR 0x27) \<and> CHR 0x22 \<notin> set pre \<and> CHR 0x27 \<notin> set pre"
      by blast
  next
    assume "\<exists>pre q rest. body = pre @ q # transactionKey @ rest \<and>
        (q = CHR 0x22 \<or> q = CHR 0x27) \<and> CHR 0x22 \<notin> set pre \<and> CHR 0x27 \<notin> set pre"
    then obtain pre q rest where b: "body = pre @ q # transactionKey @ rest"
      and q: "q = CHR 0x22 \<or> q = CHR 0x27"
      and pre: "CHR 0x22 \<notin> set pre" "CHR 0x27 \<notin> set pre"
      by blast
    have "key_after_quote body = transactionKey @ rest"
      unfolding b using pre q by (rule key_after_quote_append)
    then show "isTransactionEvent body"
      by (simp add: isTransactionEvent_prefix)
  qed
next
  show "CHR 0x22 \<notin> set body \<and> CHR 0x27 \<notin> set body \<longrightarrow> \<not> isTransactionEvent body"
    by (auto simp: isTransactionEvent_def key_after_quote_no_quote transactionKey_def)
next
  show "length (key_after_quote body) < length transactionKey \<longrightarrow> \<not> isTransactionEvent body"
    by (simp add: isTransactionEvent_def)
qed

theorem isTransactionEvent_first_quoted_key_witness:
  \<open>CHR 0x22 \<notin> set ''{span:1}'' \<and> CHR 0x27 \<notin> set ''{span:1}'' \<and>
   \<not> isTransactionEvent ''{span:1}'' \<and>
   length (key_after_quote ''{"span":{}}'') < length transactionKey \<and>
   \<not> isTransactionEvent ''{"span":{}}''\<close>
  using isTransactionEvent_first_quoted_key [of "''{span:1}''"]
    isTransactionEvent_first_quoted_key [of \<open>''{"span":{}}''\<close>]
  by (simp add: transactionKey_def)

section \<open>Agent data: the empty payload\<close>

text \<open>
  C10.  \<open>AddAgentData\<close> with a payload of length zero returns no error and leaves the
  batch as it is, whatever the batch and whatever the content encoding: the check of the
  length comes before the decompression, the full-batch check and the lifecycle checks.
\<close>

theorem AddAgentData_empty_payload:
  "AddAgentData L E b \<lparr>Data = [], ContentEncoding = enc\<rparr> = (None, b)"
  by (simp add: AddAgentData_def)

section \<open>Appending one event\<close>

lemma addData_empty: "addData L E b [] isTx = (None, b)"
  by (simp add: addData.simps)

lemma addData_no_metadata:
  "data \<noteq> [] \<Longrightarrow> metadataBytes b = 0 \<Longrightarrow> addData L E b data isTx = (Some ErrMetadataUnavailable, b)"
  by (simp add: addData.simps)

lemma addData_plain:
  "data \<noteq> [] \<Longrightarrow> metadataBytes b \<noteq> 0 \<Longrightarrow> \<not> (isTx \<and> f_ge_zero (coldstartDurationMs b)) \<Longrightarrow>
   addData L E b data isTx =
     (None, b\<lparr>buf := buf b @ [newLineSep] @ data,
               age := (if count b = 0 then now E else age b),
               count := count b + 1\<rparr>)"
  by (subst addData.simps) auto

lemma addData_coldstart:
  "data \<noteq> [] \<Longrightarrow> metadataBytes b \<noteq> 0 \<Longrightarrow> f_ge_zero (coldstartDurationMs b) \<Longrightarrow>
   addData L E b data True =
     (case modelInitPhase L E b data of
        (Inl err, b1) \<Rightarrow> (Some err, b1)
      | (Inr data1, b1) \<Rightarrow>
          (None, b1\<lparr>buf := buf b1 @ [newLineSep] @ data1,
                    age := (if count b1 = 0 then now E else age b1),
                    count := count b1 + 1\<rparr>))"
  by (subst addData.simps) auto

lemma adjustTimestamp_Inr:
  "adjustTimestamp L txData d = Inr (tx, st, hs, hdur) \<longleftrightarrow>
     (Option.bind (sjson_SetInt L txData ''transaction.timestamp''
          (spec_new_timestamp L (gjson_Int L txData ''transaction.timestamp'') d))
       (\<lambda>t1. Option.bind (sjson_SetFloat L t1 ''transaction.duration''
            (spec_new_duration (gjson_Float L txData ''transaction.duration'') d))
          (\<lambda>t2. sjson_SetFloat L t2 ''transaction.context.tags.aws_lambda_init_duration'' d)) = Some tx
      \<and> st = spec_new_timestamp L (gjson_Int L txData ''transaction.timestamp'') d
      \<and> hs = gjson_Int L txData ''transaction.timestamp''
      \<and> hdur = float32_of (gjson_Float L txData ''transaction.duration''))"
  by (auto simp: adjustTimestamp_def spec_new_timestamp_def spec_new_duration_def Let_def
      split: option.splits)

lemma GetBytes_Inr: "GetBytes L s = Inr d \<longleftrightarrow> (\<exists>m. Span_Marshal L s = Some m \<and> d = span_line m)"
  by (auto simp: GetBytes_def span_line_def split: option.splits)

lemma span_line_nonempty: "span_line m \<noteq> []"
  by (simp add: span_line_def)

lemma NewLambdaSpan_Init:
  "NewLambdaSpan rnd Init txID traceId ts dur = Inr s \<longleftrightarrow>
     (\<exists>spanID. rnd = Some spanID \<and>
        s = \<lparr>SpanName = ''AWS Lambda Initialize'', SpanTimestamp = time_UnixMicro ts, SpanDuration = dur,
             SpanType = ''awslambda'', SpanSubtype = ''init'', SpanID = spanID, SpanTransactionID = txID,
             SpanTraceID = traceId, SpanParentID = txID, SpanSampleRate = Finite 1\<rparr>)"
  by (auto simp: NewLambdaSpan_def Init_def Handle_def split: option.splits)

lemma NewLambdaSpan_Handle:
  "NewLambdaSpan rnd Handle txID traceId ts dur = Inr s \<longleftrightarrow>
     (\<exists>spanID. rnd = Some spanID \<and>
        s = \<lparr>SpanName = ''AWS Lambda Handle'', SpanTimestamp = time_UnixMicro ts, SpanDuration = dur,
             SpanType = ''awslambda'', SpanSubtype = ''handle'', SpanID = spanID, SpanTransactionID = txID,
             SpanTraceID = traceId, SpanParentID = txID, SpanSampleRate = Finite 1\<rparr>)"
  by (auto simp: NewLambdaSpan_def Init_def Handle_def split: option.splits)

text \<open>
  \<open>modelInitPhase\<close> step by step: the adjustment fails; an ID does not fit its array; both
  IDs are parsed.
\<close>

lemma modelInitPhase_adjust_error:
  "adjustTimestamp L d (coldstartDurationMs b) = Inl e \<Longrightarrow> modelInitPhase L E b d = (Inl e, b)"
  by (subst modelInitPhase.simps) (simp add: Let_def)

lemma modelInitPhase_panic:
  assumes "adjustTimestamp L d (coldstartDurationMs b) = Inr r"
    and "SpanID_UnmarshalJSON (quoted (gjson_String L d ''transaction.id'')) = None \<or>
         TraceID_UnmarshalJSON (quoted (gjson_String L d ''transaction.trace_id'')) = None"
  shows "modelInitPhase L E b d = (Inl Panic, b\<lparr>coldstartDurationMs := Finite (- 1)\<rparr>)"
  using assms
  by (subst modelInitPhase.simps) (auto simp: Let_def split: prod.splits option.splits)

lemma modelInitPhase_parsed:
  assumes "adjustTimestamp L d (coldstartDurationMs b) = Inr (tx, st, hs, hdur)"
    and "SpanID_UnmarshalJSON (quoted (gjson_String L d ''transaction.id'')) = Some txID"
    and "TraceID_UnmarshalJSON (quoted (gjson_String L d ''transaction.trace_id'')) = Some tr"
  shows "modelInitPhase L E b d =
     (let b1 = b\<lparr>coldstartDurationMs := Finite (- 1)\<rparr>
      in case NewLambdaSpan (cryptorand_Read E 0) Init txID tr st (coldstartDurationMs b) of
           Inl err \<Rightarrow> (Inl err, b1)
         | Inr initSpan \<Rightarrow>
             (case GetBytes L initSpan of
                Inl err \<Rightarrow> (Inl err, b1)
              | Inr initSpanData \<Rightarrow>
                  (let b2 = snd (addData L E b1 initSpanData False)
                   in case NewLambdaSpan (cryptorand_Read E 1) Handle txID tr hs hdur of
                        Inl err \<Rightarrow> (Inl err, b2)
                      | Inr handleSpan \<Rightarrow>
                          (case GetBytes L handleSpan of
                             Inl err \<Rightarrow> (Inl err, b2)
                           | Inr handleSpanData \<Rightarrow>
                               (let b3 = snd (addData L E b2 handleSpanData False)
                                in (Inr tx, b3))))))"
  using assms by (subst modelInitPhase.simps) (simp add: Let_def)

lemma modelInitPhase_cases:
  obtains (adjust) e where "adjustTimestamp L d (coldstartDurationMs b) = Inl e"
  | (panic) r where "adjustTimestamp L d (coldstartDurationMs b) = Inr r"
      and "SpanID_UnmarshalJSON (quoted (gjson_String L d ''transaction.id'')) = None \<or>
           TraceID_UnmarshalJSON (quoted (gjson_String L d ''transaction.trace_id'')) = None"
  | (parsed) tx st hs hdur txID tr where
      "adjustTimestamp L d (coldstartDurationMs b) = Inr (tx, st, hs, hdur)"
      and "SpanID_UnmarshalJSON (quoted (gjson_String L d ''transaction.id'')) = Some txID"
      and "TraceID_UnmarshalJSON (quoted (gjson_String L d ''transaction.trace_id'')) = Some tr"
proof (cases "adjustTimestamp L d (coldstartDurationMs b)")
  case (Inl e)
  then show ?thesis by (rule adjust)
next
  case (Inr r)
  obtain tx st hs hdur where r: "r = (tx, st, hs, hdur)"
    by (cases r)
  show ?thesis
  proof (cases "SpanID_UnmarshalJSON (quoted (gjson_String L d ''transaction.id''))")
    case None
    with Inr show ?thesis by (intro panic) simp_all
  next
    case s: (Some txID)
    show ?thesis
    proof (cases "TraceID_UnmarshalJSON (quoted (gjson_String L d ''transaction.trace_id''))")
      case None
      with Inr show ?thesis by (intro panic) simp_all
    next
      case (Some tr)
      with Inr r s show ?thesis by (intro parsed) simp_all
    qed
  qed
qed

lemma modelInitPhase_success:
  assumes ok: "modelInitPhase L E b txData = (Inr tx, b')" and md: "metadataBytes b \<noteq> 0"
  shows "\<exists>id1 id2 m1 m2 txID tr.
      SpanID_UnmarshalJSON (quoted (gjson_String L txData ''transaction.id'')) = Some txID \<and>
      TraceID_UnmarshalJSON (quoted (gjson_String L txData ''transaction.trace_id'')) = Some tr \<and>
      cryptorand_Read E 0 = Some id1 \<and> cryptorand_Read E 1 = Some id2 \<and>
      Span_Marshal L (spec_init_span L b txData id1 txID tr) = Some m1 \<and>
      Span_Marshal L (spec_handle_span L txData id2 txID tr) = Some m2 \<and>
      spec_adjusted_transaction L b txData = Some tx \<and>
      b' = b\<lparr>coldstartDurationMs := Finite (- 1),
             buf := buf b @ [newLineSep] @ span_line m1 @ [newLineSep] @ span_line m2,
             age := (if count b = 0 then now E else age b),
             count := count b + 2\<rparr>"
proof (cases rule: modelInitPhase_cases [of L txData b])
  case (adjust e)
  from modelInitPhase_adjust_error [OF this, of E] ok show ?thesis
    by simp
next
  case (panic r)
  from modelInitPhase_panic [OF this, of E] ok show ?thesis
    by simp
next
  case (parsed tx0 st hs hdur txID tr)
  note mip = modelInitPhase_parsed [OF parsed, of E]
  let ?b1 = "b\<lparr>coldstartDurationMs := Finite (- 1)\<rparr>"
  from ok mip obtain s1 where
    s1: "NewLambdaSpan (cryptorand_Read E 0) Init txID tr st (coldstartDurationMs b) = Inr s1"
    by (auto simp: Let_def split: sum.splits)
  from ok mip s1 obtain d1 where d1: "GetBytes L s1 = Inr d1"
    by (auto simp: Let_def split: sum.splits)
  let ?b2 = "snd (addData L E ?b1 d1 False)"
  from ok mip s1 d1 obtain s2 where
    s2: "NewLambdaSpan (cryptorand_Read E 1) Handle txID tr hs hdur = Inr s2"
    by (auto simp: Let_def split: sum.splits)
  from ok mip s1 d1 s2 obtain d2 where d2: "GetBytes L s2 = Inr d2"
    by (auto simp: Let_def split: sum.splits)
  from ok mip s1 d1 s2 d2 have txeq: "tx0 = tx" and b': "b' = snd (addData L E ?b2 d2 False)"
    by (simp_all add: Let_def)
  from parsed(1) txeq have tx: "spec_adjusted_transaction L b txData = Some tx"
    and st: "st = spec_new_timestamp L (gjson_Int L txData ''transaction.timestamp'')
                    (coldstartDurationMs b)"
    and hs: "hs = gjson_Int L txData ''transaction.timestamp''"
    and hd: "hdur = float32_of (gjson_Float L txData ''transaction.duration'')"
    by (simp_all add: adjustTimestamp_Inr spec_adjusted_transaction_def)
  from s1 obtain id1 where id1: "cryptorand_Read E 0 = Some id1"
    and s1eq: "s1 = spec_init_span L b txData id1 txID tr"
    by (auto simp: NewLambdaSpan_Init spec_init_span_def st)
  from d1 obtain m1 where m1: "Span_Marshal L s1 = Some m1" and d1eq: "d1 = span_line m1"
    by (auto simp: GetBytes_Inr)
  have b2: "?b2 = ?b1\<lparr>buf := buf b @ [newLineSep] @ span_line m1,
                      age := (if count b = 0 then now E else age b), count := count b + 1\<rparr>"
    using md by (simp add: addData_plain d1eq span_line_nonempty)
  from s2 obtain id2 where id2: "cryptorand_Read E 1 = Some id2"
    and s2eq: "s2 = spec_handle_span L txData id2 txID tr"
    by (auto simp: NewLambdaSpan_Handle spec_handle_span_def hs hd)
  from d2 obtain m2 where m2: "Span_Marshal L s2 = Some m2" and d2eq: "d2 = span_line m2"
    by (auto simp: GetBytes_Inr)
  have "b' = b\<lparr>coldstartDurationMs := Finite (- 1),
             buf := buf b @ [newLineSep] @ span_line m1 @ [newLineSep] @ span_line m2,
             age := (if count b = 0 then now E else age b),
             count := count b + 2\<rparr>"
    unfolding b' b2 using md by (simp add: addData_plain d2eq span_line_nonempty)
  with parsed(2,3) id1 id2 m1 m2 tx s1eq s2eq show ?thesis
    by blast
qed

text \<open>The arithmetic and the IDs of the sample transaction.\<close>

lemma sample_float32:
  "f32_round 100000 = Finite 100000"
  "f32_round 2 = Finite 2"
  "f32_round 102 = Finite 102"
  by code_simp+

lemma sample_ids:
  "SpanID_UnmarshalJSON (quoted ''t1'') = Some 0"
  "TraceID_UnmarshalJSON (quoted []) = Some 0"
  by code_simp+

lemma sample_new_timestamp: "spec_new_timestamp L 5000 (Finite 100) = - 95000"
  by (simp add: spec_new_timestamp_def sample_float32 int64_of_float_def)

lemma sample_new_duration: "spec_new_duration (Finite 2) (Finite 100) = Finite 102"
  by (simp add: spec_new_duration_def float32_of_def sample_float32)

lemma sample_adjustTimestamp:
  "adjustTimestamp sample_lib sample_tx (Finite 100) =
     Inr (sample_tx3, - 95000, 5000, Finite 2)"
proof -
  have g: "gjson_Int sample_lib sample_tx ''transaction.timestamp'' = 5000"
    "gjson_Float sample_lib sample_tx ''transaction.duration'' = Finite 2"
    by (simp_all add: sample_lib_def)
  have "sjson_SetInt sample_lib sample_tx ''transaction.timestamp'' (- 95000) = Some sample_tx1"
    by (simp add: sample_lib_def)
  moreover have "sjson_SetFloat sample_lib sample_tx1 ''transaction.duration'' (Finite 102) =
      Some sample_tx2"
    by (simp add: sample_lib_def)
  moreover have "sjson_SetFloat sample_lib sample_tx2
      ''transaction.context.tags.aws_lambda_init_duration'' (Finite 100) = Some sample_tx3"
    by (simp add: sample_lib_def sample_tx1_def sample_tx2_def)
  ultimately show ?thesis
    by (simp add: adjustTimestamp_Inr g sample_new_timestamp sample_new_duration
        float32_of_def sample_float32)
qed

lemma sample_coldstart_run:
  \<open>addData sample_lib sample_env (OnPlatformInitReport sample_batch ''A'' (Finite 100)) sample_tx True =
     (None, sample_batch\<lparr>coldstartDurationMs := Finite (- 1),
             buf := sample_metadata @ [newLineSep] @ span_line ''{"name":"AWS Lambda Initialize","type":"awslambda"}''
                     @ [newLineSep] @ span_line ''{"name":"AWS Lambda Handle","type":"awslambda"}''
                     @ [newLineSep] @ sample_tx3,
             age := 1700000000000000000,
             count := 3\<rparr>)\<close>
proof -
  let ?b = "OnPlatformInitReport sample_batch ''A'' (Finite 100)"
  have f: "coldstartDurationMs ?b = Finite 100" "metadataBytes ?b \<noteq> 0" "sample_tx \<noteq> []"
    by (simp_all add: OnPlatformInitReport_def sample_batch_def sample_metadata_def sample_tx_def)
  have a: "adjustTimestamp sample_lib sample_tx (coldstartDurationMs ?b) =
      Inr (sample_tx3, - 95000, 5000, Finite 2)"
    unfolding f by (rule sample_adjustTimestamp)
  have i: "SpanID_UnmarshalJSON (quoted (gjson_String sample_lib sample_tx ''transaction.id'')) = Some 0"
    "TraceID_UnmarshalJSON (quoted (gjson_String sample_lib sample_tx ''transaction.trace_id'')) = Some 0"
    by (simp_all add: sample_lib_def sample_ids)
  have m: \<open>modelInitPhase sample_lib sample_env ?b sample_tx =
      (Inr sample_tx3,
       sample_batch\<lparr>coldstartDurationMs := Finite (- 1),
             buf := sample_metadata @ [newLineSep] @ span_line ''{"name":"AWS Lambda Initialize","type":"awslambda"}''
                     @ [newLineSep] @ span_line ''{"name":"AWS Lambda Handle","type":"awslambda"}'',
             age := 1700000000000000000,
             count := 2\<rparr>)\<close>
    by (subst modelInitPhase_parsed [OF a i])
       (simp add: addData.simps OnPlatformInitReport_def
        sample_batch_def sample_lib_def sample_env_def sample_metadata_def NewLambdaSpan_def
        GetBytes_def span_line_def Init_def Handle_def newLineSep_def Let_def zeroTime_def)
  have "addData sample_lib sample_env ?b sample_tx True =
     (case modelInitPhase sample_lib sample_env ?b sample_tx of
        (Inl err, b1) \<Rightarrow> (Some err, b1)
      | (Inr data1, b1) \<Rightarrow>
          (None, b1\<lparr>buf := buf b1 @ [newLineSep] @ data1,
                    age := (if count b1 = 0 then now sample_env else age b1),
                    count := count b1 + 1\<rparr>))"
    using f by (intro addData_coldstart) simp_all
  then show ?thesis
    unfolding m by simp
qed


text \<open>
  C1, as amended.  A transaction event appended while the cold-start duration is not
  negative and the metadata line is set adds three entries, in this order: the init span,
  the handle span and the transaction rewritten, each after a newline; the count grows by
  three.  The init span starts at the old timestamp less \<open>int64(init * 1000)\<close> and lasts
  the cold-start duration; the handle span has the old timestamp and the old duration;
  the transaction has the new timestamp, the sum of the two durations and the tag.  The
  product and the sum are those of \<open>float32\<close>, rounded to the nearest value.  Afterwards
  the cold-start duration is \<open>-1\<close>: the next transaction is appended as it is, with no
  span, until \<open>OnPlatformInitReport\<close> stores a new duration.
\<close>

theorem coldstart_trio:
  assumes "data \<noteq> []" and "metadataBytes b \<noteq> 0" and "f_ge_zero (coldstartDurationMs b)"
    and "addData L E b data True = (None, b')"
  shows "\<exists>id1 id2 m1 m2 tx txID tr.
      SpanID_UnmarshalJSON (quoted (gjson_String L data ''transaction.id'')) = Some txID \<and>
      TraceID_UnmarshalJSON (quoted (gjson_String L data ''transaction.trace_id'')) = Some tr \<and>
      cryptorand_Read E 0 = Some id1 \<and> cryptorand_Read E 1 = Some id2 \<and>
      Span_Marshal L (spec_init_span L b data id1 txID tr) = Some m1 \<and>
      Span_Marshal L (spec_handle_span L data id2 txID tr) = Some m2 \<and>
      spec_adjusted_transaction L b data = Some tx \<and>
      b' = b\<lparr>coldstartDurationMs := Finite (- 1),
             buf := buf b @ [newLineSep] @ span_line m1 @ [newLineSep] @ span_line m2 @
                    [newLineSep] @ tx,
             age := (if count b = 0 then now E else age b),
             count := count b + 3\<rparr> \<and>
      (\<forall>E2 data2. data2 \<noteq> [] \<longrightarrow>
         addData L E2 b' data2 True =
           (None, b'\<lparr>buf := buf b' @ [newLineSep] @ data2, count := count b' + 1\<rparr>)) \<and>
      (\<forall>reqID d. coldstartDurationMs (OnPlatformInitReport b' reqID d) = d)"
proof -
  from assms obtain tx b1 where mip: "modelInitPhase L E b data = (Inr tx, b1)"
    and b': "b' = b1\<lparr>buf := buf b1 @ [newLineSep] @ tx,
                     age := (if count b1 = 0 then now E else age b1),
                     count := count b1 + 1\<rparr>"
    by (auto simp: addData_coldstart split: prod.splits sum.splits)
  from modelInitPhase_success [OF mip assms(2)] obtain id1 id2 m1 m2 txID tr where
    r: "SpanID_UnmarshalJSON (quoted (gjson_String L data ''transaction.id'')) = Some txID"
      "TraceID_UnmarshalJSON (quoted (gjson_String L data ''transaction.trace_id'')) = Some tr"
      "cryptorand_Read E 0 = Some id1" "cryptorand_Read E 1 = Some id2"
      "Span_Marshal L (spec_init_span L b data id1 txID tr) = Some m1"
      "Span_Marshal L (spec_handle_span L data id2 txID tr) = Some m2"
      "spec_adjusted_transaction L b data = Some tx"
    and b1: "b1 = b\<lparr>coldstartDurationMs := Finite (- 1),
             buf := buf b @ [newLineSep] @ span_line m1 @ [newLineSep] @ span_line m2,
             age := (if count b = 0 then now E else age b),
             count := count b + 2\<rparr>"
    by blast
  have eq: "b' = b\<lparr>coldstartDurationMs := Finite (- 1),
             buf := buf b @ [newLineSep] @ span_line m1 @ [newLineSep] @ span_line m2 @
                    [newLineSep] @ tx,
             age := (if count b = 0 then now E else age b),
             count := count b + 3\<rparr>"
    unfolding b' b1 by simp
  have next_tx: "\<forall>E2 data2. data2 \<noteq> [] \<longrightarrow>
         addData L E2 b' data2 True =
           (None, b'\<lparr>buf := buf b' @ [newLineSep] @ data2, count := count b' + 1\<rparr>)"
    using assms(2) by (simp add: eq addData_plain)
  have "\<forall>reqID d. coldstartDurationMs (OnPlatformInitReport b' reqID d) = d"
    by (simp add: OnPlatformInitReport_def)
  with r eq next_tx show ?thesis
    by blast
qed

theorem coldstart_trio_witness:
  \<open>sample_tx \<noteq> [] \<and>
   metadataBytes (OnPlatformInitReport sample_batch ''A'' (Finite 100)) \<noteq> 0 \<and>
   f_ge_zero (coldstartDurationMs (OnPlatformInitReport sample_batch ''A'' (Finite 100))) \<and>
   fst (addData sample_lib sample_env
          (OnPlatformInitReport sample_batch ''A'' (Finite 100)) sample_tx True) = None \<and>
   spec_new_timestamp sample_lib 5000 (Finite 100) = - 95000 \<and>
   spec_new_duration (Finite 2) (Finite 100) = Finite 102 \<and>
   spec_adjusted_transaction sample_lib
     (OnPlatformInitReport sample_batch ''A'' (Finite 100)) sample_tx = Some sample_tx3 \<and>
   (\<exists>id1 id2 m1 m2 tx txID tr.
      buf (snd (addData sample_lib sample_env
            (OnPlatformInitReport sample_batch ''A'' (Finite 100)) sample_tx True)) =
        sample_metadata @ [newLineSep] @ span_line m1 @ [newLineSep] @ span_line m2 @
          [newLineSep] @ tx \<and>
      Span_Marshal sample_lib
        (spec_init_span sample_lib (OnPlatformInitReport sample_batch ''A'' (Finite 100))
           sample_tx id1 txID tr) = Some m1 \<and>
      Span_Marshal sample_lib (spec_handle_span sample_lib sample_tx id2 txID tr) = Some m2 \<and>
      spec_adjusted_transaction sample_lib
        (OnPlatformInitReport sample_batch ''A'' (Finite 100)) sample_tx = Some tx)\<close>
proof -
  let ?b = "OnPlatformInitReport sample_batch ''A'' (Finite 100)"
  let ?b' = "snd (addData sample_lib sample_env ?b sample_tx True)"
  have h1: "sample_tx \<noteq> []"
    by (simp add: sample_tx_def)
  have h2: "metadataBytes ?b \<noteq> 0"
    by (simp add: OnPlatformInitReport_def sample_batch_def sample_metadata_def)
  have h3: "f_ge_zero (coldstartDurationMs ?b)"
    by (simp add: OnPlatformInitReport_def)
  have h4: "addData sample_lib sample_env ?b sample_tx True = (None, ?b')"
    by (simp add: sample_coldstart_run)
  have c: "coldstartDurationMs ?b = Finite 100"
    by (simp add: OnPlatformInitReport_def)
  have "adjustTimestamp sample_lib sample_tx (coldstartDurationMs ?b) =
      Inr (sample_tx3, - 95000, 5000, Finite 2)"
    unfolding c by (rule sample_adjustTimestamp)
  then have adj: "spec_adjusted_transaction sample_lib ?b sample_tx = Some sample_tx3"
    unfolding adjustTimestamp_Inr spec_adjusted_transaction_def by blast
  have bufb: "buf ?b = sample_metadata"
    by (simp add: OnPlatformInitReport_def sample_batch_def)
  from coldstart_trio [OF h1 h2 h3 h4] obtain id1 id2 m1 m2 tx txID tr where
    m1: "Span_Marshal sample_lib (spec_init_span sample_lib ?b sample_tx id1 txID tr) = Some m1" and
    m2: "Span_Marshal sample_lib (spec_handle_span sample_lib sample_tx id2 txID tr) = Some m2" and
    tx: "spec_adjusted_transaction sample_lib ?b sample_tx = Some tx" and
    eq: "?b' = ?b\<lparr>coldstartDurationMs := Finite (- 1),
             buf := buf ?b @ [newLineSep] @ span_line m1 @ [newLineSep] @ span_line m2 @
                    [newLineSep] @ tx,
             age := (if count ?b = 0 then now sample_env else age ?b),
             count := count ?b + 3\<rparr>"
    by blast
  have "buf ?b' = sample_metadata @ [newLineSep] @ span_line m1 @ [newLineSep] @ span_line m2 @
          [newLineSep] @ tx"
    by (subst eq) (simp add: bufb)
  with m1 m2 tx have "\<exists>id1 id2 m1 m2 tx txID tr.
      buf ?b' = sample_metadata @ [newLineSep] @ span_line m1 @ [newLineSep] @ span_line m2 @
          [newLineSep] @ tx \<and>
      Span_Marshal sample_lib (spec_init_span sample_lib ?b sample_tx id1 txID tr) = Some m1 \<and>
      Span_Marshal sample_lib (spec_handle_span sample_lib sample_tx id2 txID tr) = Some m2 \<and>
      spec_adjusted_transaction sample_lib ?b sample_tx = Some tx"
    by blast
  moreover have "fst (addData sample_lib sample_env ?b sample_tx True) = None"
    by (simp add: sample_coldstart_run)
  ultimately show ?thesis
    using h1 h2 h3 adj sample_new_timestamp [of sample_lib] sample_new_duration by blast
qed

text \<open>
  In exact arithmetic the new timestamp would be \<open>5000 - 8388609000\<close> and the new
  duration \<open>16777217\<close>.  The \<open>float32\<close> product is \<open>8388609024\<close> and the \<open>float32\<close> sum
  is \<open>16777216\<close>, and these are what the rewritten transaction carries.
\<close>

lemma round_float32:
  "f32_round 8388609000 = Finite 8388609024"
  "f32_round 8388608 = Finite 8388608"
  "f32_round 16777217 = Finite 16777216"
  by code_simp+

lemma round_ids:
  "SpanID_UnmarshalJSON (quoted ''00f067aa0ba902b7'') = Some 0x00f067aa0ba902b7"
  "TraceID_UnmarshalJSON (quoted ''4bf92f3577b34da6a3ce929d0e0e4736'') =
     Some 0x4bf92f3577b34da6a3ce929d0e0e4736"
  by code_simp+

lemma round_new_timestamp: "spec_new_timestamp L 5000 (Finite 8388609) = - 8388604024"
  by (simp add: spec_new_timestamp_def round_float32 int64_of_float_def)

lemma round_new_duration: "spec_new_duration (Finite 8388608) (Finite 8388609) = Finite 16777216"
  by (simp add: spec_new_duration_def float32_of_def round_float32)

lemma round_lib_fields:
  "gjson_Int round_lib round_tx ''transaction.timestamp'' = 5000"
  "gjson_Float round_lib round_tx ''transaction.duration'' = Finite 8388608"
  "gjson_String round_lib round_tx ''transaction.id'' = ''00f067aa0ba902b7''"
  "gjson_String round_lib round_tx ''transaction.trace_id'' = ''4bf92f3577b34da6a3ce929d0e0e4736''"
  "sjson_SetInt round_lib round_tx ''transaction.timestamp'' (- 8388604024) = Some round_tx1"
  "sjson_SetFloat round_lib round_tx1 ''transaction.duration'' (Finite 16777216) = Some round_tx2"
  "sjson_SetFloat round_lib round_tx2 ''transaction.context.tags.aws_lambda_init_duration''
     (Finite 8388609) = Some round_tx3"
  by (simp_all add: round_lib_def round_tx1_def round_tx2_def)

lemma round_adjustTimestamp:
  "adjustTimestamp round_lib round_tx (Finite 8388609) =
     Inr (round_tx3, - 8388604024, 5000, Finite 8388608)"
  by (simp add: adjustTimestamp_Inr round_lib_fields round_new_timestamp round_new_duration
      float32_of_def round_float32)

theorem coldstart_rounding_counterexample:
  \<open>coldstartDurationMs round_batch = Finite 8388609 \<and>
   gjson_Int round_lib round_tx ''transaction.timestamp'' = 5000 \<and>
   gjson_Float round_lib round_tx ''transaction.duration'' = Finite 8388608 \<and>
   exact_new_timestamp 5000 8388609 = - 8388604000 \<and>
   exact_new_duration 8388608 8388609 = 16777217 \<and>
   spec_new_timestamp round_lib 5000 (Finite 8388609) = - 8388604024 \<and>
   spec_new_duration (Finite 8388608) (Finite 8388609) = Finite 16777216 \<and>
   addData round_lib sample_env round_batch round_tx True =
     (None, round_batch\<lparr>coldstartDurationMs := Finite (- 1),
             buf := sample_metadata @ [newLineSep] @ span_line ''{"name":"AWS Lambda Initialize","type":"awslambda"}''
                     @ [newLineSep] @ span_line ''{"name":"AWS Lambda Handle","type":"awslambda"}''
                     @ [newLineSep] @ round_tx3,
             age := 1700000000000000000,
             count := 3\<rparr>)\<close>
proof -
  have f: "coldstartDurationMs round_batch = Finite 8388609" "metadataBytes round_batch \<noteq> 0"
    "round_tx \<noteq> []" "f_ge_zero (coldstartDurationMs round_batch)"
    by (simp_all add: round_batch_def sample_batch_def sample_metadata_def round_tx_def)
  have a: "adjustTimestamp round_lib round_tx (coldstartDurationMs round_batch) =
      Inr (round_tx3, - 8388604024, 5000, Finite 8388608)"
    unfolding f by (rule round_adjustTimestamp)
  have i: "SpanID_UnmarshalJSON (quoted (gjson_String round_lib round_tx ''transaction.id'')) =
      Some 0x00f067aa0ba902b7"
    "TraceID_UnmarshalJSON (quoted (gjson_String round_lib round_tx ''transaction.trace_id'')) =
      Some 0x4bf92f3577b34da6a3ce929d0e0e4736"
    unfolding round_lib_fields by (rule round_ids)+
  have m: \<open>modelInitPhase round_lib sample_env round_batch round_tx =
      (Inr round_tx3,
       round_batch\<lparr>coldstartDurationMs := Finite (- 1),
             buf := sample_metadata @ [newLineSep] @ span_line ''{"name":"AWS Lambda Initialize","type":"awslambda"}''
                     @ [newLineSep] @ span_line ''{"name":"AWS Lambda Handle","type":"awslambda"}'',
             age := 1700000000000000000,
             count := 2\<rparr>)\<close>
    by (subst modelInitPhase_parsed [OF a i])
       (simp add: addData.simps round_batch_def round_lib_def
        sample_batch_def sample_lib_def sample_env_def sample_metadata_def NewLambdaSpan_def
        GetBytes_def span_line_def Init_def Handle_def newLineSep_def Let_def zeroTime_def)
  have "addData round_lib sample_env round_batch round_tx True =
     (case modelInitPhase round_lib sample_env round_batch round_tx of
        (Inl err, b1) \<Rightarrow> (Some err, b1)
      | (Inr data1, b1) \<Rightarrow>
          (None, b1\<lparr>buf := buf b1 @ [newLineSep] @ data1,
                    age := (if count b1 = 0 then now sample_env else age b1),
                    count := count b1 + 1\<rparr>))"
    using f by (intro addData_coldstart) simp_all
  then have run: \<open>addData round_lib sample_env round_batch round_tx True =
     (None, round_batch\<lparr>coldstartDurationMs := Finite (- 1),
             buf := sample_metadata @ [newLineSep] @ span_line ''{"name":"AWS Lambda Initialize","type":"awslambda"}''
                     @ [newLineSep] @ span_line ''{"name":"AWS Lambda Handle","type":"awslambda"}''
                     @ [newLineSep] @ round_tx3,
             age := 1700000000000000000,
             count := 3\<rparr>)\<close>
    unfolding m by simp
  have e: "exact_new_timestamp 5000 8388609 = - 8388604000"
    "exact_new_duration 8388608 8388609 = 16777217"
    by (simp_all add: exact_new_timestamp_def exact_new_duration_def)
  from f(1) round_lib_fields(1,2) e round_new_timestamp [of round_lib] round_new_duration run
  show ?thesis
    by blast
qed

text \<open>
  A transaction id of more than sixteen hexadecimal digits does not fit the eight bytes of
  a \<open>SpanID\<close>: the append ends in a panic, with the cold-start duration reset and nothing
  written.
\<close>

lemma addData_panic:
  assumes "data \<noteq> []" and "metadataBytes b \<noteq> 0" and "f_ge_zero (coldstartDurationMs b)"
    and "adjustTimestamp L data (coldstartDurationMs b) = Inr r"
    and "SpanID_UnmarshalJSON (quoted (gjson_String L data ''transaction.id'')) = None \<or>
         TraceID_UnmarshalJSON (quoted (gjson_String L data ''transaction.trace_id'')) = None"
  shows "addData L E b data True = (Some Panic, b\<lparr>coldstartDurationMs := Finite (- 1)\<rparr>)"
  using assms(1-3) modelInitPhase_panic [OF assms(4,5), of E]
  by (simp add: addData_coldstart)

lemma long_id_panics:
  "addData long_id_lib sample_env (sample_batch\<lparr>coldstartDurationMs := Finite 100\<rparr>)
     long_id_tx True =
   (Some Panic, sample_batch\<lparr>coldstartDurationMs := Finite (- 1)\<rparr>)"
proof -
  let ?b = "sample_batch\<lparr>coldstartDurationMs := Finite 100\<rparr>"
  have p: "SpanID_UnmarshalJSON (quoted ''00f067aa0ba902b7aa'') = None"
    by code_simp
  have g: "gjson_String long_id_lib long_id_tx ''transaction.id'' = ''00f067aa0ba902b7aa''"
    by (simp add: long_id_lib_def)
  obtain r where a: "adjustTimestamp long_id_lib long_id_tx (coldstartDurationMs ?b) = Inr r"
    by (simp add: adjustTimestamp_def long_id_lib_def Let_def)
  have "addData long_id_lib sample_env ?b long_id_tx True =
      (Some Panic, ?b\<lparr>coldstartDurationMs := Finite (- 1)\<rparr>)"
  proof (rule addData_panic [OF _ _ _ a])
    show "long_id_tx \<noteq> []"
      by (simp add: long_id_tx_def)
    show "metadataBytes ?b \<noteq> 0"
      by (simp add: sample_batch_def sample_metadata_def)
    show "f_ge_zero (coldstartDurationMs ?b)"
      by simp
    show "SpanID_UnmarshalJSON (quoted (gjson_String long_id_lib long_id_tx ''transaction.id'')) = None \<or>
         TraceID_UnmarshalJSON (quoted (gjson_String long_id_lib long_id_tx ''transaction.trace_id'')) = None"
      unfolding g using p by simp
  qed
  then show ?thesis
    by simp
qed

section \<open>What appending leaves alone\<close>

lemma addData_False:
  "addData L E b d False =
     (if d = [] then (None, b)
      else if metadataBytes b = 0 then (Some ErrMetadataUnavailable, b)
      else (None, b\<lparr>buf := buf b @ [newLineSep] @ d,
                     age := (if count b = 0 then now E else age b),
                     count := count b + 1\<rparr>))"
  by (subst addData.simps) simp

lemma frame_ok_refl: "frame_ok b b"
  by (simp add: frame_ok_def)

lemma frame_ok_trans: "frame_ok a b \<Longrightarrow> frame_ok b c \<Longrightarrow> frame_ok a c"
  by (auto simp: frame_ok_def)

lemma addData_False_frame: "frame_ok b (snd (addData L E b d False))"
  by (simp add: addData_False frame_ok_def)

lemma modelInitPhase_frame: "frame_ok b (snd (modelInitPhase L E b txData))"
proof -
  have c: "frame_ok b (b\<lparr>coldstartDurationMs := Finite (- 1)\<rparr>)"
    by (simp add: frame_ok_def)
  note t = frame_ok_trans [OF c] frame_ok_trans [OF frame_ok_trans [OF c addData_False_frame] addData_False_frame]
    frame_ok_trans [OF c addData_False_frame]
  show ?thesis
    by (subst modelInitPhase.simps)
       (auto simp: Let_def frame_ok_refl c t split: sum.splits prod.splits option.splits)
qed

lemma addData_frame: "frame_ok b (snd (addData L E b d isTx))"
proof (cases "isTx \<and> f_ge_zero (coldstartDurationMs b) \<and> d \<noteq> [] \<and> metadataBytes b \<noteq> 0")
  case True
  obtain r b1 where m: "modelInitPhase L E b d = (r, b1)"
    by (cases "modelInitPhase L E b d")
  with modelInitPhase_frame [of b L E d] have f: "frame_ok b b1"
    by simp
  have "frame_ok b1 (b1\<lparr>buf := buf b1 @ [newLineSep] @ x,
                    age := (if count b1 = 0 then now E else age b1),
                    count := count b1 + 1\<rparr>)" for x
    by (simp add: frame_ok_def)
  with f have "frame_ok b (b1\<lparr>buf := buf b1 @ [newLineSep] @ x,
                    age := (if count b1 = 0 then now E else age b1),
                    count := count b1 + 1\<rparr>)" for x
    by (rule frame_ok_trans)
  with True m f show ?thesis
    by (subst addData.simps) (auto split: sum.splits)
next
  case False
  then show ?thesis
    by (subst addData.simps) (auto simp: frame_ok_def)
qed

lemma addData_fields:
  assumes "addData L E b d isTx = (e, b')"
  shows "metadataBytes b' = metadataBytes b" "invocations b' = invocations b"
    "maxSize b' = maxSize b" "maxAge b' = maxAge b"
    "currentlyExecutingRequestID b' = currentlyExecutingRequestID b"
    "count b \<le> count b'" "\<exists>ext. buf b' = buf b @ ext"
  using addData_frame [of b L E d isTx] assms by (simp_all add: frame_ok_def)

section \<open>Finalizing an invocation\<close>

lemma CreateProxyTxn_needed:
  "\<not> TransactionObserved inc \<Longrightarrow> AgentPayload inc \<noteq> [] \<Longrightarrow>
   CreateProxyTxn L inc status time =
     (case spec_proxy_transaction L inc status time of None \<Rightarrow> Inl ErrLibrary | Some tx \<Rightarrow> Inr tx)"
  by (auto simp: CreateProxyTxn_def spec_proxy_transaction_def split: option.splits)

lemma CreateProxyTxn_not_needed:
  "TransactionObserved inc \<or> AgentPayload inc = [] \<Longrightarrow> CreateProxyTxn L inc status time = Inr []"
  by (auto simp: CreateProxyTxn_def)

lemma sample_payload_tx: "isTransactionEvent sample_payload"
  by (simp add: isTransactionEvent_def sample_payload_def transactionKey_def compare_from.simps)

lemma s3_batch_eq:
  "s3_batch =
     \<lparr>metadataBytes = 0, buf = [], invocations = [''A'' \<mapsto> s3_invocation],
      count = 0, age = zeroTime, maxSize = 10, maxAge = 2000000000,
      currentlyExecutingRequestID = ''A'', coldstartDurationMs = Finite (- 1)\<rparr>"
  by (simp add: s3_batch_def OnAgentInit_def RegisterInvocation_def NewBatch_def
      sample_payload_tx empty_Invocation_def s3_invocation_def)

lemma s3_invocation_fields:
  "AgentPayload s3_invocation \<noteq> []" "\<not> TransactionObserved s3_invocation"
  "\<not> Finalized s3_invocation"
  by (simp_all add: s3_invocation_def sample_payload_def)

lemma sample_proxy:
  "spec_proxy_transaction sample_lib s3_invocation ''failure'' 10000000 = Some sample_proxy3"
  by (simp add: spec_proxy_transaction_def sample_lib_def Duration_Milliseconds_def time_Sub_def
     maxDuration_def minDuration_def status_outcome_def sample_payload_def sample_proxy1_def
     sample_proxy2_def s3_invocation_def)

lemma sample_proxy3_nonempty: "sample_proxy3 \<noteq> []"
  by (simp add: sample_proxy3_def)


text \<open>
  C5, as amended.  \<open>OnLambdaLogRuntimeDone\<close> is \<open>finalizeInvocation\<close>.  For a registered
  request ID whose agent payload is not empty and whose transaction was not observed:
  when the metadata line is set, no cold-start duration is pending and the three
  overwrites succeed with a non-empty result, exactly that proxy transaction is appended
  (one entry) and the invocation is marked finalized; when the metadata line is not set,
  the call fails with \<open>ErrMetadataUnavailable\<close> and changes nothing.  For a request ID
  that is not registered it fails, naming the ID, and changes nothing.
\<close>

theorem finalize_proxy_transaction:
  "(invocations b reqID = Some inc \<and> AgentPayload inc \<noteq> [] \<and> \<not> TransactionObserved inc \<and>
    metadataBytes b \<noteq> 0 \<and> \<not> f_ge_zero (coldstartDurationMs b) \<and>
    spec_proxy_transaction L inc status time = Some tx \<and> tx \<noteq> [] \<longrightarrow>
      finalizeInvocation L E b reqID status time =
        (None, b\<lparr>buf := buf b @ [newLineSep] @ tx,
                  age := (if count b = 0 then now E else age b),
                  count := count b + 1,
                  invocations := (invocations b)(reqID \<mapsto> inc\<lparr>Finalized := True\<rparr>)\<rparr>)) \<and>
   (invocations b reqID = Some inc \<and> AgentPayload inc \<noteq> [] \<and> \<not> TransactionObserved inc \<and>
    metadataBytes b = 0 \<and> spec_proxy_transaction L inc status time = Some tx \<and> tx \<noteq> [] \<longrightarrow>
      finalizeInvocation L E b reqID status time = (Some ErrMetadataUnavailable, b)) \<and>
   (invocations b reqID = None \<longrightarrow>
      finalizeInvocation L E b reqID status time = (Some (ErrInvocationMissing reqID), b)) \<and>
   OnLambdaLogRuntimeDone L E b reqID status time = finalizeInvocation L E b reqID status time"
  by (auto simp: finalizeInvocation_def OnLambdaLogRuntimeDone_def CreateProxyTxn_needed
      addData_plain addData_no_metadata)


theorem finalize_proxy_transaction_witness:
  "invocations ready_batch ''A'' = Some ready_invocation \<and>
   AgentPayload ready_invocation \<noteq> [] \<and> \<not> TransactionObserved ready_invocation \<and>
   metadataBytes ready_batch \<noteq> 0 \<and> \<not> f_ge_zero (coldstartDurationMs ready_batch) \<and>
   spec_proxy_transaction sample_lib ready_invocation ''failure'' 10000000 = Some sample_proxy3 \<and>
   sample_proxy3 \<noteq> [] \<and>
   finalizeInvocation sample_lib sample_env ready_batch ''A'' ''failure'' 10000000 =
     (None, ready_batch\<lparr>buf := buf ready_batch @ [newLineSep] @ sample_proxy3,
               age := (if count ready_batch = 0 then now sample_env else age ready_batch),
               count := count ready_batch + 1,
               invocations := (invocations ready_batch)(''A'' \<mapsto>
                  ready_invocation\<lparr>Finalized := True\<rparr>)\<rparr>)"
proof -
  have h1: "invocations ready_batch ''A'' = Some ready_invocation"
    by (simp add: ready_batch_def)
  have h2: "AgentPayload ready_invocation \<noteq> []" "\<not> TransactionObserved ready_invocation"
    by (simp_all add: ready_invocation_def sample_payload_def)
  have h3: "metadataBytes ready_batch \<noteq> 0" "\<not> f_ge_zero (coldstartDurationMs ready_batch)"
    by (simp_all add: ready_batch_def sample_metadata_def)
  have h4: "spec_proxy_transaction sample_lib ready_invocation ''failure'' 10000000 =
              Some sample_proxy3"
    by (simp add: spec_proxy_transaction_def sample_lib_def Duration_Milliseconds_def time_Sub_def
     maxDuration_def minDuration_def status_outcome_def sample_payload_def sample_proxy1_def
     sample_proxy2_def ready_invocation_def)
  from finalize_proxy_transaction [of ready_batch "''A''" ready_invocation sample_lib
      "''failure''" 10000000 sample_proxy3 sample_env] h1 h2 h3 h4 sample_proxy3_nonempty
  show ?thesis
    by blast
qed

text \<open>
  The claim as it stands fails where the metadata line has not arrived: after
  \<open>RegisterInvocation\<close> and \<open>OnAgentInit\<close> on a new batch, \<open>OnLambdaLogRuntimeDone\<close> returns
  \<open>ErrMetadataUnavailable\<close>, appends nothing and does not mark the invocation finalized.
\<close>

theorem finalize_without_metadata_counterexample:
  "invocations s3_batch ''A'' \<noteq> None \<and>
   AgentPayload (the (invocations s3_batch ''A'')) \<noteq> [] \<and>
   \<not> TransactionObserved (the (invocations s3_batch ''A'')) \<and>
   OnLambdaLogRuntimeDone sample_lib sample_env s3_batch ''A'' ''failure'' 10000000 =
     (Some ErrMetadataUnavailable, s3_batch) \<and>
   \<not> Finalized (the (invocations s3_batch ''A''))"
proof -
  have inc: "invocations s3_batch ''A'' = Some s3_invocation"
    by (simp add: s3_batch_eq)
  have md: "metadataBytes s3_batch = 0"
    by (simp add: s3_batch_eq)
  have "CreateProxyTxn sample_lib s3_invocation ''failure'' 10000000 = Inr sample_proxy3"
    by (simp add: CreateProxyTxn_needed s3_invocation_fields sample_proxy)
  then have "finalizeInvocation sample_lib sample_env s3_batch ''A'' ''failure'' 10000000 =
     (Some ErrMetadataUnavailable, s3_batch)"
    by (simp add: finalizeInvocation_def inc addData_no_metadata md sample_proxy3_nonempty)
  then show ?thesis
    by (simp add: inc s3_invocation_fields OnLambdaLogRuntimeDone_def)
qed


section \<open>Shutdown\<close>

lemma finalize_invocations:
  assumes "invocations b k = Some inc"
  shows "case finalizeInvocation L E b k status t of
           (None, b1) \<Rightarrow> invocations b1 = (invocations b)(k \<mapsto> inc\<lparr>Finalized := True\<rparr>)
         | (Some e, b1) \<Rightarrow> invocations b1 = invocations b"
proof (cases "CreateProxyTxn L inc status t")
  case (Inl e)
  with assms show ?thesis by (simp add: finalizeInvocation_def)
next
  case (Inr p)
  obtain e b1 where a: "addData L E b p True = (e, b1)"
    by (cases "addData L E b p True")
  from addData_fields(2) [OF a] have "invocations b1 = invocations b" .
  with assms Inr a show ?thesis
    by (cases e) (simp_all add: finalizeInvocation_def)
qed

lemma shutdown_loop_registry:
  assumes "keys_consistent b" and "distinct ks" and "set ks \<subseteq> dom (invocations b)"
  shows "case shutdown_loop L E status ks b of
           (None, b') \<Rightarrow> invocations b' = (\<lambda>x. if x \<in> set ks then None else invocations b x)
         | (Some e, b') \<Rightarrow>
             (\<exists>ks1 k ks2. ks = ks1 @ k # ks2 \<and>
                invocations b' = (\<lambda>x. if x \<in> set ks1 then None else invocations b x))"
  using assms
proof (induction ks arbitrary: b)
  case Nil
  then show ?case by simp
next
  case (Cons k ks)
  from Cons.prems obtain inc where inc: "invocations b k = Some inc"
    by auto
  with Cons.prems have rid: "RequestID inc = k"
    by (simp add: keys_consistent_def)
  let ?t = "time_Unix0 (DeadlineMs inc * Millisecond)"
  obtain e b1 where f: "finalizeInvocation L E b k status ?t = (e, b1)"
    by (cases "finalizeInvocation L E b k status ?t")
  show ?case
  proof (cases e)
    case (Some err)
    with finalize_invocations [OF inc, of L E status ?t] f have "invocations b1 = invocations b"
      by simp
    then have "k # ks = [] @ k # ks \<and>
       invocations b1 = (\<lambda>x. if x \<in> set [] then None else invocations b x)"
      by simp
    then have "\<exists>ks1 k' ks2. k # ks = ks1 @ k' # ks2 \<and>
       invocations b1 = (\<lambda>x. if x \<in> set ks1 then None else invocations b x)"
      by blast
    with inc rid f Some show ?thesis
      by (simp add: Let_def)
  next
    case None
    with finalize_invocations [OF inc, of L E status ?t] f
    have i1: "invocations b1 = (invocations b)(k \<mapsto> inc\<lparr>Finalized := True\<rparr>)"
      by simp
    let ?b2 = "b1\<lparr>invocations := (invocations b1)(k := None)\<rparr>"
    have i2: "invocations ?b2 = (invocations b)(k := None)"
      by (simp add: i1)
    have kc2: "keys_consistent ?b2"
      using Cons.prems(1) by (simp add: keys_consistent_def i1)
    have d2: "distinct ks" and kn: "k \<notin> set ks"
      using Cons.prems(2) by simp_all
    have s2: "set ks \<subseteq> dom (invocations ?b2)"
      using Cons.prems(3) kn by (auto simp: i1)
    have step: "shutdown_loop L E status (k # ks) b = shutdown_loop L E status ks ?b2"
      using inc rid f None by (simp add: Let_def)
    obtain e' b' where r: "shutdown_loop L E status ks ?b2 = (e', b')"
      by (cases "shutdown_loop L E status ks ?b2")
    from Cons.IH [OF kc2 d2 s2] r show ?thesis
    proof (cases e')
      case None
      with Cons.IH [OF kc2 d2 s2] r
      have "invocations b' = (\<lambda>x. if x \<in> set ks then None else invocations ?b2 x)"
        by simp
      then have "invocations b' = (\<lambda>x. if x \<in> set (k # ks) then None else invocations b x)"
        by (auto simp: i1)
      with step r None show ?thesis by simp
    next
      case (Some err)
      with Cons.IH [OF kc2 d2 s2] r obtain ks1 k' ks2 where
        ks: "ks = ks1 @ k' # ks2" and
        iv: "invocations b' = (\<lambda>x. if x \<in> set ks1 then None else invocations ?b2 x)"
        by auto
      from ks have "k # ks = (k # ks1) @ k' # ks2"
        by simp
      moreover from iv
      have "invocations b' = (\<lambda>x. if x \<in> set (k # ks1) then None else invocations b x)"
        by (auto simp: i1)
      ultimately have "\<exists>ks1 k' ks2. k # ks = ks1 @ k' # ks2 \<and>
          invocations b' = (\<lambda>x. if x \<in> set ks1 then None else invocations b x)"
        by blast
      with step r Some show ?thesis by simp
    qed
  qed
qed


lemma spec_proxy_nonempty:
  "setstr_nonempty L \<Longrightarrow> spec_proxy_transaction L inc status t = Some tx \<Longrightarrow> tx \<noteq> []"
  by (auto simp: setstr_nonempty_def spec_proxy_transaction_def split: Option.bind_splits)

lemma shutdown_proxies_cong:
  "(\<And>x. x \<in> set ks \<Longrightarrow> invocations b x = invocations c x) \<Longrightarrow>
   shutdown_proxies L status b ks = shutdown_proxies L status c ks"
  by (induction ks) (auto simp: shutdown_proxies_def)

lemma needy_keys_cong:
  "(\<And>x. x \<in> set ks \<Longrightarrow> invocations b x = invocations c x) \<Longrightarrow>
   needy_keys b ks = needy_keys c ks"
  by (induction ks) (auto simp: needy_keys_def)

lemma shutdown_proxies_Cons:
  "shutdown_proxies L status b (k # ks) =
     (case invocations b k of
        None \<Rightarrow> []
      | Some inc \<Rightarrow>
          if needs_proxy inc
          then (case spec_proxy_transaction L inc status (shutdown_time inc) of
                  None \<Rightarrow> [] | Some tx \<Rightarrow> [tx])
          else []) @ shutdown_proxies L status b ks"
  by (simp add: shutdown_proxies_def)

lemma needy_keys_Cons:
  "needy_keys b (k # ks) =
     (if (case invocations b k of None \<Rightarrow> False | Some inc \<Rightarrow> needs_proxy inc) then [k] else [])
       @ needy_keys b ks"
  by (simp add: needy_keys_def)

lemma finalize_nocold:
  assumes "invocations b k = Some inc" and "\<not> f_ge_zero (coldstartDurationMs b)"
  shows "finalizeInvocation L E b k status t =
     (case CreateProxyTxn L inc status t of
        Inl e \<Rightarrow> (Some e, b)
      | Inr p \<Rightarrow>
          if p = [] then (None, b\<lparr>invocations := (invocations b)(k \<mapsto> inc\<lparr>Finalized := True\<rparr>)\<rparr>)
          else if metadataBytes b = 0 then (Some ErrMetadataUnavailable, b)
          else (None, b\<lparr>buf := buf b @ [newLineSep] @ p,
                         age := (if count b = 0 then now E else age b),
                         count := count b + 1,
                         invocations := (invocations b)(k \<mapsto> inc\<lparr>Finalized := True\<rparr>)\<rparr>))"
  using assms
  by (auto simp: finalizeInvocation_def addData_empty addData_no_metadata addData_plain
      split: sum.splits)

lemma shutdown_loop_buffer:
  assumes "keys_consistent b" and "distinct ks" and "set ks \<subseteq> dom (invocations b)"
    and "\<not> f_ge_zero (coldstartDurationMs b)" and "setstr_nonempty L"
    and "shutdown_loop L E status ks b = (None, b')"
  shows "buf b' = buf b @ concat (map (\<lambda>tx. newLineSep # tx) (shutdown_proxies L status b ks)) \<and>
         count b' = count b + length (shutdown_proxies L status b ks) \<and>
         length (shutdown_proxies L status b ks) = length (needy_keys b ks)"
  using assms
proof (induction ks arbitrary: b)
  case Nil
  then show ?case by (simp add: shutdown_proxies_def needy_keys_def)
next
  case (Cons k ks)
  from Cons.prems obtain inc where inc: "invocations b k = Some inc"
    by auto
  with Cons.prems have rid: "RequestID inc = k"
    by (simp add: keys_consistent_def)
  let ?t = "shutdown_time inc"
  have kn: "k \<notin> set ks" and d2: "distinct ks"
    using Cons.prems(2) by simp_all
  obtain e b1 where f: "finalizeInvocation L E b k status ?t = (e, b1)"
    by (cases "finalizeInvocation L E b k status ?t")
  have e: "e = None"
  proof (cases e)
    case (Some err)
    with Cons.prems(6) inc rid f show ?thesis
      by (simp add: Let_def shutdown_time_def)
  qed simp
  let ?b2 = "b1\<lparr>invocations := (invocations b1)(k := None)\<rparr>"
  have step: "shutdown_loop L E status ks ?b2 = (None, b')"
    using Cons.prems(6) inc rid f e by (simp add: Let_def shutdown_time_def)
  have fin: "finalizeInvocation L E b k status ?t = (None, b1)"
    using f e by simp
  let ?new = "(case invocations b k of
        None \<Rightarrow> []
      | Some inc \<Rightarrow>
          if needs_proxy inc
          then (case spec_proxy_transaction L inc status (shutdown_time inc) of
                  None \<Rightarrow> [] | Some tx \<Rightarrow> [tx])
          else [])"
  have one: "buf b1 = buf b @ concat (map (\<lambda>tx. newLineSep # tx) ?new) \<and>
             count b1 = count b + length ?new \<and>
             length ?new = (if needs_proxy inc then 1 else 0) \<and>
             coldstartDurationMs b1 = coldstartDurationMs b \<and>
             invocations b1 = (invocations b)(k \<mapsto> inc\<lparr>Finalized := True\<rparr>)"
  proof (cases "needs_proxy inc")
    case True
    then have c: "CreateProxyTxn L inc status ?t =
        (case spec_proxy_transaction L inc status ?t of None \<Rightarrow> Inl ErrLibrary | Some tx \<Rightarrow> Inr tx)"
      by (simp add: CreateProxyTxn_needed needs_proxy_def)
    from fin c obtain tx where tx: "spec_proxy_transaction L inc status ?t = Some tx"
      by (cases "spec_proxy_transaction L inc status ?t")
         (simp_all add: finalize_nocold [OF inc Cons.prems(4)])
    with Cons.prems(5) have ne: "tx \<noteq> []"
      by (rule spec_proxy_nonempty)
    from fin c tx ne have md: "metadataBytes b \<noteq> 0"
      by (cases "metadataBytes b = 0") (simp_all add: finalize_nocold [OF inc Cons.prems(4)])
    from fin c tx ne md
    have "b1 = b\<lparr>buf := buf b @ [newLineSep] @ tx,
                 age := (if count b = 0 then now E else age b),
                 count := count b + 1,
                 invocations := (invocations b)(k \<mapsto> inc\<lparr>Finalized := True\<rparr>)\<rparr>"
      by (simp add: finalize_nocold [OF inc Cons.prems(4)])
    then show ?thesis
      using True tx inc by simp
  next
    case False
    then have c: "CreateProxyTxn L inc status ?t = Inr []"
      by (simp add: CreateProxyTxn_not_needed needs_proxy_def)
    with fin have "b1 = b\<lparr>invocations := (invocations b)(k \<mapsto> inc\<lparr>Finalized := True\<rparr>)\<rparr>"
      by (simp add: finalize_nocold [OF inc Cons.prems(4)])
    then show ?thesis
      using False inc by simp
  qed
  have i2: "invocations ?b2 = (invocations b)(k := None)"
    using one by simp
  have kc2: "keys_consistent ?b2"
    using Cons.prems(1) by (simp add: keys_consistent_def i2)
  have s2: "set ks \<subseteq> dom (invocations ?b2)"
    using Cons.prems(3) kn by (auto simp: i2)
  have c2: "\<not> f_ge_zero (coldstartDurationMs ?b2)"
    using Cons.prems(4) one by simp
  have agree: "\<And>x. x \<in> set ks \<Longrightarrow> invocations ?b2 x = invocations b x"
    using kn by (auto simp: i2)
  have p2: "shutdown_proxies L status ?b2 ks = shutdown_proxies L status b ks"
    using agree by (rule shutdown_proxies_cong)
  have n2: "needy_keys ?b2 ks = needy_keys b ks"
    using agree by (rule needy_keys_cong)
  from Cons.IH [OF kc2 d2 s2 c2 Cons.prems(5) step]
  have ih: "buf b' = buf ?b2 @ concat (map (\<lambda>tx. newLineSep # tx) (shutdown_proxies L status b ks))"
    "count b' = count ?b2 + length (shutdown_proxies L status b ks)"
    "length (shutdown_proxies L status b ks) = length (needy_keys b ks)"
    by (simp_all add: p2 n2)
  have nk: "length (needy_keys b (k # ks)) = (if needs_proxy inc then 1 else 0) + length (needy_keys b ks)"
    by (simp add: needy_keys_Cons inc)
  show ?case
    unfolding shutdown_proxies_Cons nk using ih one by simp
qed



text \<open>
  C6, as amended.  Let every record's \<open>RequestID\<close> be its key, and let \<open>order\<close> range
  over the registry.  When \<open>OnShutdown\<close> returns no error the registry is empty; if
  moreover no cold-start duration was pending, the batch has gained exactly the proxy
  transactions of the invocations that had an agent payload and no observed transaction,
  each made with the deadline (milliseconds since the epoch) as its end time, and the
  count has grown by their number; an invocation without agent payload adds nothing.
  When \<open>OnShutdown\<close> returns an error it stopped at the first invocation whose
  finalization failed: the invocations before it stay removed, it and the later ones stay
  registered.
\<close>

theorem OnShutdown_finalizes_all:
  assumes "keys_consistent b" and "distinct order" and "set order = dom (invocations b)"
  shows "(fst (OnShutdown L E order b status) = None \<longrightarrow>
            invocations (snd (OnShutdown L E order b status)) = Map.empty \<and>
            Size (snd (OnShutdown L E order b status)) = 0 \<and>
            (\<not> f_ge_zero (coldstartDurationMs b) \<and> setstr_nonempty L \<longrightarrow>
               buf (snd (OnShutdown L E order b status)) =
                 buf b @ concat (map (\<lambda>tx. newLineSep # tx) (shutdown_proxies L status b order)) \<and>
               count (snd (OnShutdown L E order b status)) =
                 count b + length (needy_keys b order) \<and>
               length (shutdown_proxies L status b order) = length (needy_keys b order))) \<and>
         (fst (OnShutdown L E order b status) \<noteq> None \<longrightarrow>
            (\<exists>ks1 k ks2. order = ks1 @ k # ks2 \<and>
               invocations (snd (OnShutdown L E order b status)) =
                 (\<lambda>x. if x \<in> set ks1 then None else invocations b x)))"
proof -
  obtain e b' where r: "shutdown_loop L E status order b = (e, b')"
    by (cases "shutdown_loop L E status order b")
  have sub: "set order \<subseteq> dom (invocations b)"
    using assms(3) by simp
  note reg = shutdown_loop_registry [OF assms(1,2) sub, of L E status]
  show ?thesis
  proof (cases e)
    case None
    with reg r have "invocations b' = (\<lambda>x. if x \<in> set order then None else invocations b x)"
      by simp
    then have emp: "invocations b' = Map.empty"
      using assms(3) by (auto simp: fun_eq_iff domIff)
    have "\<not> f_ge_zero (coldstartDurationMs b) \<and> setstr_nonempty L \<longrightarrow>
               buf b' = buf b @ concat (map (\<lambda>tx. newLineSep # tx) (shutdown_proxies L status b order)) \<and>
               count b' = count b + length (needy_keys b order) \<and>
               length (shutdown_proxies L status b order) = length (needy_keys b order)"
      using shutdown_loop_buffer [OF assms(1,2) sub, of L E status b'] r None by simp
    with emp r None show ?thesis
      by (simp add: OnShutdown_def Size_def)
  next
    case (Some err)
    with reg r show ?thesis
      by (simp add: OnShutdown_def)
  qed
qed

lemma ready_shutdown_run:
  "OnShutdown sample_lib sample_env [''A''] ready_batch ''failure'' =
     (None, ready_batch\<lparr>buf := sample_metadata @ [newLineSep] @ sample_proxy3,
                         age := now sample_env, count := 1, invocations := Map.empty\<rparr>)"
proof -
  have inc: "invocations ready_batch ''A'' = Some ready_invocation"
    by (simp add: ready_batch_def)
  have t: "time_Unix0 (DeadlineMs ready_invocation * Millisecond) = 10000000"
    by (simp add: ready_invocation_def Millisecond_def time_Unix0_def)
  have p: "spec_proxy_transaction sample_lib ready_invocation ''failure'' 10000000 = Some sample_proxy3"
    by (simp add: spec_proxy_transaction_def sample_lib_def Duration_Milliseconds_def time_Sub_def
     maxDuration_def minDuration_def status_outcome_def sample_payload_def sample_proxy1_def
     sample_proxy2_def ready_invocation_def)
  have fl: "\<not> TransactionObserved ready_invocation" "AgentPayload ready_invocation \<noteq> []"
    by (simp_all add: ready_invocation_def sample_payload_def)
  have c: "CreateProxyTxn sample_lib ready_invocation ''failure'' 10000000 = Inr sample_proxy3"
    by (simp add: CreateProxyTxn_needed p fl)
  have nc: "\<not> f_ge_zero (coldstartDurationMs ready_batch)"
    by (simp add: ready_batch_def)
  have rid: "RequestID ready_invocation = ''A''"
    by (simp add: ready_invocation_def)
  have f: "finalizeInvocation sample_lib sample_env ready_batch ''A'' ''failure'' 10000000 =
     (None, ready_batch\<lparr>buf := buf ready_batch @ [newLineSep] @ sample_proxy3,
                         age := (if count ready_batch = 0 then now sample_env else age ready_batch),
                         count := count ready_batch + 1,
                         invocations := (invocations ready_batch)(''A'' \<mapsto> ready_invocation\<lparr>Finalized := True\<rparr>)\<rparr>)"
    by (simp add: finalize_nocold [OF inc nc] c sample_proxy3_nonempty)
       (simp add: ready_batch_def sample_metadata_def)
  show ?thesis
    by (simp add: OnShutdown_def inc t rid f Let_def) (simp add: ready_batch_def)
qed

theorem OnShutdown_finalizes_all_witness:
  "keys_consistent ready_batch \<and> distinct [''A''] \<and> set [''A''] = dom (invocations ready_batch) \<and>
   fst (OnShutdown sample_lib sample_env [''A''] ready_batch ''failure'') = None \<and>
   \<not> f_ge_zero (coldstartDurationMs ready_batch) \<and> setstr_nonempty sample_lib \<and>
   invocations (snd (OnShutdown sample_lib sample_env [''A''] ready_batch ''failure'')) = Map.empty \<and>
   count (snd (OnShutdown sample_lib sample_env [''A''] ready_batch ''failure'')) = 1 \<and>
   shutdown_proxies sample_lib ''failure'' ready_batch [''A''] = [sample_proxy3]"
proof -
  have h1: "keys_consistent ready_batch"
    by (simp add: keys_consistent_def ready_batch_def ready_invocation_def)
  have h2: "distinct [''A'']"
    by simp
  have h3: "set [''A''] = dom (invocations ready_batch)"
    by (simp add: ready_batch_def)
  have h4: "fst (OnShutdown sample_lib sample_env [''A''] ready_batch ''failure'') = None"
    by (simp add: ready_shutdown_run)
  have h5: "\<not> f_ge_zero (coldstartDurationMs ready_batch)"
    by (simp add: ready_batch_def)
  have h6: "setstr_nonempty sample_lib"
    by (simp add: setstr_nonempty_def sample_lib_def sample_proxy1_def sample_proxy3_def)
  have n: "needy_keys ready_batch [''A''] = [''A'']"
    by (simp add: needy_keys_def ready_batch_def needs_proxy_def ready_invocation_def sample_payload_def)
  have c0: "count ready_batch = 0"
    by (simp add: ready_batch_def)
  have px: "shutdown_proxies sample_lib ''failure'' ready_batch [''A''] = [sample_proxy3]"
    by (simp add: shutdown_proxies_def ready_batch_def needs_proxy_def shutdown_time_def
        time_Unix0_def Millisecond_def spec_proxy_transaction_def sample_lib_def
        Duration_Milliseconds_def time_Sub_def maxDuration_def minDuration_def status_outcome_def
        sample_payload_def sample_proxy1_def sample_proxy2_def ready_invocation_def)
  from OnShutdown_finalizes_all [OF h1 h2 h3, of sample_lib sample_env "''failure''"] h4 h5 h6 n c0
  have "invocations (snd (OnShutdown sample_lib sample_env [''A''] ready_batch ''failure'')) = Map.empty"
    and "count (snd (OnShutdown sample_lib sample_env [''A''] ready_batch ''failure'')) = 1"
    by simp_all
  with h1 h2 h3 h4 h5 h6 px show ?thesis
    by blast
qed

text \<open>
  The claim as it stands promises a synthetic transaction for every invocation without an
  observed one.  An invocation that was registered but never announced by the agent has no
  payload to make one from: shutdown removes it and appends nothing.
\<close>

theorem OnShutdown_no_payload_counterexample:
  "dom (invocations sample_batch) = {''A''} \<and>
   \<not> TransactionObserved (the (invocations sample_batch ''A'')) \<and>
   fst (OnShutdown sample_lib sample_env [''A''] sample_batch ''failure'') = None \<and>
   Size (snd (OnShutdown sample_lib sample_env [''A''] sample_batch ''failure'')) = 0 \<and>
   buf (snd (OnShutdown sample_lib sample_env [''A''] sample_batch ''failure'')) = buf sample_batch \<and>
   count (snd (OnShutdown sample_lib sample_env [''A''] sample_batch ''failure'')) = count sample_batch"
proof -
  let ?inc = "empty_Invocation\<lparr>RequestID := ''A'', DeadlineMs := 10000, Timestamp := 0\<rparr>"
  have inc: "invocations sample_batch ''A'' = Some ?inc"
    by (simp add: sample_batch_def)
  have nc: "\<not> f_ge_zero (coldstartDurationMs sample_batch)"
    by (simp add: sample_batch_def)
  have c: "CreateProxyTxn sample_lib ?inc ''failure'' t = Inr []" for t
    by (simp add: CreateProxyTxn_not_needed empty_Invocation_def)
  have "OnShutdown sample_lib sample_env [''A''] sample_batch ''failure'' =
          (None, sample_batch\<lparr>invocations := Map.empty\<rparr>)"
    by (simp add: OnShutdown_def inc Let_def finalize_nocold [OF inc nc] c)
       (simp add: sample_batch_def empty_Invocation_def)
  then show ?thesis
    by (simp add: Size_def) (simp add: sample_batch_def empty_Invocation_def)
qed

text \<open>
  An invocation that only the agent announced has an empty \<open>RequestID\<close> field.
  \<open>OnShutdown\<close> looks it up under that field, not under its key: it fails, naming the
  empty request ID, and the invocation stays registered.
\<close>

lemma OnShutdown_agent_init_only:
  "dom (invocations early_init_batch) = {''A''} \<and>
   OnShutdown sample_lib sample_env [''A''] early_init_batch ''failure'' =
     (Some (ErrInvocationMissing []), early_init_batch)"
proof -
  have e: "early_init_batch =
     (NewBatch 10 2000000000)\<lparr>invocations :=
        [''A'' \<mapsto> empty_Invocation\<lparr>TransactionID := ''t1'', AgentPayload := sample_payload\<rparr>],
        currentlyExecutingRequestID := ''A''\<rparr>"
    by (simp add: early_init_batch_def OnAgentInit_def sample_payload_tx NewBatch_def)
  show ?thesis
    unfolding e
    by (simp add: OnShutdown_def Let_def finalizeInvocation_def empty_Invocation_def NewBatch_def)
qed

section \<open>The loop of AddAgentData\<close>

lemma drain_unfold:
  "drain L E b rid inc rest =
     (case drain_step L E b rid inc rest of
        (Some err, b2, inc1, after) \<Rightarrow> (Some err, b2)
      | (None, b2, inc1, after) \<Rightarrow>
          if after = [] then (None, b2) else drain L E b2 rid inc1 after)"
  by (subst drain.simps) (auto simp: drain_step_def Let_def split: prod.splits option.splits)

lemma bytes_Cut_shorter:
  assumes "bytes_Cut rest = (data, after)" and "after \<noteq> []"
  shows "length after < length rest"
proof (cases "newLineSep \<in> set rest")
  case True
  then have "0 < length rest"
    by (cases rest) auto
  moreover have "length (dropWhile (\<lambda>c. c \<noteq> newLineSep) rest) \<le> length rest"
    by (rule length_dropWhile_le)
  ultimately have "length (tl (dropWhile (\<lambda>c. c \<noteq> newLineSep) rest)) < length rest"
    unfolding length_tl by linarith
  with assms True show ?thesis
    by (auto simp: bytes_Cut_def)
next
  case False
  with assms show ?thesis
    by (simp add: bytes_Cut_def)
qed

lemma drain_step_shorter:
  assumes "drain_step L E b rid inc rest = (e, b2, inc1, after)" and "after \<noteq> []"
  shows "length after < length rest"
proof -
  from assms(1) have "snd (bytes_Cut rest) = after"
    by (auto simp: drain_step_def Let_def split: prod.splits)
  then have "bytes_Cut rest = (fst (bytes_Cut rest), after)"
    by (metis prod.collapse)
  then show ?thesis
    using assms(2) by (rule bytes_Cut_shorter)
qed

text \<open>An invariant of one iteration is an invariant of the loop.\<close>

lemma drain_invariant:
  assumes step: "\<And>b inc rest e b2 inc1 after.
      J b inc \<Longrightarrow> drain_step L E b rid inc rest = (e, b2, inc1, after) \<Longrightarrow> J b2 inc1"
    and init: "J b inc"
  shows "\<exists>inc'. J (snd (drain L E b rid inc rest)) inc'"
  using init
proof (induction "length rest" arbitrary: b inc rest rule: less_induct)
  case less
  obtain e b2 inc1 after where s: "drain_step L E b rid inc rest = (e, b2, inc1, after)"
    by (cases "drain_step L E b rid inc rest")
  from step [OF less.prems s] have j: "J b2 inc1" .
  show ?case
  proof (cases "e = None \<and> after \<noteq> []")
    case True
    with s have "length after < length rest"
      by (auto dest: drain_step_shorter)
    from less.hyps [OF this j] True s show ?thesis
      by (subst drain_unfold) simp
  next
    case False
    with s j show ?thesis
      by (subst drain_unfold) (auto split: option.splits)
  qed
qed


lemma bytes_Cut_append:
  "newLineSep \<notin> set a \<Longrightarrow> bytes_Cut (a @ newLineSep # r) = (a, r)"
  by (induction a) (auto simp: bytes_Cut_def)

lemma bytes_Cut_no_newline:
  "newLineSep \<notin> set s \<Longrightarrow> bytes_Cut s = (s, [])"
  by (simp add: bytes_Cut_def)

lemma sample_no_newline:
  "newLineSep \<notin> set sample_metadata" "newLineSep \<notin> set sample_payload"
  by (simp_all add: sample_metadata_def sample_payload_def newLineSep_def)

lemma sample_nonempty:
  "sample_payload \<noteq> []" "length sample_metadata \<noteq> 0" "sample_metadata \<noteq> []"
  by (simp_all add: sample_payload_def sample_metadata_def)

lemma run_append: "run L (xs @ ys) b = run L ys (run L xs b)"
  by (induction xs arbitrary: b) simp_all

lemma sample_observed_run:
  "AddAgentData sample_lib sample_env s3_batch
     \<lparr>Data = sample_metadata @ [newLineSep] @ sample_payload, ContentEncoding = []\<rparr> =
   (None, observed_batch)"
proof -
  have g: "gjson_Str sample_lib sample_payload ''transaction.id'' = ''t1''"
    by (simp add: sample_lib_def)
  have need: "NeedProxyTransaction s3_invocation" "TransactionID s3_invocation = ''t1''"
    by (simp_all add: NeedProxyTransaction_def s3_invocation_def)
  have st: "drain_step sample_lib sample_env
        (s3_batch\<lparr>metadataBytes := length sample_metadata, buf := buf s3_batch @ sample_metadata\<rparr>)
        ''A'' s3_invocation sample_payload =
      (None, observed_batch, s3_invocation\<lparr>TransactionObserved := True\<rparr>, [])"
    unfolding s3_batch_eq observed_batch_def
    by (simp add: drain_step_def bytes_Cut_no_newline sample_no_newline sample_payload_tx g need
        Let_def addData_plain sample_nonempty)
  have d: "drain sample_lib sample_env
        (s3_batch\<lparr>metadataBytes := length sample_metadata, buf := buf s3_batch @ sample_metadata\<rparr>)
        ''A'' s3_invocation sample_payload = (None, observed_batch)"
    by (subst drain_unfold) (simp add: st)
  have pre: "maxSize s3_batch = 10" "count s3_batch = 0" "metadataBytes s3_batch = 0"
    "currentlyExecutingRequestID s3_batch = ''A''" "invocations s3_batch ''A'' = Some s3_invocation"
    by (simp_all add: s3_batch_eq)
  have "AddAgentData sample_lib sample_env s3_batch
     \<lparr>Data = sample_metadata @ [newLineSep] @ sample_payload, ContentEncoding = []\<rparr> =
     drain sample_lib sample_env
        (s3_batch\<lparr>metadataBytes := length sample_metadata, buf := buf s3_batch @ sample_metadata\<rparr>)
        ''A'' s3_invocation sample_payload"
    using bytes_Cut_append [OF sample_no_newline(1), of sample_payload]
    by (simp add: AddAgentData_def GetUncompressedBytes_def pre)
  with d show ?thesis
    by simp
qed

lemma observed_ops_run: "run sample_lib observed_ops (NewBatch 10 2000000000) = observed_batch"
  using sample_observed_run
  by (simp add: observed_ops_def s3_batch_def)


section \<open>Observed transactions have an id\<close>

lemma inv9_upd:
  "observed_implies_id b \<Longrightarrow> (TransactionObserved i \<longrightarrow> TransactionID i \<noteq> []) \<Longrightarrow>
   observed_implies_id (b\<lparr>invocations := (invocations b)(k \<mapsto> i)\<rparr>)"
  by (auto simp: observed_implies_id_def)

lemma inv9_del:
  "observed_implies_id b \<Longrightarrow> observed_implies_id (b\<lparr>invocations := (invocations b)(k := None)\<rparr>)"
  by (auto simp: observed_implies_id_def)

lemma inv9_same:
  "invocations b' = invocations b \<Longrightarrow> observed_implies_id b \<Longrightarrow> observed_implies_id b'"
  by (simp add: observed_implies_id_def)

lemma inv9_lookup:
  "observed_implies_id b \<Longrightarrow> invocations b k = Some i \<Longrightarrow>
   TransactionObserved i \<longrightarrow> TransactionID i \<noteq> []"
  by (auto simp: observed_implies_id_def)

lemma inv9_RegisterInvocation:
  "observed_implies_id b \<Longrightarrow> observed_implies_id (RegisterInvocation b r f d t)"
  unfolding RegisterInvocation_def Let_def
  by (cases "invocations b r")
     (auto simp: observed_implies_id_def empty_Invocation_def)

lemma inv9_OnAgentInit:
  "observed_implies_id b \<Longrightarrow> txnID \<noteq> [] \<Longrightarrow>
   observed_implies_id (snd (OnAgentInit b r txnID p))"
  unfolding OnAgentInit_def Let_def
  by (cases "invocations b r")
     (auto simp: observed_implies_id_def empty_Invocation_def)

lemma inv9_addData:
  "observed_implies_id b \<Longrightarrow> observed_implies_id (snd (addData L E b d t))"
  by (rule inv9_same [OF addData_fields(2)]) (auto intro: prod.collapse [symmetric])

lemma inv9_drain_step:
  assumes "observed_implies_id b \<and> (TransactionObserved inc \<longrightarrow> TransactionID inc \<noteq> [])"
    and "drain_step L E b rid inc rest = (e, b2, inc1, after)"
  shows "observed_implies_id b2 \<and> (TransactionObserved inc1 \<longrightarrow> TransactionID inc1 \<noteq> [])"
proof -
  obtain data aft where c: "bytes_Cut rest = (data, aft)"
    by (cases "bytes_Cut rest")
  let ?obs = "NeedProxyTransaction inc \<and> isTransactionEvent data \<and>
              gjson_Str L data ''transaction.id'' \<noteq> [] \<and>
              TransactionID inc = gjson_Str L data ''transaction.id''"
  let ?inc1 = "if ?obs then inc\<lparr>TransactionObserved := True\<rparr> else inc"
  let ?b1 = "if ?obs then b\<lparr>invocations := (invocations b)(rid \<mapsto> ?inc1)\<rparr> else b"
  have i1: "TransactionObserved ?inc1 \<longrightarrow> TransactionID ?inc1 \<noteq> []"
    using assms(1) by auto
  have b1: "observed_implies_id ?b1"
    using assms(1) i1 by (auto intro: inv9_upd)
  from assms(2) c have "inc1 = ?inc1" and "b2 = snd (addData L E ?b1 data (isTransactionEvent data))"
    by (auto simp: drain_step_def Let_def split: prod.splits)
  with i1 b1 show ?thesis
    by (auto intro: inv9_addData)
qed

lemma inv9_AddAgentData:
  assumes "observed_implies_id b"
  shows "observed_implies_id (snd (AddAgentData L E b apmData))"
proof -
  have "observed_implies_id (snd (drain L E b1 rid inc rest))"
    if "observed_implies_id b1" and "TransactionObserved inc \<longrightarrow> TransactionID inc \<noteq> []"
    for b1 rid inc rest
  proof -
    let ?J = "\<lambda>b inc. observed_implies_id b \<and> (TransactionObserved inc \<longrightarrow> TransactionID inc \<noteq> [])"
    have "\<exists>inc' :: Invocation. ?J (snd (drain L E b1 rid inc rest)) inc'"
    proof (rule drain_invariant [where J = "\<lambda>b inc. observed_implies_id b \<and>
          (TransactionObserved inc \<longrightarrow> TransactionID inc \<noteq> [])"])
      show "?J b1 inc"
        using that by simp
    next
      fix b inc rest e b2 inc1 after
      assume "?J b inc" and "drain_step L E b rid inc rest = (e, b2, inc1, after)"
      then show "?J b2 inc1"
        by (rule inv9_drain_step)
    qed
    then show ?thesis by blast
  qed
  note d = this
  have m: "observed_implies_id (b\<lparr>metadataBytes := n, buf := x\<rparr>)" for n x
    using assms by (simp add: observed_implies_id_def)
  show ?thesis
    unfolding AddAgentData_def
    using assms
    by (auto simp: Let_def d m inv9_lookup split: sum.splits option.splits prod.splits)
qed

lemma inv9_finalize:
  assumes "observed_implies_id b"
  shows "observed_implies_id (snd (finalizeInvocation L E b r status t))"
proof (cases "invocations b r")
  case None
  with assms show ?thesis by (simp add: finalizeInvocation_def)
next
  case (Some inc)
  obtain e b1 where f: "finalizeInvocation L E b r status t = (e, b1)"
    by (cases "finalizeInvocation L E b r status t")
  from inv9_lookup [OF assms Some]
  have "observed_implies_id (b\<lparr>invocations := (invocations b)(r \<mapsto> inc\<lparr>Finalized := True\<rparr>)\<rparr>)"
    using assms by (auto intro: inv9_upd)
  then have u: "invocations b1 = (invocations b)(r \<mapsto> inc\<lparr>Finalized := True\<rparr>) \<Longrightarrow>
      observed_implies_id b1"
    by (simp add: observed_implies_id_def)
  from finalize_invocations [OF Some, of L E status t] f assms u show ?thesis
    by (cases e) (auto intro: inv9_same)
qed

lemma inv9_shutdown_loop:
  "observed_implies_id b \<Longrightarrow> observed_implies_id (snd (shutdown_loop L E status ks b))"
proof (induction ks arbitrary: b)
  case Nil
  then show ?case by simp
next
  case (Cons k ks)
  show ?case
  proof (cases "invocations b k")
    case None
    with Cons show ?thesis by simp
  next
    case (Some inc)
    let ?t = "time_Unix0 (DeadlineMs inc * Millisecond)"
    obtain e b1 where f: "finalizeInvocation L E b (RequestID inc) status ?t = (e, b1)"
      by (cases "finalizeInvocation L E b (RequestID inc) status ?t")
    from inv9_finalize [OF Cons.prems, of L E "RequestID inc" status ?t] f
    have b1: "observed_implies_id b1" by simp
    then have "observed_implies_id (b1\<lparr>invocations := (invocations b1)(RequestID inc := None)\<rparr>)"
      by (rule inv9_del)
    from Cons.IH [OF this] b1 Some f show ?thesis
      by (cases e) (simp_all add: Let_def)
  qed
qed

lemma inv9_apply_op:
  "observed_implies_id b \<Longrightarrow> op_txn_id_set x \<Longrightarrow> observed_implies_id (apply_op L x b)"
proof (cases x)
  case (Op_OnPlatformReport r)
  assume "observed_implies_id b"
  then show ?thesis
    unfolding Op_OnPlatformReport
    by (cases "invocations b r") (auto simp: OnPlatformReport_def intro: inv9_del)
next
  case (Op_OnPlatformInitReport r d)
  assume "observed_implies_id b"
  then show ?thesis
    unfolding Op_OnPlatformInitReport
    by (simp add: OnPlatformInitReport_def observed_implies_id_def)
next
  case Op_Reset
  assume "observed_implies_id b"
  then show ?thesis
    unfolding Op_Reset
    by (auto simp: Reset_def observed_implies_id_def split: option.splits)
qed (auto simp: inv9_RegisterInvocation inv9_OnAgentInit inv9_AddAgentData inv9_finalize
      OnLambdaLogRuntimeDone_def OnPlatformInitReport_def OnShutdown_def inv9_shutdown_loop
      AddLambdaData_def inv9_addData)

lemma inv9_run:
  "observed_implies_id b \<Longrightarrow> list_all op_txn_id_set ops \<Longrightarrow> observed_implies_id (run L ops b)"
  by (induction ops arbitrary: b) (auto simp: inv9_apply_op)


text \<open>
  C9, as amended.  In every state reached from a new batch by operations among which
  every \<open>OnAgentInit\<close> carries a non-empty transaction id, an invocation whose transaction
  was observed has a non-empty transaction id.
\<close>

theorem observed_implies_transaction_id:
  assumes "list_all op_txn_id_set ops"
    and "invocations (run L ops (NewBatch maxSize0 maxAge0)) k = Some inc"
    and "TransactionObserved inc"
  shows "TransactionID inc \<noteq> []"
proof -
  have "observed_implies_id (NewBatch maxSize0 maxAge0)"
    by (simp add: observed_implies_id_def NewBatch_def)
  from inv9_run [OF this assms(1)] assms(2,3) show ?thesis
    by (auto simp: observed_implies_id_def)
qed


theorem observed_implies_transaction_id_witness:
  "list_all op_txn_id_set observed_ops \<and>
   invocations (run sample_lib observed_ops (NewBatch 10 2000000000)) ''A'' =
     Some (s3_invocation\<lparr>TransactionObserved := True\<rparr>) \<and>
   TransactionObserved (s3_invocation\<lparr>TransactionObserved := True\<rparr>) \<and>
   TransactionID (s3_invocation\<lparr>TransactionObserved := True\<rparr>) \<noteq> []"
proof -
  have h1: "list_all op_txn_id_set observed_ops"
    by (simp add: observed_ops_def)
  have h2: "invocations (run sample_lib observed_ops (NewBatch 10 2000000000)) ''A'' =
     Some (s3_invocation\<lparr>TransactionObserved := True\<rparr>)"
    by (simp add: observed_ops_run observed_batch_def)
  have h3: "TransactionObserved (s3_invocation\<lparr>TransactionObserved := True\<rparr>)"
    by simp
  from observed_implies_transaction_id [OF h1 h2 h3] h1 h2 h3 show ?thesis
    by blast
qed


text \<open>
  The claim as it stands allows any \<open>OnAgentInit\<close>.  After the transaction \<open>t1\<close> of request
  \<open>A\<close> was observed, \<open>OnAgentInit\<close> for \<open>A\<close> with an empty transaction id overwrites the id
  and leaves the observed flag set.
\<close>

theorem observed_without_id_counterexample:
  "\<exists>inc. invocations (run sample_lib observed_cex_ops (NewBatch 10 2000000000)) ''A'' = Some inc \<and>
     TransactionObserved inc \<and> TransactionID inc = []"
proof -
  have e: "observed_cex_ops = observed_ops @ [Op_OnAgentInit ''A'' [] sample_payload]"
    by (simp add: observed_cex_ops_def observed_ops_def)
  have "run sample_lib observed_cex_ops (NewBatch 10 2000000000) =
      snd (OnAgentInit observed_batch ''A'' [] sample_payload)"
    unfolding e run_append observed_ops_run by simp
  then have "invocations (run sample_lib observed_cex_ops (NewBatch 10 2000000000)) ''A'' =
      Some (s3_invocation\<lparr>TransactionObserved := True, TransactionID := [],
              AgentPayload := sample_payload\<rparr>)"
    by (simp add: OnAgentInit_def sample_payload_tx observed_batch_def)
  then show ?thesis
    by simp
qed

section \<open>Reset\<close>

lemma mib_frame: "frame_ok b b' \<Longrightarrow> metadata_in_buffer b \<Longrightarrow> metadata_in_buffer b'"
  by (auto simp: frame_ok_def metadata_in_buffer_def)

lemma mib_addData: "metadata_in_buffer b \<Longrightarrow> metadata_in_buffer (snd (addData L E b d t))"
  by (rule mib_frame [OF addData_frame])

lemma mib_invocations:
  "metadata_in_buffer (b\<lparr>invocations := i\<rparr>) = metadata_in_buffer b"
  by (simp add: metadata_in_buffer_def)

lemma drain_step_elim:
  assumes "drain_step L E b rid inc rest = (e, b2, inc1, after)"
  shows "\<exists>data b1. bytes_Cut rest = (data, after) \<and>
           addData L E b1 data (isTransactionEvent data) = (e, b2) \<and>
           ((b1 = b \<and> inc1 = inc) \<or>
            (b1 = b\<lparr>invocations := (invocations b)(rid \<mapsto> inc1)\<rparr> \<and>
             inc1 = inc\<lparr>TransactionObserved := True\<rparr> \<and> TransactionID inc \<noteq> []))"
proof -
  obtain data aft where c: "bytes_Cut rest = (data, aft)"
    by (cases "bytes_Cut rest")
  show ?thesis
  proof (cases "NeedProxyTransaction inc \<and> isTransactionEvent data \<and>
              gjson_Str L data ''transaction.id'' \<noteq> [] \<and>
              TransactionID inc = gjson_Str L data ''transaction.id''")
    case True
    with assms c show ?thesis
      by (auto simp: drain_step_def Let_def split: prod.splits)
  next
    case False
    with assms c show ?thesis
      by (auto simp: drain_step_def Let_def split: prod.splits)
  qed
qed

lemma mib_drain_step:
  assumes "metadata_in_buffer b" and "drain_step L E b rid inc rest = (e, b2, inc1, after)"
  shows "metadata_in_buffer b2"
proof -
  from drain_step_elim [OF assms(2)] obtain data b1 where
    a: "addData L E b1 data (isTransactionEvent data) = (e, b2)" and
    b1: "b1 = b \<or> b1 = b\<lparr>invocations := (invocations b)(rid \<mapsto> inc1)\<rparr>"
    by blast
  from b1 assms(1) have "metadata_in_buffer b1"
    by (auto simp: mib_invocations)
  from mib_addData [OF this, of L E data "isTransactionEvent data"] a show ?thesis
    by simp
qed

lemma mib_drain:
  assumes "metadata_in_buffer b"
  shows "metadata_in_buffer (snd (drain L E b rid inc rest))"
proof -
  have "\<exists>inc' :: Invocation. metadata_in_buffer (snd (drain L E b rid inc rest))"
  proof (rule drain_invariant [where J = "\<lambda>b inc. metadata_in_buffer b"])
    show "metadata_in_buffer b" by (rule assms)
  next
    fix b inc rest e b2 inc1 after
    assume "metadata_in_buffer b" and "drain_step L E b rid inc rest = (e, b2, inc1, after)"
    then show "metadata_in_buffer b2" by (rule mib_drain_step)
  qed
  then show ?thesis by simp
qed

lemma mib_AddAgentData:
  assumes "metadata_in_buffer b"
  shows "metadata_in_buffer (snd (AddAgentData L E b apmData))"
proof -
  have "metadata_in_buffer (b\<lparr>metadataBytes := length d, buf := buf b @ d\<rparr>)" for d
    by (simp add: metadata_in_buffer_def)
  with assms show ?thesis
    unfolding AddAgentData_def
    by (auto simp: Let_def mib_drain split: sum.splits option.splits prod.splits)
qed

lemma mib_finalize:
  assumes "metadata_in_buffer b"
  shows "metadata_in_buffer (snd (finalizeInvocation L E b r status t))"
proof -
  have "metadata_in_buffer b1" if "addData L E b p True = (e, b1)" for p e b1
    using mib_addData [OF assms, of L E p True] that by simp
  with assms show ?thesis
    unfolding finalizeInvocation_def
    by (auto simp: mib_invocations split: option.splits sum.splits prod.splits)
qed

lemma mib_shutdown_loop:
  "metadata_in_buffer b \<Longrightarrow> metadata_in_buffer (snd (shutdown_loop L E status ks b))"
proof (induction ks arbitrary: b)
  case Nil
  then show ?case by simp
next
  case (Cons k ks)
  show ?case
  proof (cases "invocations b k")
    case None
    with Cons show ?thesis by simp
  next
    case (Some inc)
    let ?t = "time_Unix0 (DeadlineMs inc * Millisecond)"
    obtain e b1 where f: "finalizeInvocation L E b (RequestID inc) status ?t = (e, b1)"
      by (cases "finalizeInvocation L E b (RequestID inc) status ?t")
    from mib_finalize [OF Cons.prems, of L E "RequestID inc" status ?t] f
    have b1: "metadata_in_buffer b1" by simp
    then have "metadata_in_buffer (b1\<lparr>invocations := (invocations b1)(RequestID inc := None)\<rparr>)"
      by (simp add: mib_invocations)
    from Cons.IH [OF this] b1 Some f show ?thesis
      by (cases e) (simp_all add: Let_def)
  qed
qed

lemma Buffer_Truncate_ok:
  "n \<le> length bs \<Longrightarrow> Buffer_Truncate bs n = Some (take n bs)"
  by (simp add: Buffer_Truncate_def)

lemma Reset_ok:
  "metadata_in_buffer b \<Longrightarrow>
   Reset b = Some (b\<lparr>count := 0, age := zeroTime, buf := take (metadataBytes b) (buf b)\<rparr>)"
  by (simp add: Reset_def Buffer_Truncate_ok metadata_in_buffer_def)

lemma mib_apply_op: "metadata_in_buffer b \<Longrightarrow> metadata_in_buffer (apply_op L x b)"
proof (cases x)
  case (Op_RegisterInvocation r f d t)
  assume "metadata_in_buffer b"
  then show ?thesis
    unfolding Op_RegisterInvocation by (simp add: RegisterInvocation_def Let_def metadata_in_buffer_def)
next
  case (Op_OnAgentInit r t p)
  assume "metadata_in_buffer b"
  then show ?thesis
    unfolding Op_OnAgentInit by (simp add: OnAgentInit_def Let_def metadata_in_buffer_def)
next
  case (Op_OnPlatformReport r)
  assume "metadata_in_buffer b"
  then show ?thesis
    unfolding Op_OnPlatformReport
    by (cases "invocations b r") (simp_all add: OnPlatformReport_def metadata_in_buffer_def)
next
  case (Op_OnPlatformInitReport r d)
  assume "metadata_in_buffer b"
  then show ?thesis
    unfolding Op_OnPlatformInitReport by (simp add: OnPlatformInitReport_def metadata_in_buffer_def)
next
  case Op_Reset
  assume "metadata_in_buffer b"
  then show ?thesis
    unfolding Op_Reset by (simp add: Reset_ok) (simp add: metadata_in_buffer_def)
qed (auto simp: mib_AddAgentData mib_finalize OnLambdaLogRuntimeDone_def OnShutdown_def
      mib_shutdown_loop AddLambdaData_def mib_addData)

lemma mib_run: "metadata_in_buffer b \<Longrightarrow> metadata_in_buffer (run L ops b)"
  by (induction ops arbitrary: b) (auto simp: mib_apply_op)


text \<open>
  C8.  In every state reached from a new batch the metadata length does not exceed the
  length of the buffer, so \<open>Truncate\<close> does not panic.  In every such state \<open>Reset\<close> sets
  the count to zero and the age to the zero time, cuts the buffer down to its first
  \<open>metadataBytes\<close> bytes, which it keeps, and leaves every other field; a second \<open>Reset\<close>
  changes nothing.
\<close>

theorem Reset_idempotent:
  "metadataBytes (run L ops (NewBatch maxSize0 maxAge0))
     \<le> length (buf (run L ops (NewBatch maxSize0 maxAge0))) \<and>
   (metadataBytes b \<le> length (buf b) \<longrightarrow>
      (\<exists>b1. Reset b = Some b1 \<and>
         b1 = b\<lparr>count := 0, age := zeroTime, buf := take (metadataBytes b) (buf b)\<rparr> \<and>
         count b1 = 0 \<and> age b1 = zeroTime \<and> metadataBytes b1 = metadataBytes b \<and>
         length (buf b1) = metadataBytes b \<and>
         take (metadataBytes b) (buf b1) = take (metadataBytes b) (buf b) \<and>
         Reset b1 = Some b1))"
proof
  have "metadata_in_buffer (NewBatch maxSize0 maxAge0)"
    by (simp add: metadata_in_buffer_def NewBatch_def)
  then have "metadata_in_buffer (run L ops (NewBatch maxSize0 maxAge0))"
    by (rule mib_run)
  then show "metadataBytes (run L ops (NewBatch maxSize0 maxAge0))
     \<le> length (buf (run L ops (NewBatch maxSize0 maxAge0)))"
    by (simp add: metadata_in_buffer_def)
next
  show "metadataBytes b \<le> length (buf b) \<longrightarrow>
      (\<exists>b1. Reset b = Some b1 \<and>
         b1 = b\<lparr>count := 0, age := zeroTime, buf := take (metadataBytes b) (buf b)\<rparr> \<and>
         count b1 = 0 \<and> age b1 = zeroTime \<and> metadataBytes b1 = metadataBytes b \<and>
         length (buf b1) = metadataBytes b \<and>
         take (metadataBytes b) (buf b1) = take (metadataBytes b) (buf b) \<and>
         Reset b1 = Some b1)"
  proof
    assume le: "metadataBytes b \<le> length (buf b)"
    let ?b1 = "b\<lparr>count := 0, age := zeroTime, buf := take (metadataBytes b) (buf b)\<rparr>"
    have r: "Reset b = Some ?b1"
      using le by (simp add: Reset_ok metadata_in_buffer_def)
    have "metadata_in_buffer ?b1"
      using le by (simp add: metadata_in_buffer_def)
    then have "Reset ?b1 = Some ?b1"
      using le by (simp add: Reset_ok)
    with r le show "\<exists>b1. Reset b = Some b1 \<and>
         b1 = b\<lparr>count := 0, age := zeroTime, buf := take (metadataBytes b) (buf b)\<rparr> \<and>
         count b1 = 0 \<and> age b1 = zeroTime \<and> metadataBytes b1 = metadataBytes b \<and>
         length (buf b1) = metadataBytes b \<and>
         take (metadataBytes b) (buf b1) = take (metadataBytes b) (buf b) \<and>
         Reset b1 = Some b1"
      by simp
  qed
qed

theorem Reset_idempotent_witness:
  "metadataBytes observed_batch \<le> length (buf observed_batch) \<and>
   Reset observed_batch = Some (observed_batch\<lparr>count := 0, age := zeroTime, buf := sample_metadata\<rparr>) \<and>
   Reset (observed_batch\<lparr>count := 0, age := zeroTime, buf := sample_metadata\<rparr>) =
     Some (observed_batch\<lparr>count := 0, age := zeroTime, buf := sample_metadata\<rparr>)"
proof -
  have le: "metadataBytes observed_batch \<le> length (buf observed_batch)"
    by (simp add: observed_batch_def)
  have t: "take (metadataBytes observed_batch) (buf observed_batch) = sample_metadata"
    by (simp add: observed_batch_def)
  from Reset_idempotent [of sample_lib "[]" 10 2000000000 observed_batch] le
  show ?thesis
    by (simp add: t)
qed

section \<open>The full batch\<close>

lemma split_lines_nonempty: "split_lines s \<noteq> []"
  by (induction s) (auto split: list.splits)

lemma split_lines_no_newline: "newLineSep \<notin> set a \<Longrightarrow> split_lines a = [a]"
  by (induction a) auto

lemma split_lines_append:
  "newLineSep \<notin> set a \<Longrightarrow> split_lines (a @ newLineSep # r) = a # split_lines r"
  by (induction a) auto

lemma bytes_Cut_split:
  assumes "newLineSep \<in> set rest"
  shows "rest = fst (bytes_Cut rest) @ newLineSep # snd (bytes_Cut rest) \<and>
         newLineSep \<notin> set (fst (bytes_Cut rest))"
  using assms by (induction rest) (auto simp: bytes_Cut_def)


lemma events_of_Cut:
  assumes "bytes_Cut rest = (data, after)"
  shows "events_of rest = (if data = [] then [] else [data]) @ events_of after"
proof (cases "newLineSep \<in> set rest")
  case True
  from bytes_Cut_split [OF True] assms
  have "rest = data @ newLineSep # after" and "newLineSep \<notin> set data"
    by simp_all
  then show ?thesis
    by (simp add: events_of_def split_lines_append)
next
  case False
  with assms have "data = rest" "after = []"
    by (simp_all add: bytes_Cut_def)
  with False show ?thesis
    by (simp add: events_of_def split_lines_no_newline)
qed

lemma modelInitPhase_not_full: "fst (modelInitPhase L E b d) \<noteq> Inl ErrBatchFull"
  by (subst modelInitPhase.simps)
     (auto simp: Let_def adjustTimestamp_def NewLambdaSpan_def GetBytes_def
       split: sum.splits option.splits prod.splits)

lemma addData_not_full: "fst (addData L E b d t) \<noteq> Some ErrBatchFull"
  using modelInitPhase_not_full [of L E b d]
  by (subst addData.simps) (auto split: sum.splits prod.splits)

lemma drain_not_full: "fst (drain L E b rid inc rest) \<noteq> Some ErrBatchFull"
proof (induction "length rest" arbitrary: b inc rest rule: less_induct)
  case less
  obtain e b2 inc1 after where s: "drain_step L E b rid inc rest = (e, b2, inc1, after)"
    by (cases "drain_step L E b rid inc rest")
  from drain_step_elim [OF s] obtain data b1 where
    a: "addData L E b1 data (isTransactionEvent data) = (e, b2)"
    by blast
  with addData_not_full [of L E b1 data "isTransactionEvent data"] have e: "e \<noteq> Some ErrBatchFull"
    by simp
  show ?case
  proof (cases "e = None \<and> after \<noteq> []")
    case True
    with s have "length after < length rest"
      by (auto dest: drain_step_shorter)
    from less.hyps [OF this] True s show ?thesis
      by (subst drain_unfold) simp
  next
    case False
    with s e show ?thesis
      by (subst drain_unfold) (auto split: option.splits)
  qed
qed

lemma AddAgentData_full_only:
  assumes "fst (AddAgentData L E b apmData) = Some ErrBatchFull"
  shows "maxSize b \<le> int (count b) \<and> snd (AddAgentData L E b apmData) = b"
proof -
  have "GetUncompressedBytes L d enc \<noteq> Inl ErrBatchFull" for d enc
    by (auto simp: GetUncompressedBytes_def split: option.splits)
  with assms drain_not_full show ?thesis
    unfolding AddAgentData_def
    by (auto simp: Let_def split: sum.splits option.splits prod.splits if_splits)
qed

lemma drain_plain:
  assumes "metadataBytes b \<noteq> 0" and "\<not> f_ge_zero (coldstartDurationMs b)"
  shows "fst (drain L E b rid inc rest) = None \<and>
         buf (snd (drain L E b rid inc rest)) =
           buf b @ concat (map (\<lambda>l. newLineSep # l) (events_of rest)) \<and>
         count (snd (drain L E b rid inc rest)) = count b + length (events_of rest)"
  using assms
proof (induction "length rest" arbitrary: b inc rest rule: less_induct)
  case less
  obtain e b2 inc1 after where s: "drain_step L E b rid inc rest = (e, b2, inc1, after)"
    by (cases "drain_step L E b rid inc rest")
  from drain_step_elim [OF s] obtain data b1 where
    c: "bytes_Cut rest = (data, after)" and
    a: "addData L E b1 data (isTransactionEvent data) = (e, b2)" and
    b1: "b1 = b \<or> b1 = b\<lparr>invocations := (invocations b)(rid \<mapsto> inc1)\<rparr>"
    by blast
  from b1 less.prems have p1: "metadataBytes b1 \<noteq> 0" "\<not> f_ge_zero (coldstartDurationMs b1)"
    "buf b1 = buf b" "count b1 = count b"
    by auto
  have ev: "events_of rest = (if data = [] then [] else [data]) @ events_of after"
    using c by (rule events_of_Cut)
  have r: "e = None \<and> metadataBytes b2 \<noteq> 0 \<and> \<not> f_ge_zero (coldstartDurationMs b2) \<and>
        buf b2 = buf b @ concat (map (\<lambda>l. newLineSep # l) (if data = [] then [] else [data])) \<and>
        count b2 = count b + length (if data = [] then [] else [data])"
  proof (cases "data = []")
    case True
    with a p1 show ?thesis by (simp add: addData_empty)
  next
    case False
    with a p1 show ?thesis by (auto simp: addData_plain)
  qed
  show ?case
  proof (cases "after = []")
    case True
    then have "events_of after = []"
      by (simp add: events_of_def)
    with r s True ev show ?thesis
      by (subst (1 2 3) drain_unfold) simp
  next
    case False
    with s have "length after < length rest"
      by (auto dest: drain_step_shorter)
    from less.hyps [OF this, of b2 inc1] r
    have "fst (drain L E b2 rid inc1 after) = None \<and>
         buf (snd (drain L E b2 rid inc1 after)) =
           buf b2 @ concat (map (\<lambda>l. newLineSep # l) (events_of after)) \<and>
         count (snd (drain L E b2 rid inc1 after)) = count b2 + length (events_of after)"
      by simp
    with r s False ev show ?thesis
      by (subst (1 2 3) drain_unfold) simp
  qed
qed


lemma modelInitPhase_maxSize:
  "modelInitPhase L E (b\<lparr>maxSize := m\<rparr>) d =
     (fst (modelInitPhase L E b d), (snd (modelInitPhase L E b d))\<lparr>maxSize := m\<rparr>)"
  by (subst (1 2 3) modelInitPhase.simps)
     (auto simp: Let_def addData_False split: sum.splits prod.splits option.splits)

lemma addData_maxSize:
  "addData L E (b\<lparr>maxSize := m\<rparr>) d t =
     (fst (addData L E b d t), (snd (addData L E b d t))\<lparr>maxSize := m\<rparr>)"
  by (subst (1 2 3) addData.simps)
     (auto simp: modelInitPhase_maxSize split: sum.splits prod.splits)

lemma addData_maxSize_invocations:
  "addData L E (b\<lparr>maxSize := m, invocations := i\<rparr>) d t =
     (fst (addData L E (b\<lparr>invocations := i\<rparr>) d t),
      (snd (addData L E (b\<lparr>invocations := i\<rparr>) d t))\<lparr>maxSize := m\<rparr>)"
proof -
  have e: "b\<lparr>maxSize := m, invocations := i\<rparr> = (b\<lparr>invocations := i\<rparr>)\<lparr>maxSize := m\<rparr>"
    by simp
  show ?thesis
    unfolding e by (rule addData_maxSize)
qed

lemma drain_step_maxSize:
  "drain_step L E (b\<lparr>maxSize := m\<rparr>) rid inc rest =
     (case drain_step L E b rid inc rest of
        (e, b2, inc1, after) \<Rightarrow> (e, b2\<lparr>maxSize := m\<rparr>, inc1, after))"
  by (auto simp: drain_step_def Let_def addData_maxSize addData_maxSize_invocations
      split: prod.splits)

lemma drain_maxSize:
  "drain L E (b\<lparr>maxSize := m\<rparr>) rid inc rest =
     (fst (drain L E b rid inc rest), (snd (drain L E b rid inc rest))\<lparr>maxSize := m\<rparr>)"
proof (induction "length rest" arbitrary: b inc rest rule: less_induct)
  case less
  obtain e b2 inc1 after where s: "drain_step L E b rid inc rest = (e, b2, inc1, after)"
    by (cases "drain_step L E b rid inc rest")
  then have s': "drain_step L E (b\<lparr>maxSize := m\<rparr>) rid inc rest = (e, b2\<lparr>maxSize := m\<rparr>, inc1, after)"
    by (simp add: drain_step_maxSize)
  show ?case
  proof (cases "e = None \<and> after \<noteq> []")
    case True
    with s have "length after < length rest"
      by (auto dest: drain_step_shorter)
    from less.hyps [OF this, of b2 inc1] True s s' show ?thesis
      by (subst (1 2 3) drain_unfold) simp
  next
    case False
    with s s' show ?thesis
      by (subst (1 2 3) drain_unfold) (auto split: option.splits)
  qed
qed

lemma AddAgentData_plain:
  assumes "raw \<noteq> []" and "int (count b) < maxSize b"
    and "invocations b (currentlyExecutingRequestID b) = Some inc"
    and "currentlyExecutingRequestID b \<noteq> []"
    and "metadataBytes b \<noteq> 0" and "\<not> f_ge_zero (coldstartDurationMs b)"
  shows "fst (AddAgentData L E b \<lparr>Data = raw, ContentEncoding = []\<rparr>) = None \<and>
         buf (snd (AddAgentData L E b \<lparr>Data = raw, ContentEncoding = []\<rparr>)) =
           buf b @ concat (map (\<lambda>l. newLineSep # l) (events_of (snd (bytes_Cut raw)))) \<and>
         count (snd (AddAgentData L E b \<lparr>Data = raw, ContentEncoding = []\<rparr>)) =
           count b + length (events_of (snd (bytes_Cut raw)))"
proof -
  obtain data after where c: "bytes_Cut raw = (data, after)"
    by (cases "bytes_Cut raw")
  have "AddAgentData L E b \<lparr>Data = raw, ContentEncoding = []\<rparr> =
          drain L E b (currentlyExecutingRequestID b) inc after"
    using assms c by (simp add: AddAgentData_def GetUncompressedBytes_def)
  with drain_plain [OF assms(5,6), of L E "currentlyExecutingRequestID b" inc after] c
  show ?thesis
    by simp
qed


lemma isTransactionEvent_Nil: "\<not> isTransactionEvent []"
  by (simp add: isTransactionEvent_def transactionKey_def)

lemma entry_lines_simps:
  "entry_lines [] = []"
  "entry_lines (l # ls) = newLineSep # l @ entry_lines ls"
  "entry_lines (xs @ ys) = entry_lines xs @ entry_lines ys"
  by (simp_all add: entry_lines_def)

lemma coldstart_entries_cong:
  "coldstartDurationMs b1 = coldstartDurationMs b \<Longrightarrow>
   coldstart_entries L E b1 t trio = coldstart_entries L E b t trio"
  by (simp add: coldstart_entries_def spec_init_span_def spec_adjusted_transaction_def)

lemma coldstart_hit_cong:
  "coldstartDurationMs b1 = coldstartDurationMs b \<Longrightarrow> coldstart_hit b1 evs = coldstart_hit b evs"
  by (simp add: coldstart_hit_def)

lemma events_appended_cong:
  assumes "coldstartDurationMs b1 = coldstartDurationMs b" and "buf b1 = buf b"
    and "count b1 = count b"
  shows "events_appended L E b1 evs b' = events_appended L E b evs b'"
  unfolding events_appended_def coldstart_hit_cong [OF assms(1)]
    coldstart_entries_cong [OF assms(1)] assms(2,3) ..

lemma addData_trio:
  assumes "data \<noteq> []" and "metadataBytes b \<noteq> 0" and "f_ge_zero (coldstartDurationMs b)"
    and "addData L E b data True = (None, b')"
  shows "\<exists>trio. coldstart_entries L E b data trio \<and>
           b' = b\<lparr>coldstartDurationMs := Finite (- 1),
                  buf := buf b @ entry_lines trio,
                  age := (if count b = 0 then now E else age b),
                  count := count b + 3\<rparr>"
proof -
  from assms obtain tx b1 where mip: "modelInitPhase L E b data = (Inr tx, b1)"
    and b': "b' = b1\<lparr>buf := buf b1 @ [newLineSep] @ tx,
                     age := (if count b1 = 0 then now E else age b1),
                     count := count b1 + 1\<rparr>"
    by (auto simp: addData_coldstart split: prod.splits sum.splits)
  from modelInitPhase_success [OF mip assms(2)] obtain id1 id2 m1 m2 txID tr where
    r: "SpanID_UnmarshalJSON (quoted (gjson_String L data ''transaction.id'')) = Some txID"
      "TraceID_UnmarshalJSON (quoted (gjson_String L data ''transaction.trace_id'')) = Some tr"
      "cryptorand_Read E 0 = Some id1" "cryptorand_Read E 1 = Some id2"
      "Span_Marshal L (spec_init_span L b data id1 txID tr) = Some m1"
      "Span_Marshal L (spec_handle_span L data id2 txID tr) = Some m2"
      "spec_adjusted_transaction L b data = Some tx"
    and b1: "b1 = b\<lparr>coldstartDurationMs := Finite (- 1),
             buf := buf b @ [newLineSep] @ span_line m1 @ [newLineSep] @ span_line m2,
             age := (if count b = 0 then now E else age b),
             count := count b + 2\<rparr>"
    by blast
  let ?trio = "[span_line m1, span_line m2, tx]"
  from r have "coldstart_entries L E b data ?trio"
    unfolding coldstart_entries_def by blast
  moreover have "b' = b\<lparr>coldstartDurationMs := Finite (- 1),
                  buf := buf b @ entry_lines ?trio,
                  age := (if count b = 0 then now E else age b),
                  count := count b + 3\<rparr>"
    unfolding b' b1 by (simp add: entry_lines_def)
  ultimately show ?thesis
    by blast
qed

lemma events_appended_cons_plain:
  assumes np: "\<not> (isTransactionEvent data \<and> f_ge_zero (coldstartDurationMs b))"
    and c: "coldstartDurationMs b2 = coldstartDurationMs b"
    and bf: "buf b2 = buf b @ newLineSep # data" and ct: "count b2 = count b + 1"
    and ih: "events_appended L E b2 evs b'"
  shows "events_appended L E b (data # evs) b'"
proof -
  have hit: "coldstart_hit b (data # evs) = coldstart_hit b2 evs"
    using np c by (auto simp: coldstart_hit_def)
  show ?thesis
  proof (cases "coldstart_hit b2 evs")
    case False
    with ih hit bf ct show ?thesis
      by (simp add: events_appended_def entry_lines_simps)
  next
    case True
    with ih obtain pre t post trio where
      e: "evs = pre @ t # post" "\<forall>e\<in>set pre. \<not> isTransactionEvent e" "isTransactionEvent t"
        "coldstart_entries L E b2 t trio"
        "buf b' = buf b2 @ entry_lines (pre @ trio @ post)"
      and n: "count b' = count b2 + length evs + 2"
      unfolding events_appended_def by auto
    from True have "f_ge_zero (coldstartDurationMs b)"
      by (simp add: coldstart_hit_def c)
    with np have nd: "\<not> isTransactionEvent data"
      by simp
    have "data # evs = (data # pre) @ t # post"
      using e(1) by simp
    moreover have "\<forall>e\<in>set (data # pre). \<not> isTransactionEvent e"
      using e(2) nd by simp
    moreover have "coldstart_entries L E b t trio"
      using e(4) by (simp add: coldstart_entries_cong [OF c])
    moreover have "buf b' = buf b @ entry_lines ((data # pre) @ trio @ post)"
      using e(5) bf by (simp add: entry_lines_simps)
    ultimately have "\<exists>pre t post trio.
            data # evs = pre @ t # post \<and> (\<forall>e\<in>set pre. \<not> isTransactionEvent e) \<and>
            isTransactionEvent t \<and> coldstart_entries L E b t trio \<and>
            buf b' = buf b @ entry_lines (pre @ trio @ post)"
      using e(3) by blast
    with True hit n ct show ?thesis
      by (simp add: events_appended_def)
  qed
qed

lemma events_appended_cons_hit:
  assumes "isTransactionEvent data" and "f_ge_zero (coldstartDurationMs b)"
    and "coldstart_entries L E b data trio"
    and "buf b' = buf b @ entry_lines trio @ entry_lines post"
    and "count b' = count b + 3 + length post"
  shows "events_appended L E b (data # post) b'"
proof -
  have hit: "coldstart_hit b (data # post)"
    using assms(1,2) by (simp add: coldstart_hit_def)
  have "data # post = [] @ data # post \<and> (\<forall>e\<in>set []. \<not> isTransactionEvent e) \<and>
      isTransactionEvent data \<and> coldstart_entries L E b data trio \<and>
      buf b' = buf b @ entry_lines ([] @ trio @ post)"
    using assms by (simp add: entry_lines_simps)
  then have "\<exists>pre t post' trio.
            data # post = pre @ t # post' \<and> (\<forall>e\<in>set pre. \<not> isTransactionEvent e) \<and>
            isTransactionEvent t \<and> coldstart_entries L E b t trio \<and>
            buf b' = buf b @ entry_lines (pre @ trio @ post')"
    by blast
  with hit assms(5) show ?thesis
    by (simp add: events_appended_def)
qed

lemma events_appended_Nil:
  "buf b' = buf b \<Longrightarrow> count b' = count b \<Longrightarrow> events_appended L E b [] b'"
  by (simp add: events_appended_def coldstart_hit_def entry_lines_simps)

lemma drain_success:
  assumes "fst (drain L E b rid inc rest) = None"
  shows "events_appended L E b (events_of rest) (snd (drain L E b rid inc rest))"
  using assms
proof (induction "length rest" arbitrary: b inc rest rule: less_induct)
  case less
  obtain e b2 inc1 after where s: "drain_step L E b rid inc rest = (e, b2, inc1, after)"
    by (cases "drain_step L E b rid inc rest")
  from drain_step_elim [OF s] obtain data b1 where
    c: "bytes_Cut rest = (data, after)" and
    a: "addData L E b1 data (isTransactionEvent data) = (e, b2)" and
    b1: "b1 = b \<or> b1 = b\<lparr>invocations := (invocations b)(rid \<mapsto> inc1)\<rparr>"
    by blast
  from b1 have p1: "metadataBytes b1 = metadataBytes b"
    "coldstartDurationMs b1 = coldstartDurationMs b" "buf b1 = buf b" "count b1 = count b"
    by auto
  have ev: "events_of rest = (if data = [] then [] else [data]) @ events_of after"
    using c by (rule events_of_Cut)
  from less.prems s have e: "e = None"
    by (subst (asm) drain_unfold) (auto split: option.splits)
  let ?b' = "snd (drain L E b rid inc rest)"
  have d: "drain L E b rid inc rest = (if after = [] then (None, b2) else drain L E b2 rid inc1 after)"
    using s e by (subst drain_unfold) simp
  have tail: "events_appended L E b2 (events_of after) ?b'"
  proof (cases "after = []")
    case True
    then have "events_of after = []"
      by (simp add: events_of_def)
    with True d show ?thesis
      by (simp add: events_appended_Nil)
  next
    case False
    with s have "length after < length rest"
      by (auto dest: drain_step_shorter)
    moreover from less.prems d False have "fst (drain L E b2 rid inc1 after) = None"
      by simp
    ultimately have "events_appended L E b2 (events_of after) (snd (drain L E b2 rid inc1 after))"
      by (rule less.hyps)
    with d False show ?thesis
      by simp
  qed
  show ?case
  proof (cases "data = []")
    case True
    with a have "b2 = b1"
      by (simp add: addData_empty)
    with tail p1 have "events_appended L E b (events_of after) ?b'"
      by (simp add: events_appended_cong [of b1 b])
    with ev True show ?thesis
      by simp
  next
    case False
    have md: "metadataBytes b1 \<noteq> 0"
    proof
      assume "metadataBytes b1 = 0"
      with False a e show False
        by (simp add: addData_no_metadata)
    qed
    show ?thesis
    proof (cases "isTransactionEvent data \<and> f_ge_zero (coldstartDurationMs b)")
      case np: False
      with False md a p1 have b2: "b2 = b1\<lparr>buf := buf b1 @ [newLineSep] @ data,
               age := (if count b1 = 0 then now E else age b1),
               count := count b1 + 1\<rparr>"
        by (simp add: addData_plain)
      have "events_appended L E b (data # events_of after) ?b'"
      proof (rule events_appended_cons_plain [OF np _ _ _ tail])
        show "coldstartDurationMs b2 = coldstartDurationMs b"
          by (simp add: b2 p1)
        show "buf b2 = buf b @ newLineSep # data"
          by (simp add: b2 p1)
        show "count b2 = count b + 1"
          by (simp add: b2 p1)
      qed
      with ev False show ?thesis
        by simp
    next
      case hit: True
      with a e have a': "addData L E b1 data True = (None, b2)"
        by simp
      from hit p1 have g: "f_ge_zero (coldstartDurationMs b1)"
        by simp
      from addData_trio [OF False md g a'] obtain trio where
        t: "coldstart_entries L E b1 data trio" and
        b2: "b2 = b1\<lparr>coldstartDurationMs := Finite (- 1),
                  buf := buf b1 @ entry_lines trio,
                  age := (if count b1 = 0 then now E else age b1),
                  count := count b1 + 3\<rparr>"
        by blast
      have nc: "\<not> coldstart_hit b2 (events_of after)"
        by (simp add: coldstart_hit_def b2)
      with tail have tb: "buf ?b' = buf b2 @ entry_lines (events_of after)"
        and tc: "count ?b' = count b2 + length (events_of after)"
        by (simp_all add: events_appended_def)
      have "events_appended L E b (data # events_of after) ?b'"
      proof (rule events_appended_cons_hit)
        show "isTransactionEvent data" and "f_ge_zero (coldstartDurationMs b)"
          using hit by simp_all
        show "coldstart_entries L E b data trio"
          using t by (simp add: coldstart_entries_cong [OF p1(2)])
        show "buf ?b' = buf b @ entry_lines trio @ entry_lines (events_of after)"
          using tb by (simp add: b2 p1)
        show "count ?b' = count b + 3 + length (events_of after)"
          using tc by (simp add: b2 p1)
      qed
      with ev False show ?thesis
        by simp
    qed
  qed
qed


lemma drain_no_hit_succeeds:
  assumes "metadataBytes b \<noteq> 0 \<or> events_of rest = []"
    and "\<not> coldstart_hit b (events_of rest)"
  shows "fst (drain L E b rid inc rest) = None"
  using assms
proof (induction "length rest" arbitrary: b inc rest rule: less_induct)
  case less
  obtain e b2 inc1 after where s: "drain_step L E b rid inc rest = (e, b2, inc1, after)"
    by (cases "drain_step L E b rid inc rest")
  from drain_step_elim [OF s] obtain data b1 where
    c: "bytes_Cut rest = (data, after)" and
    a: "addData L E b1 data (isTransactionEvent data) = (e, b2)" and
    b1: "b1 = b \<or> b1 = b\<lparr>invocations := (invocations b)(rid \<mapsto> inc1)\<rparr>"
    by blast
  from b1 have p1: "metadataBytes b1 = metadataBytes b"
    "coldstartDurationMs b1 = coldstartDurationMs b"
    by auto
  have ev: "events_of rest = (if data = [] then [] else [data]) @ events_of after"
    using c by (rule events_of_Cut)
  have r: "e = None \<and> metadataBytes b2 = metadataBytes b \<and>
        coldstartDurationMs b2 = coldstartDurationMs b"
  proof (cases "data = []")
    case True
    with a p1 show ?thesis
      by (simp add: addData_empty)
  next
    case False
    with less.prems(1) ev have md: "metadataBytes b1 \<noteq> 0"
      by (simp add: p1)
    from less.prems(2) ev False
    have "\<not> (isTransactionEvent data \<and> f_ge_zero (coldstartDurationMs b1))"
      by (auto simp: coldstart_hit_def p1)
    with False md a p1 show ?thesis
      by (auto simp: addData_plain)
  qed
  show ?case
  proof (cases "after = []")
    case True
    with s r show ?thesis
      by (subst drain_unfold) simp
  next
    case False
    with s have "length after < length rest"
      by (auto dest: drain_step_shorter)
    moreover have "metadataBytes b2 \<noteq> 0 \<or> events_of after = []"
      using less.prems(1) r ev by auto
    moreover have "\<not> coldstart_hit b2 (events_of after)"
      using less.prems(2) r ev by (auto simp: coldstart_hit_def)
    ultimately have "fst (drain L E b2 rid inc1 after) = None"
      by (rule less.hyps)
    with s r False show ?thesis
      by (subst drain_unfold) simp
  qed
qed

lemma drain_no_metadata:
  assumes "metadataBytes b = 0" and "events_of rest \<noteq> []"
  shows "fst (drain L E b rid inc rest) = Some ErrMetadataUnavailable \<and>
         buf (snd (drain L E b rid inc rest)) = buf b \<and>
         count (snd (drain L E b rid inc rest)) = count b"
  using assms
proof (induction "length rest" arbitrary: b inc rest rule: less_induct)
  case less
  obtain e b2 inc1 after where s: "drain_step L E b rid inc rest = (e, b2, inc1, after)"
    by (cases "drain_step L E b rid inc rest")
  from drain_step_elim [OF s] obtain data b1 where
    c: "bytes_Cut rest = (data, after)" and
    a: "addData L E b1 data (isTransactionEvent data) = (e, b2)" and
    b1: "b1 = b \<or> b1 = b\<lparr>invocations := (invocations b)(rid \<mapsto> inc1)\<rparr>"
    by blast
  from b1 less.prems(1) have p1: "metadataBytes b1 = 0" "buf b1 = buf b" "count b1 = count b"
    by auto
  have ev: "events_of rest = (if data = [] then [] else [data]) @ events_of after"
    using c by (rule events_of_Cut)
  show ?case
  proof (cases "data = []")
    case True
    with a p1 have r: "e = None" "b2 = b1"
      by (simp_all add: addData_empty)
    from True ev less.prems(2) have ne: "events_of after \<noteq> []"
      by simp
    then have an: "after \<noteq> []"
      by (auto simp: events_of_def)
    with s have "length after < length rest"
      by (auto dest: drain_step_shorter)
    moreover have "metadataBytes b2 = 0"
      using r p1 by simp
    ultimately have "fst (drain L E b2 rid inc1 after) = Some ErrMetadataUnavailable \<and>
         buf (snd (drain L E b2 rid inc1 after)) = buf b2 \<and>
         count (snd (drain L E b2 rid inc1 after)) = count b2"
      using ne by (rule less.hyps)
    with s r an p1 show ?thesis
      by (subst (1 2 3) drain_unfold) simp
  next
    case False
    with a p1 have "e = Some ErrMetadataUnavailable" "b2 = b1"
      by (simp_all add: addData_no_metadata)
    with s p1 show ?thesis
      by (subst (1 2 3) drain_unfold) simp
  qed
qed

lemma AddAgentData_accepted:
  assumes "accepted L b apmData raw"
  shows "\<exists>inc. invocations b (currentlyExecutingRequestID b) = Some inc \<and>
     AddAgentData L E b apmData =
       drain L E (adopt_metadata b raw) (currentlyExecutingRequestID b) inc (snd (bytes_Cut raw))"
  using assms
  by (auto simp: accepted_def AddAgentData_def adopt_metadata_def Let_def split: prod.splits)

lemma AddAgentData_maxSize:
  assumes "int (count b) < maxSize b" and "int (count b) < m"
  shows "AddAgentData L E (b\<lparr>maxSize := m\<rparr>) apmData =
     (fst (AddAgentData L E b apmData), (snd (AddAgentData L E b apmData))\<lparr>maxSize := m\<rparr>)"
proof -
  have e: "b\<lparr>maxSize := m, metadataBytes := n, buf := x\<rparr> =
      (b\<lparr>metadataBytes := n, buf := x\<rparr>)\<lparr>maxSize := m\<rparr>" for n x
    by simp
  show ?thesis
    using assms unfolding AddAgentData_def
    by (auto simp: Let_def e drain_maxSize simp del: Batch.update_convs
        split: sum.splits option.splits prod.splits)
qed

lemma adopt_metadata_fields:
  "count (adopt_metadata b raw) = count b"
  "coldstartDurationMs (adopt_metadata b raw) = coldstartDurationMs b"
  "metadataBytes (adopt_metadata b raw) \<noteq> 0 \<longleftrightarrow> metadataBytes b \<noteq> 0 \<or> fst (bytes_Cut raw) \<noteq> []"
  by (simp_all add: adopt_metadata_def)

text \<open>
  C3, as amended.  \<open>AddLambdaData\<close> on a batch whose count has reached \<open>maxSize\<close> returns
  \<open>ErrBatchFull\<close> and leaves the batch as it is.  \<open>AddAgentData\<close> returns \<open>ErrBatchFull\<close>
  only when the count had reached \<open>maxSize\<close> at the call, and then the batch is unchanged
  (and it does return it there, for a payload that is not empty and can be decoded).  The
  loop never looks at \<open>maxSize\<close>: with any other limit above the count the call returns
  the same error and the same batch.  When an accepted call returns without an error,
  every event of the payload was appended, in order, whatever \<open>maxSize\<close> is: on a first
  payload, with any encoding, and with a cold start pending, where the first transaction
  is written as its three entries.  With no cold start to hit the call does return
  without an error, unless no metadata line is set and the first line of the payload is
  empty: then the first event is refused with \<open>ErrMetadataUnavailable\<close> and nothing is
  appended.
\<close>

theorem batch_full_refusal:
  "(maxSize b \<le> int (count b) \<longrightarrow> AddLambdaData L E b d = (Some ErrBatchFull, b)) \<and>
   (fst (AddAgentData L E b apmData) = Some ErrBatchFull \<longrightarrow>
      maxSize b \<le> int (count b) \<and> snd (AddAgentData L E b apmData) = b) \<and>
   (maxSize b \<le> int (count b) \<and> Data apmData \<noteq> [] \<and>
    GetUncompressedBytes L (Data apmData) (ContentEncoding apmData) = Inr raw \<longrightarrow>
      AddAgentData L E b apmData = (Some ErrBatchFull, b)) \<and>
   (int (count b) < maxSize b \<and> int (count b) < m \<longrightarrow>
      AddAgentData L E (b\<lparr>maxSize := m\<rparr>) apmData =
        (fst (AddAgentData L E b apmData), (snd (AddAgentData L E b apmData))\<lparr>maxSize := m\<rparr>)) \<and>
   (accepted L b apmData raw \<and> fst (AddAgentData L E b apmData) = None \<longrightarrow>
      events_appended L E (adopt_metadata b raw) (payload_events raw)
        (snd (AddAgentData L E b apmData))) \<and>
   (accepted L b apmData raw \<and> \<not> coldstart_hit b (payload_events raw) \<and>
    (metadataBytes b \<noteq> 0 \<or> fst (bytes_Cut raw) \<noteq> [] \<or> payload_events raw = []) \<longrightarrow>
      fst (AddAgentData L E b apmData) = None) \<and>
   (accepted L b apmData raw \<and> metadataBytes b = 0 \<and> fst (bytes_Cut raw) = [] \<and>
    payload_events raw \<noteq> [] \<longrightarrow>
      fst (AddAgentData L E b apmData) = Some ErrMetadataUnavailable \<and>
      buf (snd (AddAgentData L E b apmData)) = buf b \<and>
      count (snd (AddAgentData L E b apmData)) = count b)"
proof (intro conjI impI)
  assume "maxSize b \<le> int (count b)"
  then show "AddLambdaData L E b d = (Some ErrBatchFull, b)"
    by (simp add: AddLambdaData_def)
next
  assume "fst (AddAgentData L E b apmData) = Some ErrBatchFull"
  then show "maxSize b \<le> int (count b)" and "snd (AddAgentData L E b apmData) = b"
    by (simp_all add: AddAgentData_full_only)
next
  assume "maxSize b \<le> int (count b) \<and> Data apmData \<noteq> [] \<and>
    GetUncompressedBytes L (Data apmData) (ContentEncoding apmData) = Inr raw"
  then show "AddAgentData L E b apmData = (Some ErrBatchFull, b)"
    by (simp add: AddAgentData_def)
next
  assume "int (count b) < maxSize b \<and> int (count b) < m"
  then show "AddAgentData L E (b\<lparr>maxSize := m\<rparr>) apmData =
        (fst (AddAgentData L E b apmData), (snd (AddAgentData L E b apmData))\<lparr>maxSize := m\<rparr>)"
    by (simp add: AddAgentData_maxSize)
next
  assume h: "accepted L b apmData raw \<and> fst (AddAgentData L E b apmData) = None"
  then obtain inc where
    "AddAgentData L E b apmData =
       drain L E (adopt_metadata b raw) (currentlyExecutingRequestID b) inc (snd (bytes_Cut raw))"
    using AddAgentData_accepted [of L b apmData raw E] by blast
  with h drain_success [of L E "adopt_metadata b raw" "currentlyExecutingRequestID b" inc
      "snd (bytes_Cut raw)"]
  show "events_appended L E (adopt_metadata b raw) (payload_events raw)
        (snd (AddAgentData L E b apmData))"
    by (simp add: payload_events_def)
next
  assume h: "accepted L b apmData raw \<and> \<not> coldstart_hit b (payload_events raw) \<and>
    (metadataBytes b \<noteq> 0 \<or> fst (bytes_Cut raw) \<noteq> [] \<or> payload_events raw = [])"
  then obtain inc where
    d: "AddAgentData L E b apmData =
       drain L E (adopt_metadata b raw) (currentlyExecutingRequestID b) inc (snd (bytes_Cut raw))"
    using AddAgentData_accepted [of L b apmData raw E] by blast
  have "fst (drain L E (adopt_metadata b raw) (currentlyExecutingRequestID b) inc
              (snd (bytes_Cut raw))) = None"
  proof (rule drain_no_hit_succeeds)
    show "metadataBytes (adopt_metadata b raw) \<noteq> 0 \<or> events_of (snd (bytes_Cut raw)) = []"
      using h by (auto simp: adopt_metadata_def payload_events_def)
    show "\<not> coldstart_hit (adopt_metadata b raw) (events_of (snd (bytes_Cut raw)))"
      using h by (simp add: coldstart_hit_def adopt_metadata_fields payload_events_def)
  qed
  with d show "fst (AddAgentData L E b apmData) = None"
    by simp
next
  assume h: "accepted L b apmData raw \<and> metadataBytes b = 0 \<and> fst (bytes_Cut raw) = [] \<and>
    payload_events raw \<noteq> []"
  then obtain inc where
    d: "AddAgentData L E b apmData =
       drain L E (adopt_metadata b raw) (currentlyExecutingRequestID b) inc (snd (bytes_Cut raw))"
    using AddAgentData_accepted [of L b apmData raw E] by blast
  from h have a: "adopt_metadata b raw = b"
    by (simp add: adopt_metadata_def)
  from drain_no_metadata [of b "snd (bytes_Cut raw)" L E "currentlyExecutingRequestID b" inc] h
  have "fst (drain L E b (currentlyExecutingRequestID b) inc (snd (bytes_Cut raw))) =
          Some ErrMetadataUnavailable \<and>
        buf (snd (drain L E b (currentlyExecutingRequestID b) inc (snd (bytes_Cut raw)))) = buf b \<and>
        count (snd (drain L E b (currentlyExecutingRequestID b) inc (snd (bytes_Cut raw)))) = count b"
    by (simp add: payload_events_def)
  with d a show "fst (AddAgentData L E b apmData) = Some ErrMetadataUnavailable"
    and "buf (snd (AddAgentData L E b apmData)) = buf b"
    and "count (snd (AddAgentData L E b apmData)) = count b"
    by simp_all
qed


lemma three_events_cut: "snd (bytes_Cut three_events) = abc_lines"
  using bytes_Cut_append [OF sample_no_newline(1), of abc_lines]
  by (simp add: three_events_def)

lemma three_events_of: "events_of abc_lines = [''{a}'', ''{b}'', ''{c}'']"
  by (simp add: events_of_def newLineSep_def abc_lines_def)

lemma first_batch_fields:
  "count first_batch = 0" "maxSize first_batch = 1" "metadataBytes first_batch = 0"
  "buf first_batch = []" "currentlyExecutingRequestID first_batch = ''A''"
  "invocations first_batch ''A'' \<noteq> None" "coldstartDurationMs first_batch = Finite (- 1)"
  by (simp_all add: first_batch_def RegisterInvocation_def NewBatch_def Let_def)

lemma three_events_first: "fst (bytes_Cut three_events) = sample_metadata"
  using bytes_Cut_append [OF sample_no_newline(1), of abc_lines]
  by (simp add: three_events_def)

lemma sample_tx_no_newline: "newLineSep \<notin> set sample_tx" "sample_tx \<noteq> []"
  by (simp_all add: sample_tx_def newLineSep_def)

lemma sample_tx_is_transaction: "isTransactionEvent sample_tx"
  by (simp add: isTransactionEvent_def sample_tx_def transactionKey_def compare_from.simps)

lemma coldstart_payload_cut:
  "bytes_Cut coldstart_payload = (sample_metadata, sample_tx)"
  using bytes_Cut_append [OF sample_no_newline(1), of sample_tx]
  by (simp add: coldstart_payload_def)

lemma coldstart_payload_events: "payload_events coldstart_payload = [sample_tx]"
  using events_of_Cut [OF bytes_Cut_no_newline [OF sample_tx_no_newline(1)]]
  by (simp add: payload_events_def coldstart_payload_cut sample_tx_no_newline events_of_def)

lemma coldstart_small_fields:
  "count coldstart_small_batch = 0" "maxSize coldstart_small_batch = 1"
  "metadataBytes coldstart_small_batch \<noteq> 0"
  "currentlyExecutingRequestID coldstart_small_batch = ''A''"
  "invocations coldstart_small_batch ''A'' =
     Some (empty_Invocation\<lparr>RequestID := ''A'', DeadlineMs := 10000, Timestamp := 0\<rparr>)"
  "coldstartDurationMs coldstart_small_batch = Finite 100"
  by (simp_all add: coldstart_small_batch_def OnPlatformInitReport_def sample_batch_def
      sample_metadata_def)

lemma coldstart_small_run:
  "fst (AddAgentData sample_lib sample_env coldstart_small_batch
          \<lparr>Data = coldstart_payload, ContentEncoding = []\<rparr>) = None"
proof -
  let ?inc = "empty_Invocation\<lparr>RequestID := ''A'', DeadlineMs := 10000, Timestamp := 0\<rparr>"
  let ?b0 = "OnPlatformInitReport sample_batch ''A'' (Finite 100)"
  have ne: "coldstart_payload \<noteq> []"
    by (simp add: coldstart_payload_def)
  have a: "AddAgentData sample_lib sample_env coldstart_small_batch
          \<lparr>Data = coldstart_payload, ContentEncoding = []\<rparr> =
        drain sample_lib sample_env coldstart_small_batch ''A'' ?inc sample_tx"
    using ne by (simp add: AddAgentData_def GetUncompressedBytes_def coldstart_small_fields
        coldstart_payload_cut)
  have np: "\<not> NeedProxyTransaction ?inc"
    by (simp add: NeedProxyTransaction_def empty_Invocation_def)
  have ad: "fst (addData sample_lib sample_env coldstart_small_batch sample_tx True) = None"
    unfolding coldstart_small_batch_def addData_maxSize by (simp add: sample_coldstart_run)
  have "fst (drain sample_lib sample_env coldstart_small_batch ''A'' ?inc sample_tx) = None"
    using np ad sample_tx_is_transaction
    by (subst drain_unfold)
       (auto simp: drain_step_def bytes_Cut_no_newline [OF sample_tx_no_newline(1)] Let_def
         split: prod.splits option.splits)
  with a show ?thesis
    by simp
qed

theorem batch_full_refusal_witness:
  "accepted sample_lib first_batch \<lparr>Data = three_events, ContentEncoding = []\<rparr> three_events \<and>
   maxSize first_batch = 1 \<and> metadataBytes first_batch = 0 \<and>
   fst (bytes_Cut three_events) = sample_metadata \<and>
   payload_events three_events = [''{a}'', ''{b}'', ''{c}''] \<and>
   fst (AddAgentData sample_lib sample_env first_batch
          \<lparr>Data = three_events, ContentEncoding = []\<rparr>) = None \<and>
   count (snd (AddAgentData sample_lib sample_env first_batch
          \<lparr>Data = three_events, ContentEncoding = []\<rparr>)) = 3 \<and>
   buf (snd (AddAgentData sample_lib sample_env first_batch
          \<lparr>Data = three_events, ContentEncoding = []\<rparr>)) =
     sample_metadata @ [newLineSep] @ ''{a}'' @ [newLineSep] @ ''{b}'' @ [newLineSep] @ ''{c}'' \<and>
   accepted sample_lib coldstart_small_batch
     \<lparr>Data = coldstart_payload, ContentEncoding = []\<rparr> coldstart_payload \<and>
   maxSize coldstart_small_batch = 1 \<and>
   coldstart_hit coldstart_small_batch (payload_events coldstart_payload) \<and>
   fst (AddAgentData sample_lib sample_env coldstart_small_batch
          \<lparr>Data = coldstart_payload, ContentEncoding = []\<rparr>) = None \<and>
   count (snd (AddAgentData sample_lib sample_env coldstart_small_batch
          \<lparr>Data = coldstart_payload, ContentEncoding = []\<rparr>)) = 3 \<and>
   maxSize full_batch \<le> int (count full_batch) \<and>
   AddLambdaData sample_lib sample_env full_batch ''{x}'' = (Some ErrBatchFull, full_batch)"
proof -
  let ?apm = "\<lparr>Data = three_events, ContentEncoding = []\<rparr>"
  let ?r = "AddAgentData sample_lib sample_env first_batch ?apm"
  let ?capm = "\<lparr>Data = coldstart_payload, ContentEncoding = []\<rparr>"
  let ?cr = "AddAgentData sample_lib sample_env coldstart_small_batch ?capm"
  have acc: "accepted sample_lib first_batch ?apm three_events"
    by (simp add: accepted_def GetUncompressedBytes_def first_batch_fields three_events_def
        sample_metadata_def)
  have ev: "payload_events three_events = [''{a}'', ''{b}'', ''{c}'']"
    by (simp add: payload_events_def three_events_cut three_events_of)
  have nt: "\<not> isTransactionEvent ''{a}''" "\<not> isTransactionEvent ''{b}''"
    "\<not> isTransactionEvent ''{c}''"
    by (simp_all add: isTransactionEvent_def transactionKey_def)
  have nh: "\<not> coldstart_hit first_batch (payload_events three_events)"
    by (simp add: coldstart_hit_def first_batch_fields)
  have fm: "fst (bytes_Cut three_events) \<noteq> []"
    by (simp add: three_events_first sample_nonempty)
  note t = batch_full_refusal [where L = sample_lib and E = sample_env and b = first_batch
      and apmData = ?apm and raw = three_events]
  from t acc nh fm have ok: "fst ?r = None"
    by blast
  with t acc have "events_appended sample_lib sample_env (adopt_metadata first_batch three_events)
      (payload_events three_events) (snd ?r)"
    by blast
  with nh have "count (snd ?r) = 3"
    and "buf (snd ?r) =
      sample_metadata @ [newLineSep] @ ''{a}'' @ [newLineSep] @ ''{b}'' @ [newLineSep] @ ''{c}''"
    by (simp_all add: events_appended_def coldstart_hit_def adopt_metadata_def
        first_batch_fields three_events_first ev entry_lines_def)
  note first = acc first_batch_fields(2,3) three_events_first ev ok this
  have cacc: "accepted sample_lib coldstart_small_batch ?capm coldstart_payload"
    by (simp add: accepted_def GetUncompressedBytes_def coldstart_small_fields
        coldstart_payload_def)
  have ch: "coldstart_hit coldstart_small_batch (payload_events coldstart_payload)"
    by (simp add: coldstart_hit_def coldstart_payload_events coldstart_small_fields
        sample_tx_is_transaction)
  have cok: "fst ?cr = None"
    by (rule coldstart_small_run)
  note c = batch_full_refusal [where L = sample_lib and E = sample_env
      and b = coldstart_small_batch and apmData = ?capm and raw = coldstart_payload]
  from c cacc cok have "events_appended sample_lib sample_env
      (adopt_metadata coldstart_small_batch coldstart_payload)
      (payload_events coldstart_payload) (snd ?cr)"
    by blast
  with ch have cc: "count (snd ?cr) = 3"
    by (simp add: events_appended_def coldstart_hit_def adopt_metadata_def
        coldstart_small_fields coldstart_payload_events)
  have fb: "maxSize full_batch \<le> int (count full_batch)"
    by (simp add: full_batch_def small_batch_def ready_batch_def)
  with batch_full_refusal [where L = sample_lib and E = sample_env and b = full_batch
      and d = "''{x}''"]
  have "AddLambdaData sample_lib sample_env full_batch ''{x}'' = (Some ErrBatchFull, full_batch)"
    by blast
  with first cacc coldstart_small_fields(2) ch cok cc fb show ?thesis
    by blast
qed

text \<open>
  The claim as it stands has every event of a payload appended once the loop has begun.
  A first payload whose first line is empty sets no metadata line, and its first event is
  refused: nothing is appended, though the batch is far from full.
\<close>

theorem blank_first_line_counterexample:
  "metadataBytes fresh_batch = 0 \<and> count fresh_batch = 0 \<and> maxSize fresh_batch = 10 \<and>
   accepted sample_lib fresh_batch \<lparr>Data = blank_first_line, ContentEncoding = []\<rparr>
     blank_first_line \<and>
   payload_events blank_first_line = [''{a}''] \<and>
   AddAgentData sample_lib sample_env fresh_batch
     \<lparr>Data = blank_first_line, ContentEncoding = []\<rparr> =
   (Some ErrMetadataUnavailable, fresh_batch)"
proof -
  let ?inc = "empty_Invocation\<lparr>RequestID := ''A'', FunctionARN := ''arn'', DeadlineMs := 10,
      Timestamp := 0\<rparr>"
  have f: "metadataBytes fresh_batch = 0" "count fresh_batch = 0" "maxSize fresh_batch = 10"
    "currentlyExecutingRequestID fresh_batch = ''A''" "invocations fresh_batch ''A'' = Some ?inc"
    "buf fresh_batch = []"
    by (simp_all add: fresh_batch_def RegisterInvocation_def NewBatch_def Let_def)
  have c: "bytes_Cut blank_first_line = ([], ''{a}'')"
    using bytes_Cut_append [of "[]" "''{a}''"] by (simp add: blank_first_line_def)
  have c2: "bytes_Cut ''{a}'' = (''{a}'', [])"
    by (rule bytes_Cut_no_newline) (simp add: newLineSep_def)
  have acc: "accepted sample_lib fresh_batch \<lparr>Data = blank_first_line, ContentEncoding = []\<rparr>
     blank_first_line"
    by (simp add: accepted_def GetUncompressedBytes_def f blank_first_line_def)
  have ev: "payload_events blank_first_line = [''{a}'']"
    by (simp add: payload_events_def c events_of_def newLineSep_def)
  have nt: "\<not> isTransactionEvent ''{a}''"
    by (simp add: isTransactionEvent_def transactionKey_def)
  have ne: "blank_first_line \<noteq> []"
    by (simp add: blank_first_line_def)
  have e: "fresh_batch\<lparr>metadataBytes := 0, buf := []\<rparr> = fresh_batch"
    using f by simp
  have "AddAgentData sample_lib sample_env fresh_batch
     \<lparr>Data = blank_first_line, ContentEncoding = []\<rparr> =
     drain sample_lib sample_env fresh_batch ''A'' ?inc ''{a}''"
    using ne by (simp add: AddAgentData_def GetUncompressedBytes_def f c e)
  also have "\<dots> = (Some ErrMetadataUnavailable, fresh_batch)"
    using nt f(1)
    by (subst drain_unfold) (simp add: drain_step_def c2 Let_def addData_no_metadata)
  finally show ?thesis
    using f acc ev by simp
qed


section \<open>The buffer is newline-delimited JSON\<close>






































section \<open>When to ship\<close>

text \<open>
  Integers below \<open>2 ^ 53\<close> are \<open>float64\<close> values.  The product with the constant
  \<open>8106479329266893 / 2 ^ 53\<close> exceeds nine tenths of \<open>n\<close> by \<open>n / (5 * 2 ^ 53)\<close>.
\<close>

lemma float64_of_int_exact: "\<bar>n\<bar> < 2 ^ 53 \<Longrightarrow> float64_of_int n = (n, 0)"
proof -
  assume a: "\<bar>n\<bar> < 2 ^ 53"
  have "bitlen \<bar>n\<bar> \<le> 53"
    using a by (simp add: bitlen_le_iff_power)
  then show ?thesis
    by (simp add: float64_of_int_def f64_round_def)
qed

lemma exact_quotient:
  fixes n :: int
  assumes "0 \<le> n" and "n < 2 ^ 52"
  shows "(n * 8106479329266893) div 2 ^ 53 = (9 * n) div 10"
    and "10 * ((n * 8106479329266893) mod 2 ^ 53) = ((9 * n) mod 10) * 2 ^ 53 + 2 * n"
proof -
  define a where "a = (9 * n) div 10"
  define t where "t = (9 * n) mod 10"
  have n9: "9 * n = 10 * a + t" and t: "0 \<le> t" "t \<le> 9"
    by (simp_all add: a_def t_def)
  define r where "r = n * 8106479329266893 - a * 9007199254740992"
  have r10: "10 * r = t * 9007199254740992 + 2 * n"
    using n9 by (simp add: r_def algebra_simps)
  have r0: "0 \<le> r" and r1: "r < 9007199254740992"
    using r10 t assms by simp_all
  have eq: "n * 8106479329266893 = 9007199254740992 * a + r"
    by (simp add: r_def)
  have d: "(n * 8106479329266893) div 9007199254740992 = a"
    using eq r0 r1 by (rule int_div_pos_eq)
  have m: "(n * 8106479329266893) mod 9007199254740992 = r"
    using eq r0 r1 by (rule int_mod_pos_eq)
  show "(n * 8106479329266893) div 2 ^ 53 = (9 * n) div 10"
    using d by (simp add: a_def)
  show "10 * ((n * 8106479329266893) mod 2 ^ 53) = ((9 * n) mod 10) * 2 ^ 53 + 2 * n"
    using m r10 by (simp add: t_def)
qed


lemma round_shift_cases:
  "round_shift m s = m div 2 ^ s \<or>
   (round_shift m s = m div 2 ^ s + 1 \<and> 2 ^ s \<le> 2 * (m mod 2 ^ s))"
  by (auto simp: round_shift_def Let_def)

lemma round_shift_nonneg: "0 \<le> m \<Longrightarrow> 0 \<le> round_shift m s"
  using round_shift_cases [of m s] by (auto simp: pos_imp_zdiv_nonneg_iff)

text \<open>Rounding the significand does not reach the next integer.\<close>

lemma rounded_quotient:
  fixes n P Q :: int
  assumes n: "0 \<le> n" "n < 2 ^ 49"
    and P: "0 < P" and Q: "0 < Q" and PQ: "P * Q = 2 ^ 53"
    and lo: "P * 2 ^ 52 \<le> n * 8106479329266893"
    and m: "m = (n * 8106479329266893) div P \<or>
            (m = (n * 8106479329266893) div P + 1 \<and> P \<le> 2 * ((n * 8106479329266893) mod P))"
  shows "m div Q = (9 * n) div 10"
proof -
  let ?M = "n * 8106479329266893"
  have n52: "n < 2 ^ 52"
    using n(2) by simp
  have "?M div (P * Q) = (?M div P) div Q"
    using Q by (intro zdiv_zmult2_eq) simp
  then have dq: "(?M div P) div Q = ?M div 2 ^ 53"
    by (simp only: PQ)
  have ex: "?M div 2 ^ 53 = (9 * n) div 10"
    using n(1) n52 by (rule exact_quotient)
  from m show ?thesis
  proof
    assume "m = ?M div P"
    with dq ex show ?thesis by simp
  next
    assume up: "m = ?M div P + 1 \<and> P \<le> 2 * (?M mod P)"
    let ?q = "?M div P"
    let ?r = "?M mod P"
    have ne: "?q mod Q \<noteq> Q - 1"
    proof
      assume top: "?q mod Q = Q - 1"
      have "?M mod (P * Q) = P * (?q mod Q) + ?r"
        using Q by (intro zmod_zmult2_eq) simp
      then have mk: "?M mod 2 ^ 53 = P * Q - P + ?r"
        by (simp add: PQ top algebra_simps)
      have "10 * (?M mod 2 ^ 53) = ((9 * n) mod 10) * 2 ^ 53 + 2 * n"
        using n(1) n52 by (rule exact_quotient)
      moreover have "(9 * n) mod 10 \<le> 9"
        by simp
      ultimately have "10 * (?M mod 2 ^ 53) \<le> 9 * 2 ^ 53 + 2 * n"
        by simp
      with mk have "10 * (2 ^ 53 - P + ?r) \<le> 9 * 2 ^ 53 + 2 * n"
        by (simp add: PQ)
      with up have a: "2 ^ 53 \<le> 5 * P + 2 * n"
        by simp
      from lo n(1) have "P * 2 ^ 52 \<le> n * 2 ^ 53"
        by simp
      then have "P \<le> 2 * n"
        by simp
      with a n(2) show False
        by simp
    qed
    have "(?q + 1) div Q = ?q div Q"
    proof -
      have r0: "0 \<le> ?q mod Q" and r1: "?q mod Q < Q"
        using Q by simp_all
      with ne have lt: "?q mod Q + 1 < Q"
        by simp
      have "?q + 1 = Q * (?q div Q) + (?q mod Q + 1)"
        by simp
      then show ?thesis
        using r0 lt by (intro int_div_pos_eq [where r = "?q mod Q + 1"]) simp_all
    qed
    with up dq ex show ?thesis by simp
  qed
qed

lemma ship_threshold_small:
  assumes "0 \<le> n" and "n < 2 ^ 49"
  shows "ship_threshold n = (9 * n) div 10"
proof -
  let ?M = "n * 8106479329266893"
  have M0: "0 \<le> ?M"
    using assms(1) by simp
  have fi: "float64_of_int n = (n, 0)"
    using assms by (intro float64_of_int_exact) simp
  have n52: "n < 2 ^ 52"
    using assms(2) by simp
  show ?thesis
  proof (cases "bitlen ?M - 53 \<le> 0")
    case True
    then have "ship_threshold n = sgn ?M * (?M div 2 ^ 53)"
      using M0 by (simp add: ship_threshold_def fi f64_mul_def maxSizeThreshold_def f64_round_def
          int_of_float64_def)
    also have "\<dots> = ?M div 2 ^ 53"
      using M0 by (cases "?M = 0") (simp_all add: sgn_if)
    also have "\<dots> = (9 * n) div 10"
      using assms(1) n52 by (rule exact_quotient)
    finally show ?thesis .
  next
    case False
    define S where "S = nat (bitlen ?M - 53)"
    have S: "bitlen ?M - 53 = int S" and S1: "1 \<le> S"
      using False by (simp_all add: S_def)
    have Mpos: "0 < ?M"
      using False bitlen_eq_zero_iff [of ?M] by (cases "0 < ?M") auto
    from bitlen_bounds [OF Mpos] have "2 ^ nat (bitlen ?M - 1) \<le> ?M"
      by simp
    moreover have "nat (bitlen ?M - 1) = S + 52"
      using S by simp
    ultimately have lo: "(2::int) ^ S * 2 ^ 52 \<le> ?M"
      by (simp add: power_add)
    have "?M < 2 ^ 102"
      using assms by simp
    with lo have "(2::int) ^ (S + 52) < 2 ^ 102"
      by (simp add: power_add)
    have "S + 52 < 102"
    proof (rule power_less_imp_less_exp)
      show "(1::int) < 2" by simp
      show "(2::int) ^ (S + 52) < 2 ^ 102" by fact
    qed
    then have S50: "S < 50"
      by simp
    define P :: int where "P = 2 ^ S"
    define Q :: int where "Q = 2 ^ (53 - S)"
    have PQ: "P * Q = 2 ^ 53"
      using S50 by (simp add: P_def Q_def power_add [symmetric])
    have P0: "0 < P" and Q0: "0 < Q"
      by (simp_all add: P_def Q_def)
    define m where "m = round_shift ?M S"
    have mc: "m = ?M div P \<or> (m = ?M div P + 1 \<and> P \<le> 2 * (?M mod P))"
      using round_shift_cases [of ?M S] by (simp add: m_def P_def)
    have m0: "0 \<le> m"
      using M0 by (simp add: m_def round_shift_nonneg)
    have e: "nat (53 - (bitlen ?M - 53) - 53 + 53) = 53 - S"
      using S by simp
    have "f64_mul (float64_of_int n) maxSizeThreshold = (m, - 53 + int S)"
      using False Mpos S
      by (simp add: fi f64_mul_def maxSizeThreshold_def f64_round_def m_def Let_def)
    then have "ship_threshold n = sgn m * (m div Q)"
      using S50 m0
      by (simp add: ship_threshold_def int_of_float64_def Q_def nat_diff_distrib')
    also have "\<dots> = m div Q"
    proof (cases "m = 0")
      case True
      then show ?thesis by simp
    next
      case False
      with m0 show ?thesis by (simp add: sgn_if)
    qed
    also have "\<dots> = (9 * n) div 10"
      using assms P0 Q0 PQ _ mc
    proof (rule rounded_quotient)
      show "P * 2 ^ 52 \<le> ?M"
        using lo by (simp add: P_def)
    qed
    finally show ?thesis .
  qed
qed


lemma spec_threshold_div: "spec_threshold n = (9 * n) div 10"
proof -
  have "of_int n * (9 / 10 :: rat) = of_int (9 * n) / of_int 10"
    by simp
  then show ?thesis
    unfolding spec_threshold_def by (simp only: floor_divide_of_int_eq)
qed

lemma round_shift_abs_nonneg: "0 \<le> round_shift \<bar>m\<bar> s"
  by (rule round_shift_nonneg) simp

lemma f64_round_nonpos: "m \<le> 0 \<Longrightarrow> fst (f64_round (m, e)) \<le> 0"
  using round_shift_abs_nonneg [of m "nat (bitlen \<bar>m\<bar> - 53)"]
  by (auto simp: f64_round_def Let_def sgn_if mult_le_0_iff)

lemma int_of_float64_nonpos: "fst x \<le> 0 \<Longrightarrow> int_of_float64 x \<le> 0"
  by (cases x) (auto simp: int_of_float64_def sgn_if mult_le_0_iff pos_imp_zdiv_nonneg_iff)

lemma ship_threshold_nonpos:
  assumes "n \<le> 0"
  shows "ship_threshold n \<le> 0"
proof -
  obtain m e where fe: "float64_of_int n = (m, e)"
    by (cases "float64_of_int n")
  have "fst (float64_of_int n) \<le> 0"
    unfolding float64_of_int_def using assms by (rule f64_round_nonpos)
  with fe have "m \<le> 0"
    by simp
  then have "m * 8106479329266893 \<le> 0"
    by simp
  then have "fst (f64_round (m * 8106479329266893, e + - 53)) \<le> 0"
    by (rule f64_round_nonpos)
  then have "int_of_float64 (f64_round (m * 8106479329266893, e + - 53)) \<le> 0"
    by (rule int_of_float64_nonpos)
  then show ?thesis
    by (simp add: ship_threshold_def fe f64_mul_def maxSizeThreshold_def)
qed

lemma time_Since_gt:
  assumes "minDuration \<le> a" and "a < maxDuration"
  shows "time_Since tnow t > a \<longleftrightarrow> tnow - t > a"
  using assms by (auto simp: time_Since_def time_Sub_def Let_def)

lemma ShouldShip_threshold:
  "ShouldShip tnow b \<longleftrightarrow>
     ship_threshold (maxSize b) \<le> int (count b)
     \<or> (\<not> time_IsZero (age b) \<and> time_Since tnow (age b) > maxAge b)"
  by (simp add: ShouldShip_def ship_threshold_def)

text \<open>
  C4, as amended.  For a batch whose \<open>maxSize\<close> is below \<open>2 ^ 49\<close> and whose \<open>maxAge\<close>
  is a duration other than the largest one, \<open>ShouldShip\<close> is true exactly when
  \<open>count\<close> is at least the floor of nine tenths of \<open>maxSize\<close>, or the age is set and
  further back than \<open>maxAge\<close>.  \<open>ShouldShip\<close> returns a truth value only: the batch is an
  argument and no batch comes back.
\<close>

theorem ShouldShip_disjunction:
  assumes "maxSize b < 2 ^ 49" and "minDuration \<le> maxAge b" and "maxAge b < maxDuration"
  shows "ShouldShip tnow b \<longleftrightarrow> spec_should_ship tnow b"
proof -
  have thr: "ship_threshold (maxSize b) \<le> int (count b)
      \<longleftrightarrow> spec_threshold (maxSize b) \<le> int (count b)"
  proof (cases "0 \<le> maxSize b")
    case True
    then have "ship_threshold (maxSize b) = spec_threshold (maxSize b)"
      using assms(1) by (simp only: ship_threshold_small spec_threshold_div)
    then show ?thesis
      by simp
  next
    case False
    then have "ship_threshold (maxSize b) \<le> 0"
      by (intro ship_threshold_nonpos) simp
    moreover from False have "spec_threshold (maxSize b) \<le> 0"
      by (simp add: spec_threshold_div)
    ultimately show ?thesis
      by simp
  qed
  have "time_Since tnow (age b) > maxAge b \<longleftrightarrow> tnow - age b > maxAge b"
    using assms(2,3) by (rule time_Since_gt)
  with thr show ?thesis
    by (simp add: ShouldShip_threshold spec_should_ship_def time_IsZero_def)
qed

theorem ShouldShip_disjunction_witness:
  "maxSize nine_batch < 2 ^ 49 \<and> minDuration \<le> maxAge nine_batch \<and>
   maxAge nine_batch < maxDuration \<and>
   ShouldShip 1700000000000000000 nine_batch \<and>
   \<not> ShouldShip 1700000000000000000 eight_batch \<and>
   ShouldShip 1700000003000000000 aged_batch \<and>
   \<not> ShouldShip 1700000002000000000 aged_batch"
  using ShouldShip_disjunction [of nine_batch 1700000000000000000]
    ShouldShip_disjunction [of eight_batch 1700000000000000000]
    ShouldShip_disjunction [of aged_batch 1700000003000000000]
    ShouldShip_disjunction [of aged_batch 1700000002000000000]
  by (simp add: nine_batch_def eight_batch_def aged_batch_def NewBatch_def spec_should_ship_def
      spec_threshold_div minDuration_def maxDuration_def zeroTime_def)

text \<open>
  Without the bound the product is rounded to 53 bits before the fraction is cut, and the
  rounding can reach the next integer: nine tenths of \<open>2251799813685251\<close> is
  \<open>2026619832316725.9\<close>, the \<open>float64\<close> product is \<open>2026619832316726\<close>.
\<close>

lemma huge_threshold: "ship_threshold 2251799813685251 = 2026619832316726"
  by code_simp

theorem ShouldShip_rounding_counterexample:
  "maxSize huge_batch = 2251799813685251 \<and> count huge_batch = 2026619832316725 \<and>
   age huge_batch = zeroTime \<and>
   spec_threshold (maxSize huge_batch) = 2026619832316725 \<and>
   spec_should_ship 1700000000000000000 huge_batch \<and>
   \<not> ShouldShip 1700000000000000000 huge_batch"
  by (simp add: huge_batch_def NewBatch_def spec_should_ship_def spec_threshold_div
      ShouldShip_threshold huge_threshold time_IsZero_def)

end
